(* ===== verification/Tb_Prelude.thy ===== *)
theory Tb_Prelude
  imports Main "HOL-Library.Word"
begin

text \<open>
  Shared vocabulary of the development: the kernel's fixed-width integers as words, the error
  numbers the modelled functions return, raw memory as byte lists written at offsets, and the
  generic facts on words and lists that the component theories rely on.

  \<^item> \<open>u8\<close>, \<open>u16\<close>, \<open>u32\<close>, \<open>u64\<close> keep the width of the C types, so that truncation and
    wrap-around are those of the code;
  \<^item> a C function that returns \<open>0\<close> or a negative errno has a result of type \<open>errno + 'a\<close>;
  \<^item> a buffer of known size is a list of bytes, and a store of a run of bytes at an offset is
    \<open>mem_put\<close>.
\<close>

unbundle bit_operations_syntax

type_synonym u8 = "8 word"
type_synonym u16 = "16 word"
type_synonym u32 = "32 word"
type_synonym u64 = "64 word"

text \<open>Error numbers used by the frame service; \<open>EHW\<close> stands for any other number a hardware
  backend may hand up.\<close>

datatype errno =
    EINVAL | ENOSPC | ENETDOWN | EPROTO | ESTALE | EUCLEAN | EBUSY | ENOMEM | ENODEV
  | ETIMEDOUT | ESHUTDOWN | EOPNOTSUPP | EHW nat

named_theorems wire_simps \<open>layout lemmas of the control-plane messages\<close>
named_theorems adm_simps \<open>field equations of the admission operations\<close>
named_theorems frame_simps \<open>what an operation leaves unchanged\<close>

section \<open>Byte buffers\<close>

definition mem_put :: "nat \<Rightarrow> u8 list \<Rightarrow> u8 list \<Rightarrow> u8 list" where
  "mem_put off bs buf = take off buf @ bs @ drop (off + length bs) buf"

definition mem_get :: "nat \<Rightarrow> nat \<Rightarrow> u8 list \<Rightarrow> u8 list" where
  "mem_get off n buf = take n (drop off buf)"

lemma length_mem_put [simp]:
  "off + length bs \<le> length buf \<Longrightarrow> length (mem_put off bs buf) = length buf"
  by (simp add: mem_put_def)

lemma nth_mem_put:
  assumes "off + length bs \<le> length buf"
  shows "mem_put off bs buf ! i =
    (if off \<le> i \<and> i < off + length bs then bs ! (i - off) else buf ! i)"
  using assms by (auto simp: mem_put_def nth_append add.commute)

lemma length_mem_get [simp]: "off + n \<le> length buf \<Longrightarrow> length (mem_get off n buf) = n"
  by (simp add: mem_get_def)

lemma nth_mem_get: "off + n \<le> length buf \<Longrightarrow> i < n \<Longrightarrow> mem_get off n buf ! i = buf ! (off + i)"
  by (simp add: mem_get_def)

lemma mem_get_put_same:
  "off + length bs \<le> length buf \<Longrightarrow> mem_get off (length bs) (mem_put off bs buf) = bs"
  by (simp add: mem_get_def mem_put_def)

lemma mem_get_put_disjoint:
  assumes "off + length bs \<le> length buf" and "i + n \<le> length buf"
    and "i + n \<le> off \<or> off + length bs \<le> i"
  shows "mem_get i n (mem_put off bs buf) = mem_get i n buf"
  using assms by (intro nth_equalityI) (auto simp: nth_mem_get nth_mem_put)

section \<open>Words\<close>

lemma unat_add1_u16: "unat (x :: u16) < 65535 \<Longrightarrow> unat (x + 1) = unat x + 1"
  by (simp add: unat_word_ariths)

lemma unat_sub1_word: "(x :: 'a::len word) \<noteq> 0 \<Longrightarrow> unat (x - 1) = unat x - 1"
  by (simp add: unat_minus_one)

lemma bit_255_int: "bit (255 :: int) n \<longleftrightarrow> n < 8"
proof -
  have "(255 :: int) = mask 8" by (simp add: mask_eq_exp_minus_1)
  then show ?thesis by (simp only: bit_mask_iff) simp
qed

lemma bit_u32max_int: "bit (0xffffffff :: int) n \<longleftrightarrow> n < 32"
proof -
  have "(0xffffffff :: int) = mask 32" by (simp add: mask_eq_exp_minus_1)
  then show ?thesis by (simp only: bit_mask_iff) simp
qed

lemma word_mask_le: "(x :: 'a::len word) AND m \<le> m"
  by (rule word_and_le1)

section \<open>Lists\<close>

lemma set_remove1_distinct: "distinct xs \<Longrightarrow> set (remove1 x xs) = set xs - {x}"
  by simp


section \<open>Counting\<close>

text \<open>How many of the first \<open>n\<close> indices satisfy a predicate: what a counter kept beside a pool
  of descriptors stands for.\<close>

definition cnt :: "(nat \<Rightarrow> bool) \<Rightarrow> nat \<Rightarrow> nat" where
  "cnt P n = card {i. i < n \<and> P i}"

lemma cnt_le: "cnt P n \<le> n"
proof -
  have "card {i. i < n \<and> P i} \<le> card {..<n}" by (rule card_mono) auto
  then show ?thesis by (simp add: cnt_def)
qed

lemma cnt_zero [simp]: "cnt (\<lambda>_. False) n = 0"
  by (simp add: cnt_def)

lemma cnt_less: "i < n \<Longrightarrow> \<not> P i \<Longrightarrow> cnt P n < n"
proof -
  assume "i < n" "\<not> P i"
  then have "{j. j < n \<and> P j} \<subset> {..<n}" by auto
  then have "card {j. j < n \<and> P j} < card {..<n}" by (rule psubset_card_mono [rotated]) simp
  then show ?thesis by (simp add: cnt_def)
qed

lemma cnt_pos: "i < n \<Longrightarrow> P i \<Longrightarrow> 0 < cnt P n"
  by (auto simp: cnt_def card_gt_0_iff)

lemma cnt_set:
  assumes "i < n" "\<not> P i"
  shows "cnt (P(i := True)) n = Suc (cnt P n)"
proof -
  have "{j. j < n \<and> (P(i := True)) j} = insert i {j. j < n \<and> P j}" using assms by auto
  then show ?thesis using assms by (simp add: cnt_def)
qed

lemma cnt_clear:
  assumes "i < n" "P i"
  shows "cnt (P(i := False)) n = cnt P n - 1"
proof -
  have "{j. j < n \<and> (P(i := False)) j} = {j. j < n \<and> P j} - {i}" using assms by auto
  then show ?thesis using assms by (simp add: cnt_def)
qed

lemma cnt_same [simp]: "cnt (P(i := P i)) n = cnt P n"
  by simp

lemma cnt_upd_eq: "P i = b \<Longrightarrow> cnt (P(i := b)) n = cnt P n"
  by (simp add: fun_upd_idem)

text \<open>A free list that misses one of the descriptors has room for it.\<close>

lemma free_list_room:
  assumes "distinct xs" "\<forall>x \<in> set xs. x < n" "i < n" "i \<notin> set xs"
  shows "length xs < (n :: nat)"
proof -
  have "set xs \<subseteq> {..<n} - {i}" using assms by auto
  then have "card (set xs) \<le> card ({..<n} - {i})" by (intro card_mono) auto
  then show ?thesis using assms(1,3) distinct_card [of xs] by simp
qed

end
