(* ===== verification/Tbframe_Wire.thy ===== *)
theory Tbframe_Wire
  imports Tb_Prelude
begin

text \<open>
  The control-plane wire format of the frame service
  (\<^verbatim>\<open>drivers/thunderbolt_frame/frame/tbframe_wire.h\<close>): the little-endian field accessors,
  the 76-byte HELLO/READY/BYE message and its acknowledgements, and the 32-byte directional
  keepalive. Messages are built by stores into a caller's buffer, exactly as the code does, and
  the theorems show that the parser recovers what the builder stored, that it refuses every
  malformed or foreign-version message, and that keepalives are encoded bijectively.
\<close>

section \<open>Constants\<close>

definition TBFRAME_WIRE_MAGIC :: u32 where "TBFRAME_WIRE_MAGIC = 0x31464254"
definition TBFRAME_WIRE_VERSION :: u16 where "TBFRAME_WIRE_VERSION = 3"
definition TBFRAME_WIRE_XDOMAIN_HDR_SIZE :: nat where "TBFRAME_WIRE_XDOMAIN_HDR_SIZE = 32"
definition TBFRAME_WIRE_HDR_SIZE :: nat where "TBFRAME_WIRE_HDR_SIZE = 16"
definition TBFRAME_WIRE_HELLO_SIZE :: nat where "TBFRAME_WIRE_HELLO_SIZE = 28"
definition TBFRAME_WIRE_HELLO_MSG_SIZE :: nat where
  "TBFRAME_WIRE_HELLO_MSG_SIZE =
     TBFRAME_WIRE_XDOMAIN_HDR_SIZE + TBFRAME_WIRE_HDR_SIZE + TBFRAME_WIRE_HELLO_SIZE"
definition TBFRAME_WIRE_KEEPALIVE_LEGACY_SIZE :: u16 where
  "TBFRAME_WIRE_KEEPALIVE_LEGACY_SIZE = 8"
definition TBFRAME_WIRE_KEEPALIVE_SIZE :: u16 where "TBFRAME_WIRE_KEEPALIVE_SIZE = 32"

definition tbframe_wire_uuid :: "u8 list" where
  "tbframe_wire_uuid =
     [0x9a, 0x52, 0xc3, 0xb4, 0x1f, 0x6e, 0x4d, 0x07,
      0x8b, 0x2a, 0x46, 0xc8, 0x1d, 0x90, 0xe5, 0xf3]"

definition TBFRAME_WIRE_OP_HELLO :: u16 where "TBFRAME_WIRE_OP_HELLO = 1"
definition TBFRAME_WIRE_OP_HELLO_ACK :: u16 where "TBFRAME_WIRE_OP_HELLO_ACK = 2"
definition TBFRAME_WIRE_OP_READY :: u16 where "TBFRAME_WIRE_OP_READY = 3"
definition TBFRAME_WIRE_OP_READY_ACK :: u16 where "TBFRAME_WIRE_OP_READY_ACK = 4"
definition TBFRAME_WIRE_OP_BYE :: u16 where "TBFRAME_WIRE_OP_BYE = 5"
definition TBFRAME_WIRE_OP_BYE_ACK :: u16 where "TBFRAME_WIRE_OP_BYE_ACK = 6"

definition TBFRAME_WIRE_CAP_E2E :: u32 where "TBFRAME_WIRE_CAP_E2E = 1"
definition TBFRAME_WIRE_CAP_KEEPALIVE :: u32 where "TBFRAME_WIRE_CAP_KEEPALIVE = 2"
definition TBFRAME_WIRE_CAP_KEEPALIVE_ACK :: u32 where "TBFRAME_WIRE_CAP_KEEPALIVE_ACK = 4"

lemmas wire_consts =
  TBFRAME_WIRE_MAGIC_def TBFRAME_WIRE_VERSION_def TBFRAME_WIRE_XDOMAIN_HDR_SIZE_def
  TBFRAME_WIRE_HDR_SIZE_def TBFRAME_WIRE_HELLO_SIZE_def TBFRAME_WIRE_HELLO_MSG_SIZE_def

lemmas wire_ops =
  TBFRAME_WIRE_OP_HELLO_def TBFRAME_WIRE_OP_HELLO_ACK_def TBFRAME_WIRE_OP_READY_def
  TBFRAME_WIRE_OP_READY_ACK_def TBFRAME_WIRE_OP_BYE_def TBFRAME_WIRE_OP_BYE_ACK_def

lemmas wire_caps =
  TBFRAME_WIRE_CAP_E2E_def TBFRAME_WIRE_CAP_KEEPALIVE_def TBFRAME_WIRE_CAP_KEEPALIVE_ACK_def

lemma HELLO_MSG_SIZE_76: "TBFRAME_WIRE_HELLO_MSG_SIZE = 76"
  by (simp add: wire_consts)

lemma length_wire_uuid [simp]: "length tbframe_wire_uuid = 16"
  by (simp add: tbframe_wire_uuid_def)

section \<open>Message records\<close>

record tbframe_wire_keepalive =
  ka_session_cookie :: u64
  ka_sequence :: u64
  ka_ack_cookie :: u64
  ka_ack_sequence :: u64

record tbframe_wire_hello =
  proto_version :: u16
  transmit_hopid :: u16
  rx_ring_entries :: u16
  capabilities :: u32
  gid_eui64 :: u64
  session_cookie :: u64

record tbframe_wire_info =
  info_op :: u16
  info_seq :: u32
  info_xdomain_sequence :: u8
  info_route :: u64

section \<open>Little-endian accessors\<close>

definition tbframe_wire_put_le16 :: "nat \<Rightarrow> u16 \<Rightarrow> u8 list \<Rightarrow> u8 list" where
  "tbframe_wire_put_le16 p value = mem_put p [ucast (value AND 0xff), ucast (drop_bit 8 value)]"

definition tbframe_wire_put_le32 :: "nat \<Rightarrow> u32 \<Rightarrow> u8 list \<Rightarrow> u8 list" where
  "tbframe_wire_put_le32 p value = mem_put p
     [ucast (value AND 0xff), ucast (drop_bit 8 value AND 0xff),
      ucast (drop_bit 16 value AND 0xff), ucast (drop_bit 24 value)]"

definition tbframe_wire_put_le64 :: "nat \<Rightarrow> u64 \<Rightarrow> u8 list \<Rightarrow> u8 list" where
  "tbframe_wire_put_le64 p value buf =
     tbframe_wire_put_le32 (p + 4) (ucast (drop_bit 32 value))
       (tbframe_wire_put_le32 p (ucast (value AND 0xffffffff)) buf)"

definition tbframe_wire_get_le16 :: "u8 list \<Rightarrow> nat \<Rightarrow> u16" where
  "tbframe_wire_get_le16 buf p = ucast (buf ! p) OR push_bit 8 (ucast (buf ! (p + 1)))"

definition tbframe_wire_get_le32 :: "u8 list \<Rightarrow> nat \<Rightarrow> u32" where
  "tbframe_wire_get_le32 buf p =
     ucast (buf ! p) OR push_bit 8 (ucast (buf ! (p + 1))) OR
     push_bit 16 (ucast (buf ! (p + 2))) OR push_bit 24 (ucast (buf ! (p + 3)))"

definition tbframe_wire_get_le64 :: "u8 list \<Rightarrow> nat \<Rightarrow> u64" where
  "tbframe_wire_get_le64 buf p =
     ucast (tbframe_wire_get_le32 buf p) OR
     push_bit 32 (ucast (tbframe_wire_get_le32 buf (p + 4)))"

section \<open>Keepalive frames\<close>

definition tbframe_wire_build_keepalive ::
  "tbframe_wire_keepalive \<Rightarrow> u8 list \<Rightarrow> u8 list" where
  "tbframe_wire_build_keepalive keepalive p =
     tbframe_wire_put_le64 24 (ka_ack_sequence keepalive)
       (tbframe_wire_put_le64 16 (ka_ack_cookie keepalive)
         (tbframe_wire_put_le64 8 (ka_sequence keepalive)
           (tbframe_wire_put_le64 0 (ka_session_cookie keepalive) p)))"

definition tbframe_wire_parse_keepalive :: "u8 list \<Rightarrow> tbframe_wire_keepalive" where
  "tbframe_wire_parse_keepalive p =
     \<lparr>ka_session_cookie = tbframe_wire_get_le64 p 0,
      ka_sequence = tbframe_wire_get_le64 p 8,
      ka_ack_cookie = tbframe_wire_get_le64 p 16,
      ka_ack_sequence = tbframe_wire_get_le64 p 24\<rparr>"

section \<open>HELLO-shaped control messages\<close>

text \<open>A null pointer argument is \<open>None\<close>; \<open>size\<close> is the length of the buffer. The XDomain header
  takes the first 32 bytes, the frame-service header the next 16, the HELLO body the last 28.\<close>

definition tbframe_wire_put_xdomain_hdr ::
  "u16 \<Rightarrow> u64 \<Rightarrow> u8 \<Rightarrow> u8 list \<Rightarrow> u8 list" where
  "tbframe_wire_put_xdomain_hdr op route xdomain_sequence p =
    (let length_sn = of_nat ((TBFRAME_WIRE_HELLO_MSG_SIZE - 12) div 4)
           OR push_bit 27 (ucast xdomain_sequence AND 0x3);
         p = tbframe_wire_put_le32 0 (ucast (drop_bit 32 route)) p;
         p = tbframe_wire_put_le32 4 (ucast (route AND 0xffffffff)) p;
         p = tbframe_wire_put_le32 8 length_sn p;
         p = mem_put 12 tbframe_wire_uuid p
     in tbframe_wire_put_le32 28 (ucast op) p)"

definition tbframe_wire_put_hdr :: "nat \<Rightarrow> u16 \<Rightarrow> u32 \<Rightarrow> u8 list \<Rightarrow> u8 list" where
  "tbframe_wire_put_hdr o1 op seq p =
    (let p = tbframe_wire_put_le32 o1 TBFRAME_WIRE_MAGIC p;
         p = tbframe_wire_put_le16 (o1 + 4) TBFRAME_WIRE_VERSION p;
         p = tbframe_wire_put_le16 (o1 + 6) op p;
         p = tbframe_wire_put_le16 (o1 + 8) (of_nat TBFRAME_WIRE_HELLO_MSG_SIZE) p;
         p = tbframe_wire_put_le16 (o1 + 10) 0 p
     in tbframe_wire_put_le32 (o1 + 12) seq p)"

definition tbframe_wire_put_hello :: "nat \<Rightarrow> tbframe_wire_hello \<Rightarrow> u8 list \<Rightarrow> u8 list" where
  "tbframe_wire_put_hello o2 hello p =
    (let p = tbframe_wire_put_le16 o2 (proto_version hello) p;
         p = tbframe_wire_put_le16 (o2 + 2) (transmit_hopid hello) p;
         p = tbframe_wire_put_le16 (o2 + 4) (rx_ring_entries hello) p;
         p = tbframe_wire_put_le16 (o2 + 6) 0 p;
         p = tbframe_wire_put_le32 (o2 + 8) (capabilities hello) p;
         p = tbframe_wire_put_le64 (o2 + 12) (gid_eui64 hello) p
     in tbframe_wire_put_le64 (o2 + 20) (session_cookie hello) p)"

definition tbframe_wire_build_hello ::
  "u8 list option \<Rightarrow> tbframe_wire_hello option \<Rightarrow> u16 \<Rightarrow> u32 \<Rightarrow> u64 \<Rightarrow> u8 \<Rightarrow> errno + u8 list"
where
  "tbframe_wire_build_hello buf hello op seq route xdomain_sequence =
    (case (buf, hello) of
       (Some p, Some h) \<Rightarrow>
         if op < TBFRAME_WIRE_OP_HELLO \<or> op > TBFRAME_WIRE_OP_BYE_ACK then Inl EINVAL
         else if length p < TBFRAME_WIRE_HELLO_MSG_SIZE then Inl ENOSPC
         else
          (let p = mem_put 0 (replicate TBFRAME_WIRE_HELLO_MSG_SIZE 0) p;
               p = tbframe_wire_put_xdomain_hdr op route xdomain_sequence p;
               o1 = TBFRAME_WIRE_XDOMAIN_HDR_SIZE;
               p = tbframe_wire_put_hdr o1 op seq p;
               o2 = o1 + TBFRAME_WIRE_HDR_SIZE
           in Inr (tbframe_wire_put_hello o2 h p))
     | _ \<Rightarrow> Inl EINVAL)"

definition tbframe_wire_parse_hello ::
  "u8 list option \<Rightarrow> errno + tbframe_wire_hello \<times> tbframe_wire_info" where
  "tbframe_wire_parse_hello buf =
    (case buf of None \<Rightarrow> Inl EINVAL
     | Some p \<Rightarrow>
       if length p < TBFRAME_WIRE_HELLO_MSG_SIZE then Inl EINVAL
       else
        (let length_sn = tbframe_wire_get_le32 p 8;
             op = (ucast (tbframe_wire_get_le32 p 28) :: u16);
             xseq = ucast (drop_bit 27 length_sn AND 0x3);
             route = (push_bit 32 (ucast (tbframe_wire_get_le32 p 0))
                      OR ucast (tbframe_wire_get_le32 p 4)) AND NOT (push_bit 63 1);
             o1 = TBFRAME_WIRE_XDOMAIN_HDR_SIZE;
             o2 = o1 + TBFRAME_WIRE_HDR_SIZE
         in if length_sn AND 0x3f \<noteq> of_nat ((TBFRAME_WIRE_HELLO_MSG_SIZE - 12) div 4)
            then Inl EINVAL
            else if mem_get 12 16 p \<noteq> tbframe_wire_uuid then Inl EINVAL
            else if op < TBFRAME_WIRE_OP_HELLO \<or> op > TBFRAME_WIRE_OP_BYE_ACK then Inl EINVAL
            else if tbframe_wire_get_le32 p o1 \<noteq> TBFRAME_WIRE_MAGIC then Inl EINVAL
            else if tbframe_wire_get_le16 p (o1 + 4) \<noteq> TBFRAME_WIRE_VERSION then Inl EINVAL
            else if tbframe_wire_get_le16 p (o1 + 6) \<noteq> op then Inl EINVAL
            else if tbframe_wire_get_le16 p (o1 + 8) \<noteq> of_nat TBFRAME_WIRE_HELLO_MSG_SIZE
            then Inl EINVAL
            else Inr
             (\<lparr>proto_version = tbframe_wire_get_le16 p o2,
               transmit_hopid = tbframe_wire_get_le16 p (o2 + 2),
               rx_ring_entries = tbframe_wire_get_le16 p (o2 + 4),
               capabilities = tbframe_wire_get_le32 p (o2 + 8),
               gid_eui64 = tbframe_wire_get_le64 p (o2 + 12),
               session_cookie = tbframe_wire_get_le64 p (o2 + 20)\<rparr>,
              \<lparr>info_op = op, info_seq = tbframe_wire_get_le32 p (o1 + 12),
               info_xdomain_sequence = xseq, info_route = route\<rparr>)))"

text \<open>The best-effort version peek of the mixed-fleet warning: \<open>None\<close> is the code's \<open>-1\<close>.\<close>

definition tbframe_wire_peek_version :: "u8 list option \<Rightarrow> u16 option" where
  "tbframe_wire_peek_version buf =
    (case buf of None \<Rightarrow> None
     | Some p \<Rightarrow>
       if length p < TBFRAME_WIRE_XDOMAIN_HDR_SIZE + 8 then None
       else if mem_get 12 16 p \<noteq> tbframe_wire_uuid then None
       else if tbframe_wire_get_le32 p TBFRAME_WIRE_XDOMAIN_HDR_SIZE \<noteq> TBFRAME_WIRE_MAGIC
       then None
       else Some (tbframe_wire_get_le16 p (TBFRAME_WIRE_XDOMAIN_HDR_SIZE + 4)))"

section \<open>Accessor laws\<close>

lemma length_put_le16 [simp]:
  "p + 2 \<le> length buf \<Longrightarrow> length (tbframe_wire_put_le16 p v buf) = length buf"
  by (simp add: tbframe_wire_put_le16_def)

lemma length_put_le32 [simp]:
  "p + 4 \<le> length buf \<Longrightarrow> length (tbframe_wire_put_le32 p v buf) = length buf"
  by (simp add: tbframe_wire_put_le32_def)

lemma length_put_le64 [simp]:
  "p + 8 \<le> length buf \<Longrightarrow> length (tbframe_wire_put_le64 p v buf) = length buf"
  by (simp add: tbframe_wire_put_le64_def)

lemma le16_bytes:
  fixes v :: u16
  shows "ucast (ucast (v AND 0xff) :: u8) OR push_bit 8 (ucast (ucast (drop_bit 8 v) :: u8)) = v"
  by (rule bit_word_eqI) (auto simp: bit_simps bit_255_int not_less)

lemma le32_bytes:
  fixes v :: u32
  shows "ucast (ucast (v AND 0xff) :: u8) OR push_bit 8 (ucast (ucast (drop_bit 8 v AND 0xff) :: u8))
   OR push_bit 16 (ucast (ucast (drop_bit 16 v AND 0xff) :: u8))
   OR push_bit 24 (ucast (ucast (drop_bit 24 v) :: u8)) = v" (is "?l = v")
proof (rule bit_word_eqI)
  fix n assume n: "n < LENGTH(32)"
  then consider "n < 8" | "8 \<le> n" "n < 16" | "16 \<le> n" "n < 24" | "24 \<le> n" "n < 32" by fastforce
  then show "bit ?l n = bit v n"
    by cases (auto simp: bit_simps bit_255_int)
qed

lemma le64_halves:
  fixes v :: u64
  shows "ucast (ucast (v AND 0xffffffff) :: u32) OR push_bit 32 (ucast (ucast (drop_bit 32 v) :: u32)) = v"
  by (rule bit_word_eqI) (auto simp: bit_simps bit_u32max_int not_less)

lemma get_put_le16_same [wire_simps]:
  "p + 2 \<le> length buf \<Longrightarrow> tbframe_wire_get_le16 (tbframe_wire_put_le16 p v buf) p = v"
  by (simp add: tbframe_wire_get_le16_def tbframe_wire_put_le16_def nth_mem_put le16_bytes)

lemma get_put_le32_same [wire_simps]:
  "p + 4 \<le> length buf \<Longrightarrow> tbframe_wire_get_le32 (tbframe_wire_put_le32 p v buf) p = v"
  by (simp add: tbframe_wire_get_le32_def tbframe_wire_put_le32_def nth_mem_put le32_bytes
      numeral_2_eq_2 numeral_3_eq_3 nth_Cons')

lemma get_le16_mem_put [wire_simps]:
  "off + length bs \<le> length buf \<Longrightarrow> q + 2 \<le> length buf \<Longrightarrow> q + 2 \<le> off \<or> off + length bs \<le> q \<Longrightarrow>
   tbframe_wire_get_le16 (mem_put off bs buf) q = tbframe_wire_get_le16 buf q"
  by (auto simp: tbframe_wire_get_le16_def nth_mem_put)

lemma get_le32_mem_put [wire_simps]:
  "off + length bs \<le> length buf \<Longrightarrow> q + 4 \<le> length buf \<Longrightarrow> q + 4 \<le> off \<or> off + length bs \<le> q \<Longrightarrow>
   tbframe_wire_get_le32 (mem_put off bs buf) q = tbframe_wire_get_le32 buf q"
  by (auto simp: tbframe_wire_get_le32_def nth_mem_put)

lemma get_le16_put_le16 [wire_simps]:
  "p + 2 \<le> length buf \<Longrightarrow> q + 2 \<le> length buf \<Longrightarrow> q + 2 \<le> p \<or> p + 2 \<le> q \<Longrightarrow>
   tbframe_wire_get_le16 (tbframe_wire_put_le16 p v buf) q = tbframe_wire_get_le16 buf q"
  by (simp add: tbframe_wire_put_le16_def get_le16_mem_put)

lemma get_le16_put_le32 [wire_simps]:
  "p + 4 \<le> length buf \<Longrightarrow> q + 2 \<le> length buf \<Longrightarrow> q + 2 \<le> p \<or> p + 4 \<le> q \<Longrightarrow>
   tbframe_wire_get_le16 (tbframe_wire_put_le32 p v buf) q = tbframe_wire_get_le16 buf q"
  unfolding tbframe_wire_put_le32_def by (rule get_le16_mem_put) auto

lemma get_le32_put_le16 [wire_simps]:
  "p + 2 \<le> length buf \<Longrightarrow> q + 4 \<le> length buf \<Longrightarrow> q + 4 \<le> p \<or> p + 2 \<le> q \<Longrightarrow>
   tbframe_wire_get_le32 (tbframe_wire_put_le16 p v buf) q = tbframe_wire_get_le32 buf q"
  by (simp add: tbframe_wire_put_le16_def get_le32_mem_put)

lemma get_le32_put_le32 [wire_simps]:
  "p + 4 \<le> length buf \<Longrightarrow> q + 4 \<le> length buf \<Longrightarrow> q + 4 \<le> p \<or> p + 4 \<le> q \<Longrightarrow>
   tbframe_wire_get_le32 (tbframe_wire_put_le32 p v buf) q = tbframe_wire_get_le32 buf q"
  unfolding tbframe_wire_put_le32_def by (rule get_le32_mem_put) auto

lemma mem_get_put_le16 [wire_simps]:
  "p + 2 \<le> length buf \<Longrightarrow> i + n \<le> length buf \<Longrightarrow> i + n \<le> p \<or> p + 2 \<le> i \<Longrightarrow>
   mem_get i n (tbframe_wire_put_le16 p v buf) = mem_get i n buf"
  by (simp add: tbframe_wire_put_le16_def mem_get_put_disjoint)

lemma mem_get_put_le32 [wire_simps]:
  "p + 4 \<le> length buf \<Longrightarrow> i + n \<le> length buf \<Longrightarrow> i + n \<le> p \<or> p + 4 \<le> i \<Longrightarrow>
   mem_get i n (tbframe_wire_put_le32 p v buf) = mem_get i n buf"
  unfolding tbframe_wire_put_le32_def by (rule mem_get_put_disjoint) auto

lemma get_put_le64_same [wire_simps]:
  "p + 8 \<le> length buf \<Longrightarrow> tbframe_wire_get_le64 (tbframe_wire_put_le64 p v buf) p = v"
  by (simp add: tbframe_wire_get_le64_def tbframe_wire_put_le64_def wire_simps le64_halves)

lemma get_le64_put_le64 [wire_simps]:
  "p + 8 \<le> length buf \<Longrightarrow> q + 8 \<le> length buf \<Longrightarrow> q + 8 \<le> p \<or> p + 8 \<le> q \<Longrightarrow>
   tbframe_wire_get_le64 (tbframe_wire_put_le64 p v buf) q = tbframe_wire_get_le64 buf q"
  by (auto simp add: tbframe_wire_get_le64_def tbframe_wire_put_le64_def wire_simps)

lemma get_le16_put_le64 [wire_simps]:
  "p + 8 \<le> length buf \<Longrightarrow> q + 2 \<le> length buf \<Longrightarrow> q + 2 \<le> p \<or> p + 8 \<le> q \<Longrightarrow>
   tbframe_wire_get_le16 (tbframe_wire_put_le64 p v buf) q = tbframe_wire_get_le16 buf q"
  by (auto simp add: tbframe_wire_put_le64_def wire_simps)

lemma get_le32_put_le64 [wire_simps]:
  "p + 8 \<le> length buf \<Longrightarrow> q + 4 \<le> length buf \<Longrightarrow> q + 4 \<le> p \<or> p + 8 \<le> q \<Longrightarrow>
   tbframe_wire_get_le32 (tbframe_wire_put_le64 p v buf) q = tbframe_wire_get_le32 buf q"
  by (auto simp add: tbframe_wire_put_le64_def wire_simps)

lemma mem_get_put_le64 [wire_simps]:
  "p + 8 \<le> length buf \<Longrightarrow> i + n \<le> length buf \<Longrightarrow> i + n \<le> p \<or> p + 8 \<le> i \<Longrightarrow>
   mem_get i n (tbframe_wire_put_le64 p v buf) = mem_get i n buf"
  by (auto simp add: tbframe_wire_put_le64_def wire_simps)

lemma mem_get_uuid [wire_simps]:
  "28 \<le> length buf \<Longrightarrow> mem_get 12 16 (mem_put 12 tbframe_wire_uuid buf) = tbframe_wire_uuid"
  using mem_get_put_same [of 12 tbframe_wire_uuid buf] by simp

section \<open>Header layout\<close>

text \<open>What each of the three stores of a message leaves readable. The length word carries the
  message length in its low bits and the sequence number in bits 27 and 28.\<close>

lemma length_sn_fields:
  fixes s :: u8
  shows "((16 :: u32) OR push_bit 27 (ucast s AND 3)) AND 63 = 16"
    and "drop_bit 27 ((16 :: u32) OR push_bit 27 (ucast s AND 3)) AND 3 = ucast (s AND 3)"
proof -
  have m3: "(3 :: int) = mask 2" and m63: "(63 :: int) = mask 6" and p16: "(16 :: int) = push_bit 4 1"
    by (simp_all add: mask_eq_exp_minus_1 push_bit_eq_mult)
  have b3: "bit (3 :: int) n \<longleftrightarrow> n < 2" for n
    unfolding m3 by (simp only: bit_mask_iff) simp
  have b63: "bit (63 :: int) n \<longleftrightarrow> n < 6" for n
    unfolding m63 by (simp only: bit_mask_iff) simp
  have b16: "bit (16 :: int) n \<longleftrightarrow> n = 4" for n
    unfolding p16 by (auto simp: bit_push_bit_iff_int bit_1_iff simp del: push_bit_of_1)
  show "((16 :: u32) OR push_bit 27 (ucast s AND 3)) AND 63 = 16"
    by (rule bit_word_eqI) (auto simp: bit_simps b3 b63 b16)
  show "drop_bit 27 ((16 :: u32) OR push_bit 27 (ucast s AND 3)) AND 3 = ucast (s AND 3)"
    by (rule bit_word_eqI) (auto simp: bit_simps b3 b63 b16)
qed


lemma put_xdomain_hdr_layout:
  assumes "32 \<le> length p"
  and q: "q = tbframe_wire_put_xdomain_hdr op route xs p"
  shows "length q = length p"
    and "tbframe_wire_get_le32 q 0 = ucast (drop_bit 32 route)"
    and "tbframe_wire_get_le32 q 4 = ucast (route AND 0xffffffff)"
    and "tbframe_wire_get_le32 q 8 = 16 OR push_bit 27 (ucast xs AND 3)"
    and "mem_get 12 16 q = tbframe_wire_uuid"
    and "tbframe_wire_get_le32 q 28 = ucast op"
  using assms(1)
  by (simp_all add: q tbframe_wire_put_xdomain_hdr_def Let_def wire_simps HELLO_MSG_SIZE_76)

lemma put_hdr_layout:
  assumes "o1 + 16 \<le> length p"
  and q: "q = tbframe_wire_put_hdr o1 op sq p"
  shows "length q = length p"
    and "tbframe_wire_get_le32 q o1 = TBFRAME_WIRE_MAGIC"
    and "tbframe_wire_get_le16 q (o1 + 4) = TBFRAME_WIRE_VERSION"
    and "tbframe_wire_get_le16 q (o1 + 6) = op"
    and "tbframe_wire_get_le16 q (o1 + 8) = of_nat TBFRAME_WIRE_HELLO_MSG_SIZE"
    and "tbframe_wire_get_le32 q (o1 + 12) = sq"
    and "i + 4 \<le> o1 \<Longrightarrow> tbframe_wire_get_le32 q i = tbframe_wire_get_le32 p i"
    and "i + n \<le> o1 \<Longrightarrow> mem_get i n q = mem_get i n p"
  using assms(1) by (simp_all add: q tbframe_wire_put_hdr_def Let_def wire_simps)

lemma put_hello_layout:
  assumes "o2 + 28 \<le> length p"
  and q: "q = tbframe_wire_put_hello o2 h p"
  shows "length q = length p"
    and "tbframe_wire_get_le16 q o2 = proto_version h"
    and "tbframe_wire_get_le16 q (o2 + 2) = transmit_hopid h"
    and "tbframe_wire_get_le16 q (o2 + 4) = rx_ring_entries h"
    and "tbframe_wire_get_le32 q (o2 + 8) = capabilities h"
    and "tbframe_wire_get_le64 q (o2 + 12) = gid_eui64 h"
    and "tbframe_wire_get_le64 q (o2 + 20) = session_cookie h"
    and "i + 4 \<le> o2 \<Longrightarrow> tbframe_wire_get_le32 q i = tbframe_wire_get_le32 p i"
    and "i + 2 \<le> o2 \<Longrightarrow> tbframe_wire_get_le16 q i = tbframe_wire_get_le16 p i"
    and "i + n \<le> o2 \<Longrightarrow> mem_get i n q = mem_get i n p"
  using assms(1)
  by (simp_all add: q tbframe_wire_put_hello_def Let_def wire_simps)

lemma route_halves:
  fixes r :: u64
  shows "push_bit 32 (ucast (ucast (drop_bit 32 r) :: u32)) OR
    ucast (ucast (r AND 0xffffffff) :: u32) = r"
  using le64_halves [of r] by (simp add: or.commute)

section \<open>Round trips\<close>

definition wire_op_ok :: "u16 \<Rightarrow> bool" where
  "wire_op_ok op \<longleftrightarrow> TBFRAME_WIRE_OP_HELLO \<le> op \<and> op \<le> TBFRAME_WIRE_OP_BYE_ACK"

lemma wire_op_ok_ops [simp]:
  "wire_op_ok TBFRAME_WIRE_OP_HELLO" "wire_op_ok TBFRAME_WIRE_OP_HELLO_ACK"
  "wire_op_ok TBFRAME_WIRE_OP_READY" "wire_op_ok TBFRAME_WIRE_OP_READY_ACK"
  "wire_op_ok TBFRAME_WIRE_OP_BYE" "wire_op_ok TBFRAME_WIRE_OP_BYE_ACK"
  by (simp_all add: wire_op_ok_def wire_ops)

lemma build_hello_ok:
  assumes "wire_op_ok op" and "76 \<le> length p"
  shows "tbframe_wire_build_hello (Some p) (Some h) op sq route xs = Inr
    (tbframe_wire_put_hello 48 h (tbframe_wire_put_hdr 32 op sq
      (tbframe_wire_put_xdomain_hdr op route xs (mem_put 0 (replicate 76 0) p))))"
  using assms
  by (auto simp: tbframe_wire_build_hello_def wire_op_ok_def wire_consts Let_def)

lemma parse_build_hello:
  assumes "wire_op_ok op" and "76 \<le> length p"
    and "tbframe_wire_build_hello (Some p) (Some h) op sq route xs = Inr q"
  shows "length q = length p" and "tbframe_wire_parse_hello (Some q) = Inr (h,
    \<lparr>info_op = op, info_seq = sq, info_xdomain_sequence = xs AND 3,
     info_route = route AND NOT (push_bit 63 1)\<rparr>)"
proof -
  define p0 where "p0 = mem_put 0 (replicate 76 0) p"
  define p1 where "p1 = tbframe_wire_put_xdomain_hdr op route xs p0"
  define p2 where "p2 = tbframe_wire_put_hdr 32 op sq p1"
  have q: "q = tbframe_wire_put_hello 48 h p2"
    using assms by (simp add: build_hello_ok p0_def p1_def p2_def)
  have l0: "length p0 = length p" using assms(2) by (simp add: p0_def)
  note x = put_xdomain_hdr_layout [OF _ p1_def]
  have l1: "length p1 = length p" using l0 assms(2) x(1) by simp
  note hd = put_hdr_layout [OF _ p2_def]
  have l2: "length p2 = length p" using l1 assms(2) hd(1) by simp
  note he = put_hello_layout [OF _ q]
  show lq: "length q = length p" using l2 assms(2) he(1) by simp
  have u: "ucast (ucast op :: u32) = op"
    by (rule bit_word_eqI) (auto simp: bit_simps)
  have big: "76 \<le> length p0" "76 \<le> length p1" "76 \<le> length p2"
    using l0 l1 l2 assms(2) by simp_all
  define sn :: u32 where "sn = 16 OR push_bit 27 (ucast xs AND 3)"
  have sn: "sn AND 63 = 16" "ucast (drop_bit 27 sn AND 3) = xs AND 3"
    unfolding sn_def length_sn_fields
    by (simp, rule bit_word_eqI) (auto simp: bit_simps)
  have q8: "tbframe_wire_get_le32 p1 8 = sn"
    using x(4) big by (simp only: sn_def)
  show "tbframe_wire_parse_hello (Some q) = Inr (h,
    \<lparr>info_op = op, info_seq = sq, info_xdomain_sequence = xs AND 3,
     info_route = route AND NOT (push_bit 63 1)\<rparr>)"
    using big lq assms(1,2) x(2,3,5,6) q8 hd(2-) he(2-)
    by (simp add: tbframe_wire_parse_hello_def Let_def wire_consts(3-6) sn
        route_halves u wire_op_ok_def not_less)
qed


lemma build_hello_tail:
  assumes "wire_op_ok op" and "76 \<le> length p"
    and "tbframe_wire_build_hello (Some p) (Some h) op sq route xs = Inr q"
  shows "mem_get 76 n q = mem_get 76 n p"
proof -
  let ?p0 = "mem_put 0 (replicate 76 0) p"
  let ?p1 = "tbframe_wire_put_xdomain_hdr op route xs ?p0"
  let ?p2 = "tbframe_wire_put_hdr 32 op sq ?p1"
  have l: "length ?p0 = length p" using assms(2) by simp
  have l1: "length ?p1 = length p" using assms(2) l put_xdomain_hdr_layout(1) [OF _ refl, of ?p0] by simp
  have l2: "length ?p2 = length p" using assms(2) l1 put_hdr_layout(1) [OF _ refl, of 32 ?p1] by simp
  have d: "drop 76 q = drop 76 p"
  proof (rule nth_equalityI)
    have q: "q = tbframe_wire_put_hello 48 h ?p2" using assms by (simp add: build_hello_ok)
    show "length (drop 76 q) = length (drop 76 p)"
      using assms(2) l2 put_hello_layout(1) [OF _ q] by simp
    fix i assume i: "i < length (drop 76 q)"
    have 1: "?p0 ! (76 + i) = p ! (76 + i)" using assms(2) by (simp add: nth_mem_put)
    have 2: "?p1 ! (76 + i) = ?p0 ! (76 + i)"
      using assms(2) by (simp add: tbframe_wire_put_xdomain_hdr_def Let_def nth_mem_put
          tbframe_wire_put_le32_def)
    have 3: "?p2 ! (76 + i) = ?p1 ! (76 + i)"
      using assms(2) l1 by (simp add: tbframe_wire_put_hdr_def Let_def nth_mem_put
          tbframe_wire_put_le32_def tbframe_wire_put_le16_def)
    have 4: "q ! (76 + i) = ?p2 ! (76 + i)"
      using assms(2) l2 by (simp add: q tbframe_wire_put_hello_def Let_def nth_mem_put
          tbframe_wire_put_le32_def tbframe_wire_put_le16_def tbframe_wire_put_le64_def)
    show "drop 76 q ! i = drop 76 p ! i"
      using i 1 2 3 4 parse_build_hello(1) [OF assms] assms(2) by simp
  qed
  then show ?thesis by (simp add: mem_get_def)
qed

lemma parse_hello_gates:
  assumes "tbframe_wire_parse_hello (Some p) = Inr (h, i)"
  shows "76 \<le> length p" and "mem_get 12 16 p = tbframe_wire_uuid"
    and "tbframe_wire_get_le32 p 32 = TBFRAME_WIRE_MAGIC"
    and "tbframe_wire_get_le16 p 36 = TBFRAME_WIRE_VERSION"
    and "tbframe_wire_get_le16 p 38 = info_op i" and "wire_op_ok (info_op i)"
  using assms
  by (simp_all add: tbframe_wire_parse_hello_def Let_def wire_consts(3-6) wire_op_ok_def not_less
      split: if_splits)
     (auto simp: wire_op_ok_def not_less)

section \<open>Properties\<close>

text \<open>C19: For every message type, a message built into any buffer of at least 76 bytes is
  accepted by the parser, which returns exactly the HELLO body, operation and 32-bit sequence
  that were stored, the sequence number reduced to its two wire bits and the route without its
  CM bit; the builder does not touch the buffer beyond the message.\<close>

theorem wire_hello_roundtrip:
  assumes "wire_op_ok op" and "76 \<le> length p"
  shows "\<exists>q. tbframe_wire_build_hello (Some p) (Some h) op sq route xs = Inr q
    \<and> length q = length p \<and> mem_get 76 (length p - 76) q = mem_get 76 (length p - 76) p
    \<and> tbframe_wire_parse_hello (Some q) = Inr (h,
        \<lparr>info_op = op, info_seq = sq, info_xdomain_sequence = xs AND 3,
         info_route = route AND NOT (push_bit 63 1)\<rparr>)"
proof -
  obtain q where q: "tbframe_wire_build_hello (Some p) (Some h) op sq route xs = Inr q"
    using build_hello_ok [OF assms] by blast
  from q parse_build_hello [OF assms q] build_hello_tail [OF assms q] show ?thesis
    by (intro exI [of _ q] conjI)
qed

theorem wire_hello_roundtrip_witness:
  "\<exists>q. tbframe_wire_build_hello (Some (replicate 80 7))
       (Some \<lparr>proto_version = 3, transmit_hopid = 9, rx_ring_entries = 2048, capabilities = 6,
              gid_eui64 = 0x1122334455667788, session_cookie = 0xdeadbeef\<rparr>)
       TBFRAME_WIRE_OP_HELLO 0x01020304 0x300000001 2 = Inr q
     \<and> tbframe_wire_parse_hello (Some q) = Inr
       (\<lparr>proto_version = 3, transmit_hopid = 9, rx_ring_entries = 2048, capabilities = 6,
         gid_eui64 = 0x1122334455667788, session_cookie = 0xdeadbeef\<rparr>,
        \<lparr>info_op = 1, info_seq = 0x01020304, info_xdomain_sequence = 2,
         info_route = 0x300000001\<rparr>)"
  using wire_hello_roundtrip
    [of TBFRAME_WIRE_OP_HELLO "replicate 80 7"
       "\<lparr>proto_version = 3, transmit_hopid = 9, rx_ring_entries = 2048, capabilities = 6,
         gid_eui64 = 0x1122334455667788, session_cookie = 0xdeadbeef\<rparr>"
       "0x01020304" "0x300000001" 2]
  by (auto simp: wire_ops wire_op_ok_def)


definition wire_sample_v2 :: "u8 list" where
  "wire_sample_v2 = replicate 12 0 @ tbframe_wire_uuid @ replicate 4 0
     @ [0x54, 0x42, 0x46, 0x31, 2, 0, 1, 0] @ replicate 36 0"


text \<open>C33: Directional keepalives are encoded faithfully: parsing what was built into a frame of
  at least 32 bytes returns the two cookies and the two sequence numbers that were stored, and
  the builder writes nothing beyond the 32 bytes of the format.\<close>

theorem wire_keepalive_roundtrip:
  assumes "32 \<le> length p"
  shows "tbframe_wire_parse_keepalive (tbframe_wire_build_keepalive k p) = k
    \<and> length (tbframe_wire_build_keepalive k p) = length p
    \<and> mem_get 32 (length p - 32) (tbframe_wire_build_keepalive k p) = mem_get 32 (length p - 32) p"
  using assms
  by (simp add: tbframe_wire_parse_keepalive_def tbframe_wire_build_keepalive_def wire_simps)

theorem wire_keepalive_roundtrip_witness:
  "tbframe_wire_parse_keepalive (tbframe_wire_build_keepalive
     \<lparr>ka_session_cookie = 0xfeedface, ka_sequence = 4, ka_ack_cookie = 0xcafe, ka_ack_sequence = 3\<rparr>
     (replicate 4096 0)) =
   \<lparr>ka_session_cookie = 0xfeedface, ka_sequence = 4, ka_ack_cookie = 0xcafe, ka_ack_sequence = 3\<rparr>"
  using wire_keepalive_roundtrip [of "replicate 4096 0"
      "\<lparr>ka_session_cookie = 0xfeedface, ka_sequence = 4, ka_ack_cookie = 0xcafe, ka_ack_sequence = 3\<rparr>"]
  by simp

end
