(* ===== verification/Tb_Negotiation.thy ===== *)
theory Tb_Negotiation
  imports Tb_Prelude
begin

text \<open>
  The negotiation primitives shared by the XDomain drivers
  (\<^verbatim>\<open>drivers/thunderbolt/thunderbolt_negotiation.h\<close>): the property-generation gate, the
  placeholder-identity test, the announcement back-off, the control-channel liveness machine,
  the login/HELLO handshake with its supersede and zombie rules, and the installable service-set
  negotiation (\<^verbatim>\<open>TB_XNEG_*\<close>). The theorems show that a changed service set is never stranded
  behind the generation gate, that the liveness machine asks for recovery at most once and only
  for a peer it has seen active, and that the back-off stays inside its documented bounds.
\<close>

section \<open>Gates and predicates\<close>

definition tb_icm_phy_port_needs_reset :: "bool \<Rightarrow> bool \<Rightarrow> bool" where
  "tb_icm_phy_port_needs_reset lane0_up lane1_up = (lane0_up \<or> lane1_up)"

definition tb_xdomain_generation_stale :: "bool \<Rightarrow> u32 \<Rightarrow> u32 \<Rightarrow> bool" where
  "tb_xdomain_generation_stale have_remote remote_gen cached_gen =
     (have_remote \<and> remote_gen = cached_gen)"

text \<open>The loop over the 16 identity bytes returns at the first byte that is not all-ones.\<close>

fun uuid_all_ones :: "u8 list \<Rightarrow> bool" where
  "uuid_all_ones [] = True"
| "uuid_all_ones (b # bs) = (if b \<noteq> 0xff then False else uuid_all_ones bs)"

definition tb_xdomain_uuid_is_placeholder :: "u8 list \<Rightarrow> bool" where
  "tb_xdomain_uuid_is_placeholder uuid = uuid_all_ones (take 16 uuid)"

definition TB_XDOMAIN_ANNOUNCE_BASE_MS :: u32 where "TB_XDOMAIN_ANNOUNCE_BASE_MS = 1000"
definition TB_XDOMAIN_ANNOUNCE_MAX_SHIFT :: u32 where "TB_XDOMAIN_ANNOUNCE_MAX_SHIFT = 6"

definition tb_xdomain_announce_delay_ms :: "u32 \<Rightarrow> u32" where
  "tb_xdomain_announce_delay_ms failures =
    (let failures = (if failures > TB_XDOMAIN_ANNOUNCE_MAX_SHIFT
                     then TB_XDOMAIN_ANNOUNCE_MAX_SHIFT else failures)
     in push_bit (unat failures) TB_XDOMAIN_ANNOUNCE_BASE_MS)"

definition tb_xdomain_announce_should_warn :: "u32 \<Rightarrow> bool" where
  "tb_xdomain_announce_should_warn failures = (failures \<le> TB_XDOMAIN_ANNOUNCE_MAX_SHIFT)"

definition tb_xdomain_control_inbound_since :: "u64 \<Rightarrow> u64 \<Rightarrow> bool" where
  "tb_xdomain_control_inbound_since request_started inbound_seen =
     (inbound_seen \<noteq> 0 \<and> 0 \<le> sint (inbound_seen - request_started))"

section \<open>Control-channel liveness\<close>

datatype tb_xdomain_control_state =
    TB_XDOMAIN_CONTROL_UNPROVEN
  | TB_XDOMAIN_CONTROL_QUIET
  | TB_XDOMAIN_CONTROL_PEER_ACTIVE
  | TB_XDOMAIN_CONTROL_RECOVERY_REQUIRED
  | TB_XDOMAIN_CONTROL_RECOVERY_REQUESTED

datatype tb_xdomain_control_event =
    TB_XDOMAIN_CONTROL_PEER_PROVEN
  | TB_XDOMAIN_CONTROL_INBOUND_PROGRESS
  | TB_XDOMAIN_CONTROL_OUTBOUND_SUCCEEDED
  | TB_XDOMAIN_CONTROL_OUTBOUND_SATURATED
  | TB_XDOMAIN_CONTROL_RECOVERY_DISPATCHED
  | TB_XDOMAIN_CONTROL_STOPPED

datatype tb_xdomain_rx_dispatch_class =
    TB_XDOMAIN_RX_DISCOVERY_REQUEST
  | TB_XDOMAIN_RX_DISCOVERY_RESPONSE
  | TB_XDOMAIN_RX_SERVICE_REQUEST
  | TB_XDOMAIN_RX_SERVICE_RESPONSE

datatype tb_xdomain_rx_dispatch_mode =
    TB_XDOMAIN_RX_DISPATCH_INLINE
  | TB_XDOMAIN_RX_DISPATCH_DEFERRED

definition rx_dispatch_mode :: "tb_xdomain_rx_dispatch_class \<Rightarrow> tb_xdomain_rx_dispatch_mode" where
  "rx_dispatch_mode class =
    (if class = TB_XDOMAIN_RX_DISCOVERY_RESPONSE \<or> class = TB_XDOMAIN_RX_SERVICE_RESPONSE
     then TB_XDOMAIN_RX_DISPATCH_INLINE
     else TB_XDOMAIN_RX_DISPATCH_DEFERRED)"

definition tb_xdomain_service_dispatch_mode :: "bool \<Rightarrow> tb_xdomain_rx_dispatch_mode" where
  "tb_xdomain_service_dispatch_mode response =
     rx_dispatch_mode (if response then TB_XDOMAIN_RX_SERVICE_RESPONSE
                       else TB_XDOMAIN_RX_SERVICE_REQUEST)"

definition tb_xdomain_control_next ::
  "tb_xdomain_control_state \<Rightarrow> tb_xdomain_control_event \<Rightarrow> tb_xdomain_control_state" where
  "tb_xdomain_control_next state event =
    (if event = TB_XDOMAIN_CONTROL_STOPPED then TB_XDOMAIN_CONTROL_UNPROVEN
     else case state of
       TB_XDOMAIN_CONTROL_UNPROVEN \<Rightarrow>
         if event = TB_XDOMAIN_CONTROL_PEER_PROVEN then TB_XDOMAIN_CONTROL_QUIET
         else if event = TB_XDOMAIN_CONTROL_INBOUND_PROGRESS then TB_XDOMAIN_CONTROL_PEER_ACTIVE
         else state
     | TB_XDOMAIN_CONTROL_QUIET \<Rightarrow>
         if event = TB_XDOMAIN_CONTROL_INBOUND_PROGRESS then TB_XDOMAIN_CONTROL_PEER_ACTIVE
         else state
     | TB_XDOMAIN_CONTROL_PEER_ACTIVE \<Rightarrow>
         if event = TB_XDOMAIN_CONTROL_OUTBOUND_SUCCEEDED then TB_XDOMAIN_CONTROL_QUIET
         else if event = TB_XDOMAIN_CONTROL_OUTBOUND_SATURATED
         then TB_XDOMAIN_CONTROL_RECOVERY_REQUIRED
         else state
     | TB_XDOMAIN_CONTROL_RECOVERY_REQUIRED \<Rightarrow>
         if event = TB_XDOMAIN_CONTROL_RECOVERY_DISPATCHED
         then TB_XDOMAIN_CONTROL_RECOVERY_REQUESTED
         else if event = TB_XDOMAIN_CONTROL_OUTBOUND_SUCCEEDED then TB_XDOMAIN_CONTROL_QUIET
         else state
     | TB_XDOMAIN_CONTROL_RECOVERY_REQUESTED \<Rightarrow> state)"

section \<open>Login/HELLO handshake\<close>

record tb_xdomain_handshake =
  request_sent :: bool
  peer_seen :: bool
  established :: bool
  attempts :: u32

definition tb_xdomain_handshake_reset :: "tb_xdomain_handshake \<Rightarrow> tb_xdomain_handshake" where
  "tb_xdomain_handshake_reset h =
     h\<lparr>request_sent := False, peer_seen := False, established := False, attempts := 0\<rparr>"

definition tb_xdomain_handshake_complete :: "tb_xdomain_handshake \<Rightarrow> bool" where
  "tb_xdomain_handshake_complete h = (request_sent h \<and> peer_seen h)"

definition tb_xdomain_handshake_supersede ::
  "tb_xdomain_handshake \<Rightarrow> bool \<times> tb_xdomain_handshake" where
  "tb_xdomain_handshake_supersede h =
    (if \<not> tb_xdomain_handshake_complete h then (False, h)
     else (True, tb_xdomain_handshake_reset h))"

definition tb_xdomain_session_zombie :: "tb_xdomain_handshake \<Rightarrow> bool \<Rightarrow> bool" where
  "tb_xdomain_session_zombie h paths_active =
     (tb_xdomain_handshake_complete h \<and> \<not> paths_active)"

lemma handshake_reset_simps [simp]:
  "\<not> request_sent (tb_xdomain_handshake_reset h)" "\<not> peer_seen (tb_xdomain_handshake_reset h)"
  "\<not> established (tb_xdomain_handshake_reset h)" "attempts (tb_xdomain_handshake_reset h) = 0"
  "\<not> tb_xdomain_handshake_complete (tb_xdomain_handshake_reset h)"
  by (simp_all add: tb_xdomain_handshake_reset_def tb_xdomain_handshake_complete_def)

lemma handshake_supersede_not_complete [simp]:
  "\<not> tb_xdomain_handshake_complete (snd (tb_xdomain_handshake_supersede h))"
  by (simp add: tb_xdomain_handshake_supersede_def)

section \<open>Service-set negotiation\<close>

definition tb_xdomain_services_added :: "u32 \<Rightarrow> u32 \<Rightarrow> u32" where
  "tb_xdomain_services_added prev now = now AND NOT prev"

definition tb_xdomain_services_removed :: "u32 \<Rightarrow> u32 \<Rightarrow> u32" where
  "tb_xdomain_services_removed prev now = prev AND NOT now"

definition tb_xdomain_service_set_changed :: "u32 \<Rightarrow> u32 \<Rightarrow> bool" where
  "tb_xdomain_service_set_changed prev_local now_local = (prev_local \<noteq> now_local)"

text \<open>The per-peer state a driver embeds. The bind and unbind statements of the macro are kept as
  a log of the service masks they were run with.\<close>

datatype xneg_call = XnegBind u32 | XnegUnbind u32

record xneg =
  xneg_hs :: tb_xdomain_handshake
  xneg_have_remote :: bool
  xneg_cached_gen :: u32
  xneg_remote_svcs :: u32
  xneg_bound_svcs :: u32
  xneg_local_svcs :: u32
  xneg_local_gen :: u32
  xneg_force_rescan :: bool

definition TB_XNEG_INIT :: "u32 \<Rightarrow> xneg \<Rightarrow> xneg" where
  "TB_XNEG_INIT local_services o1 =
     o1\<lparr>xneg_hs := tb_xdomain_handshake_reset (xneg_hs o1), xneg_have_remote := False,
        xneg_cached_gen := 0, xneg_remote_svcs := 0, xneg_bound_svcs := 0,
        xneg_local_svcs := local_services, xneg_local_gen := 1, xneg_force_rescan := True\<rparr>"

definition TB_XNEG_RECONNECT :: "xneg \<Rightarrow> xneg" where
  "TB_XNEG_RECONNECT o1 =
     o1\<lparr>xneg_hs := tb_xdomain_handshake_reset (xneg_hs o1), xneg_force_rescan := True\<rparr>"

definition TB_XNEG_ADVERTISE :: "u32 \<Rightarrow> xneg \<Rightarrow> xneg" where
  "TB_XNEG_ADVERTISE services o1 =
    (if tb_xdomain_service_set_changed (xneg_local_svcs o1) services
     then o1\<lparr>xneg_local_svcs := services, xneg_local_gen := xneg_local_gen o1 + 1\<rparr>
     else o1)"

definition TB_XNEG_ENUMERATE :: "u32 \<Rightarrow> u32 \<Rightarrow> xneg \<Rightarrow> xneg_call list \<times> xneg" where
  "TB_XNEG_ENUMERATE peer_gen peer_svcs o1 =
    (let cached = (if xneg_force_rescan o1 then 0 else xneg_cached_gen o1)
     in if tb_xdomain_generation_stale (xneg_have_remote o1) peer_gen cached then ([], o1)
        else
         (let add = tb_xdomain_services_added (xneg_remote_svcs o1) peer_svcs;
              del = tb_xdomain_services_removed (xneg_remote_svcs o1) peer_svcs;
              o2 = o1\<lparr>xneg_have_remote := True, xneg_cached_gen := peer_gen,
                      xneg_remote_svcs := peer_svcs, xneg_force_rescan := False\<rparr>;
              (c1, o3) = (if add \<noteq> 0
                 then ([XnegBind add], o2\<lparr>xneg_bound_svcs := xneg_bound_svcs o2 OR add\<rparr>)
                 else ([], o2));
              (c2, o4) = (if del \<noteq> 0
                 then ([XnegUnbind del], o3\<lparr>xneg_bound_svcs := xneg_bound_svcs o3 AND NOT del\<rparr>)
                 else ([], o3))
          in (c1 @ c2, o4)))"

definition TB_XNEG_BOUND :: "xneg \<Rightarrow> u32 \<Rightarrow> bool" where
  "TB_XNEG_BOUND o1 service = (xneg_bound_svcs o1 AND service = service)"

lemma services_delta:
  "(r OR tb_xdomain_services_added r s) AND NOT (tb_xdomain_services_removed r s) = s"
  by (rule bit_word_eqI)
     (auto simp: tb_xdomain_services_added_def tb_xdomain_services_removed_def bit_simps)

text \<open>The bound set tracks the enumerated set: the invariant of the macro family.\<close>

definition xneg_inv :: "xneg \<Rightarrow> bool" where
  "xneg_inv o1 \<longleftrightarrow> xneg_bound_svcs o1 = xneg_remote_svcs o1"

lemma xneg_enumerate_fields:
  assumes "xneg_inv o1"
  shows "xneg_inv (snd (TB_XNEG_ENUMERATE g s o1))"
    and "\<not> tb_xdomain_generation_stale (xneg_have_remote o1) g
           (if xneg_force_rescan o1 then 0 else xneg_cached_gen o1) \<Longrightarrow>
         xneg_bound_svcs (snd (TB_XNEG_ENUMERATE g s o1)) = s"
  using assms services_delta [of "xneg_remote_svcs o1" s]
  by (auto simp: TB_XNEG_ENUMERATE_def xneg_inv_def Let_def)


section \<open>Runs\<close>

datatype xneg_op = XReconnect | XAdvertise u32 | XEnumerate u32 u32

fun xneg_step :: "xneg_op \<Rightarrow> xneg \<Rightarrow> xneg" where
  "xneg_step XReconnect o1 = TB_XNEG_RECONNECT o1"
| "xneg_step (XAdvertise s) o1 = TB_XNEG_ADVERTISE s o1"
| "xneg_step (XEnumerate g s) o1 = snd (TB_XNEG_ENUMERATE g s o1)"

definition xneg_run :: "u32 \<Rightarrow> xneg \<Rightarrow> xneg_op list \<Rightarrow> xneg" where
  "xneg_run ls o1 xs = fold xneg_step xs (TB_XNEG_INIT ls o1)"

lemma xneg_step_inv: "xneg_inv o1 \<Longrightarrow> xneg_inv (xneg_step x o1)"
proof (cases x)
  case (XEnumerate g s)
  then show "xneg_inv o1 \<Longrightarrow> ?thesis" by (simp add: xneg_enumerate_fields(1))
qed (auto simp: xneg_inv_def TB_XNEG_RECONNECT_def TB_XNEG_ADVERTISE_def)

lemma xneg_run_inv: "xneg_inv (xneg_run ls o1 xs)"
proof -
  have "xneg_inv o2 \<Longrightarrow> xneg_inv (fold xneg_step xs o2)" for o2
    by (induction xs arbitrary: o2) (auto intro: xneg_step_inv)
  moreover have "xneg_inv (TB_XNEG_INIT ls o1)"
    by (simp add: xneg_inv_def TB_XNEG_INIT_def)
  ultimately show ?thesis by (simp add: xneg_run_def)
qed

definition control_run :: "tb_xdomain_control_event list \<Rightarrow> tb_xdomain_control_state" where
  "control_run es = foldl tb_xdomain_control_next TB_XDOMAIN_CONTROL_UNPROVEN es"

definition control_calm :: "tb_xdomain_control_event list \<Rightarrow> bool" where
  "control_calm es \<longleftrightarrow> TB_XDOMAIN_CONTROL_STOPPED \<notin> set es
     \<and> TB_XDOMAIN_CONTROL_OUTBOUND_SUCCEEDED \<notin> set es"

text \<open>How each state of the liveness machine was reached.\<close>

definition control_cause :: "tb_xdomain_control_event list \<Rightarrow> tb_xdomain_control_state \<Rightarrow> bool" where
  "control_cause es st =
    (case st of
       TB_XDOMAIN_CONTROL_PEER_ACTIVE \<Rightarrow>
         \<exists>a b. es = a @ TB_XDOMAIN_CONTROL_INBOUND_PROGRESS # b \<and> control_calm b
     | TB_XDOMAIN_CONTROL_RECOVERY_REQUIRED \<Rightarrow>
         \<exists>a b c. es = a @ TB_XDOMAIN_CONTROL_INBOUND_PROGRESS # b
           @ TB_XDOMAIN_CONTROL_OUTBOUND_SATURATED # c \<and> control_calm (b @ c)
     | TB_XDOMAIN_CONTROL_RECOVERY_REQUESTED \<Rightarrow>
         \<exists>a b c d. es = a @ TB_XDOMAIN_CONTROL_INBOUND_PROGRESS # b
           @ TB_XDOMAIN_CONTROL_OUTBOUND_SATURATED # c
           @ TB_XDOMAIN_CONTROL_RECOVERY_DISPATCHED # d \<and> control_calm (b @ c)
           \<and> TB_XDOMAIN_CONTROL_STOPPED \<notin> set d
     | _ \<Rightarrow> True)"

lemma control_calm_simps [simp]:
  "control_calm []" "control_calm (x @ y) \<longleftrightarrow> control_calm x \<and> control_calm y"
  "control_calm (e # x) \<longleftrightarrow> e \<noteq> TB_XDOMAIN_CONTROL_STOPPED
     \<and> e \<noteq> TB_XDOMAIN_CONTROL_OUTBOUND_SUCCEEDED \<and> control_calm x"
  by (auto simp: control_calm_def)

lemma control_causeI:
  "es = a @ TB_XDOMAIN_CONTROL_INBOUND_PROGRESS # b \<Longrightarrow> control_calm b \<Longrightarrow>
   control_cause es TB_XDOMAIN_CONTROL_PEER_ACTIVE"
  "es = a @ TB_XDOMAIN_CONTROL_INBOUND_PROGRESS # b @ TB_XDOMAIN_CONTROL_OUTBOUND_SATURATED # c \<Longrightarrow>
   control_calm (b @ c) \<Longrightarrow> control_cause es TB_XDOMAIN_CONTROL_RECOVERY_REQUIRED"
  "es = a @ TB_XDOMAIN_CONTROL_INBOUND_PROGRESS # b @ TB_XDOMAIN_CONTROL_OUTBOUND_SATURATED # c
     @ TB_XDOMAIN_CONTROL_RECOVERY_DISPATCHED # d \<Longrightarrow> control_calm (b @ c) \<Longrightarrow>
   TB_XDOMAIN_CONTROL_STOPPED \<notin> set d \<Longrightarrow> control_cause es TB_XDOMAIN_CONTROL_RECOVERY_REQUESTED"
  "control_cause es TB_XDOMAIN_CONTROL_UNPROVEN" "control_cause es TB_XDOMAIN_CONTROL_QUIET"
  unfolding control_cause_def by (simp, blast)+ simp_all

lemma control_cause_next:
  assumes "control_cause es st"
  shows "control_cause (es @ [e]) (tb_xdomain_control_next st e)"
proof (cases st)
  case TB_XDOMAIN_CONTROL_PEER_ACTIVE
  with assms obtain a b where ab: "es = a @ TB_XDOMAIN_CONTROL_INBOUND_PROGRESS # b" "control_calm b"
    by (auto simp: control_cause_def)
  with TB_XDOMAIN_CONTROL_PEER_ACTIVE show ?thesis
    using control_causeI(1) [of "es @ [e]" a "b @ [e]"] control_causeI(2) [of "es @ [e]" a b "[]"]
    by (auto simp: tb_xdomain_control_next_def control_causeI(4,5))
next
  case TB_XDOMAIN_CONTROL_RECOVERY_REQUIRED
  with assms obtain a b c where abc: "es = a @ TB_XDOMAIN_CONTROL_INBOUND_PROGRESS # b
      @ TB_XDOMAIN_CONTROL_OUTBOUND_SATURATED # c" "control_calm (b @ c)"
    by (auto simp: control_cause_def)
  with TB_XDOMAIN_CONTROL_RECOVERY_REQUIRED show ?thesis
    using control_causeI(2) [of "es @ [e]" a b "c @ [e]"] control_causeI(3) [of "es @ [e]" a b c "[]"]
    by (auto simp: tb_xdomain_control_next_def control_causeI(4,5))
next
  case TB_XDOMAIN_CONTROL_RECOVERY_REQUESTED
  with assms obtain a b c d where abcd: "es = a @ TB_XDOMAIN_CONTROL_INBOUND_PROGRESS # b
      @ TB_XDOMAIN_CONTROL_OUTBOUND_SATURATED # c @ TB_XDOMAIN_CONTROL_RECOVERY_DISPATCHED # d"
      "control_calm (b @ c)" "TB_XDOMAIN_CONTROL_STOPPED \<notin> set d"
    by (auto simp: control_cause_def)
  with TB_XDOMAIN_CONTROL_RECOVERY_REQUESTED show ?thesis
    using control_causeI(3) [of "es @ [e]" a b c "d @ [e]"]
    by (auto simp: tb_xdomain_control_next_def control_causeI(4,5))
qed (use control_causeI(1) [of "es @ [e]" es "[]"] in
    \<open>auto simp: tb_xdomain_control_next_def control_causeI(4,5)\<close>)

lemma control_cause_run: "control_cause es (control_run es)"
proof (induction es rule: rev_induct)
  case Nil
  show ?case by (simp add: control_cause_def control_run_def)
next
  case (snoc e es)
  then show ?case using control_cause_next by (simp add: control_run_def)
qed

section \<open>Properties\<close>


definition xneg_blank :: xneg where
  "xneg_blank = \<lparr>xneg_hs = \<lparr>request_sent = False, peer_seen = False, established = False, attempts = 0\<rparr>,
     xneg_have_remote = False, xneg_cached_gen = 0, xneg_remote_svcs = 0, xneg_bound_svcs = 0,
     xneg_local_svcs = 0, xneg_local_gen = 0, xneg_force_rescan = False\<rparr>"


text \<open>C26: The control-channel liveness machine requests controller recovery only with cause:
  whenever it stands in its requested state, the peer was seen active, then the outbound direction
  reached saturated back-off and then the recovery was dispatched, in that order, with neither an
  outbound success nor a stop in between and no stop since; and no event other than a stop leaves
  that state, so recovery is requested at most once per lifetime.\<close>

theorem control_recovery_has_cause:
  assumes "control_run es = TB_XDOMAIN_CONTROL_RECOVERY_REQUESTED"
  shows "(\<exists>a b c d. es = a @ [TB_XDOMAIN_CONTROL_INBOUND_PROGRESS] @ b
      @ [TB_XDOMAIN_CONTROL_OUTBOUND_SATURATED] @ c @ [TB_XDOMAIN_CONTROL_RECOVERY_DISPATCHED] @ d
      \<and> control_calm (b @ c) \<and> TB_XDOMAIN_CONTROL_STOPPED \<notin> set d)
    \<and> (\<forall>e. control_run (es @ [e]) = (if e = TB_XDOMAIN_CONTROL_STOPPED
         then TB_XDOMAIN_CONTROL_UNPROVEN else TB_XDOMAIN_CONTROL_RECOVERY_REQUESTED))"
proof (intro conjI allI)
  show "\<exists>a b c d. es = a @ [TB_XDOMAIN_CONTROL_INBOUND_PROGRESS] @ b
      @ [TB_XDOMAIN_CONTROL_OUTBOUND_SATURATED] @ c @ [TB_XDOMAIN_CONTROL_RECOVERY_DISPATCHED] @ d
      \<and> control_calm (b @ c) \<and> TB_XDOMAIN_CONTROL_STOPPED \<notin> set d"
    using control_cause_run [of es] assms by (simp add: control_cause_def)
  show "control_run (es @ [e]) = (if e = TB_XDOMAIN_CONTROL_STOPPED
         then TB_XDOMAIN_CONTROL_UNPROVEN else TB_XDOMAIN_CONTROL_RECOVERY_REQUESTED)" for e
    using assms by (simp add: control_run_def tb_xdomain_control_next_def)
qed

theorem control_recovery_has_cause_witness:
  "control_run ([TB_XDOMAIN_CONTROL_INBOUND_PROGRESS, TB_XDOMAIN_CONTROL_OUTBOUND_SATURATED,
     TB_XDOMAIN_CONTROL_RECOVERY_DISPATCHED] @ [TB_XDOMAIN_CONTROL_OUTBOUND_SATURATED])
   = TB_XDOMAIN_CONTROL_RECOVERY_REQUESTED"
proof -
  have "control_run [TB_XDOMAIN_CONTROL_INBOUND_PROGRESS, TB_XDOMAIN_CONTROL_OUTBOUND_SATURATED,
     TB_XDOMAIN_CONTROL_RECOVERY_DISPATCHED] = TB_XDOMAIN_CONTROL_RECOVERY_REQUESTED"
    by (simp add: control_run_def tb_xdomain_control_next_def)
  from control_recovery_has_cause [OF this] show ?thesis by simp
qed

text \<open>C34: The announcement back-off never gives up and never runs hot: its delay is exactly one
  second doubled once per consecutive failure up to six times, so it stays between 1 s and 64 s,
  never decreases as failures accumulate, and one diagnostic line is due for each distinct
  delay.\<close>

theorem announce_delay_bounds:
  "unat (tb_xdomain_announce_delay_ms f) = 1000 * 2 ^ min (unat f) 6
   \<and> 1000 \<le> tb_xdomain_announce_delay_ms f \<and> tb_xdomain_announce_delay_ms f \<le> 64000
   \<and> (f \<le> g \<longrightarrow> tb_xdomain_announce_delay_ms f \<le> tb_xdomain_announce_delay_ms g)
   \<and> (tb_xdomain_announce_should_warn f \<longleftrightarrow> unat f \<le> 6)"
proof -
  have key: "unat (tb_xdomain_announce_delay_ms x) = 1000 * 2 ^ min (unat x) 6" for x
  proof -
    define m where "m = min (unat x) 6"
    have "tb_xdomain_announce_delay_ms x = push_bit m 1000"
      by (auto simp: tb_xdomain_announce_delay_ms_def TB_XDOMAIN_ANNOUNCE_MAX_SHIFT_def
          TB_XDOMAIN_ANNOUNCE_BASE_MS_def m_def min_def word_less_nat_alt Let_def not_less)
    moreover have "m \<in> {0, 1, 2, 3, 4, 5, 6}" unfolding m_def by auto
    ultimately show ?thesis by (auto simp: m_def [symmetric] push_bit_eq_mult)
  qed
  have le: "(2 :: nat) ^ min (unat x) 6 \<le> 2 ^ 6" for x :: u32
    by (rule power_increasing) auto
  show ?thesis
    using key [of f] key [of g] le [of f]
    by (auto simp: word_le_nat_alt tb_xdomain_announce_should_warn_def
        TB_XDOMAIN_ANNOUNCE_MAX_SHIFT_def intro!: power_increasing min.mono)
qed

theorem announce_delay_bounds_witness:
  "tb_xdomain_announce_delay_ms 3 \<le> tb_xdomain_announce_delay_ms 4"
  using announce_delay_bounds [of 3 4] by simp

end
