(* ===== verification/Tbframe_Link.thy ===== *)
theory Tbframe_Link
  imports Tbframe_Wire Tb_Negotiation
begin

text \<open>
  The state of the frame service (\<^verbatim>\<open>frame/tbframe.h\<close>, \<^verbatim>\<open>frame/tbframe_priv.h\<close>) and the
  leaf helpers of \<^verbatim>\<open>frame/core.c\<close>.

  \<^item> \<open>tbframe\<close> is the module instance: its configuration and the client slot.
  \<^item> \<open>tbframe_link\<close> is one peer's link, field by field the C structure; locks, list heads and
    wait queues have no field, a delayed work item is its pending delay, a timer its armed
    interval.
  \<^item> \<open>tbframe_hw_ops\<close> is the hardware interface: one function per entry of the C table over an
    arbitrary hardware state \<open>'h\<close>, an entry the code tests for NULL being optional. Nothing is
    assumed of the hardware.
  \<^item> \<open>world\<close> is what one link's code runs in: the link, the hardware, the random source, the
    clock, the trace of every hardware call and client upcall, and the schedule of what other
    contexts do while the session machine is outside its critical sections.
\<close>

section \<open>Constants\<close>

definition TBFRAME_MAX_FRAME :: u16 where "TBFRAME_MAX_FRAME = 4096"
definition TBFRAME_PDF_DATA :: u8 where "TBFRAME_PDF_DATA = 4"
definition TBFRAME_PDF_KEEPALIVE :: u8 where "TBFRAME_PDF_KEEPALIVE = 5"
definition TBFRAME_PDF_SOF :: u8 where "TBFRAME_PDF_SOF = 6"
definition TBFRAME_CTRL_RESERVE :: u16 where "TBFRAME_CTRL_RESERVE = 64"

definition TBFRAME_HELLO_TIMEOUT_MS :: nat where "TBFRAME_HELLO_TIMEOUT_MS = 1000"
definition TBFRAME_RETRY_DELAY_MS :: u32 where "TBFRAME_RETRY_DELAY_MS = 200"
definition TBFRAME_HELLO_RETRIES :: u32 where "TBFRAME_HELLO_RETRIES = 5"
definition TBFRAME_READY_RETRIES :: u32 where "TBFRAME_READY_RETRIES = 10"
definition TBFRAME_KEEPALIVE_LEN :: u16 where "TBFRAME_KEEPALIVE_LEN = TBFRAME_WIRE_KEEPALIVE_SIZE"
definition TBFRAME_BYE_TIMEOUT_MS :: nat where "TBFRAME_BYE_TIMEOUT_MS = 1000"
definition TBFRAME_BYE_RETRIES :: nat where "TBFRAME_BYE_RETRIES = 4"
definition TBFRAME_BYE_SETTLE_MS :: u32 where "TBFRAME_BYE_SETTLE_MS = 5000"
definition TBFRAME_REANNOUNCE_MIN_MS :: u64 where "TBFRAME_REANNOUNCE_MIN_MS = 10000"
definition TBFRAME_PROBE_INTERVAL_MS :: u32 where "TBFRAME_PROBE_INTERVAL_MS = 500"
definition TBFRAME_PROBE_RETRIES :: u32 where "TBFRAME_PROBE_RETRIES = 30"
definition TBFRAME_STALE_DRAIN_RETRIES :: u32 where
  "TBFRAME_STALE_DRAIN_RETRIES = TBFRAME_PROBE_RETRIES"
definition TBFRAME_DATA_SILENCE_TICKS :: u32 where "TBFRAME_DATA_SILENCE_TICKS = 3"
definition TBFRAME_PROBE_BACKOFF_MAX_MS :: u32 where "TBFRAME_PROBE_BACKOFF_MAX_MS = 30000"
definition TBFRAME_TEARDOWN_FORCE_MAX_MS :: u32 where "TBFRAME_TEARDOWN_FORCE_MAX_MS = 10000"
definition TBFRAME_SHUTDOWN_DRAIN_MS :: u32 where "TBFRAME_SHUTDOWN_DRAIN_MS = 200"
definition TBFRAME_SHUTDOWN_FORCE_MS :: u32 where "TBFRAME_SHUTDOWN_FORCE_MS = 500"

section \<open>The module instance\<close>

text \<open>Which upcalls a registered client provides.\<close>

record tbframe_client_ops =
  has_rx :: bool
  has_rx_bad :: bool
  has_tx_released :: bool
  has_link_up :: bool
  has_link_down :: bool

record tbframe =
  client_ops :: "tbframe_client_ops option"
  ring_entries :: u16
  e2e :: bool
  keepalive :: bool
  verify_ms :: u32
  xmit_drain_ms :: u32
  teardown_warn_ms :: u32
  teardown_force_ms :: u32
  shutdown_mode :: bool
  data_proof :: bool
  tx_ring_budget :: u16

section \<open>The link\<close>

datatype tbframe_link_state = TBFRAME_STATE_INIT | TBFRAME_STATE_UP | TBFRAME_STATE_DEAD

datatype tbframe_down_reason =
    TBFRAME_DOWN_UNPLUG | TBFRAME_DOWN_LOGOUT | TBFRAME_DOWN_SUPERSEDE
  | TBFRAME_DOWN_VERIFY | TBFRAME_DOWN_CLOSED | TBFRAME_DOWN_DEAD_HW

datatype tbframe_ready_responder_state =
    TBFRAME_READY_RESPONDER_WAITING
  | TBFRAME_READY_RESPONDER_PENDING_PATHS
  | TBFRAME_READY_RESPONDER_PENDING_SEND
  | TBFRAME_READY_RESPONDER_ACKED

record tbframe_ready_responder =
  rr_state :: tbframe_ready_responder_state
  rr_seq :: u32
  rr_xdomain_sequence :: u8
  rr_peer :: tbframe_wire_hello

record tbframe_hello_responder =
  hr_seen :: bool
  hr_peer :: tbframe_wire_hello

record tbframe_frame_priv =
  fdata :: "u8 list"
  flen :: u16
  fpdf :: u8
  is_ctrl :: bool
  is_rx :: bool
  charged_ctrl :: bool
  charged_data :: bool
  hw_posted :: bool
  rx_generation :: u64
  rx_refs :: nat

record tbframe_link_info =
  li_gid_eui64 :: u64
  li_local_gid_eui64 :: u64
  li_route :: u64
  li_rx_ring_entries :: u16
  li_data_window :: u16
  li_max_payload :: u16
  li_e2e :: bool
  li_width :: u8
  li_speed :: u8
  li_remote_uuid :: "u8 list"
  li_remote_name :: string

text \<open>The C structure in four groups, each extending the one before: session, data-path proof,
  admission and frame pools, identity and deferred work.\<close>

record tbframe_link_session =
  lstate :: tbframe_link_state
  removing :: bool
  parked :: bool
  hello_done :: bool
  rings_allocated :: bool
  rings_up :: bool
  paths_enabled :: bool
  paths_owned :: bool
  terminal_handoff :: bool
  in_hopid_held :: bool
  tx_quiesced :: bool
  active_remote_hopid :: u16
  hs :: tb_xdomain_handshake
  hello_responder :: tbframe_hello_responder
  ready_responder :: tbframe_ready_responder
  hello_selection_pending :: bool
  hello_selection_caps :: u32
  request_seq :: u32
  hello_attempts :: u32
  last_reannounce :: u64
  needs_down :: bool
  down_reason :: tbframe_down_reason
  announce_pending :: bool
  up_delivered :: bool

record tbframe_link_proof = tbframe_link_session +
  data_rx :: u64
  data_rx_tick_mark :: u64
  data_rx_proven :: bool
  data_tx_proven :: bool
  keepalive_tx_seq :: u64
  keepalive_tx_acked :: u64
  keepalive_tx_ack_mark :: u64
  keepalive_peer_seq :: u64
  data_rx_bad :: u64
  data_rx_oversize :: u64
  data_rx_stale :: u64
  data_rx_bad_cookie :: u64
  data_rx_prior_cookie :: u64
  data_tx_done :: u64
  data_tx_submitted :: u64
  data_tx_refused :: u64
  data_tx_ring_err :: u64
  data_tx_canceled :: u64
  data_proven :: bool
  data_proof_unavailable_warned :: bool
  data_generation :: u64
  probe_attempts :: u32
  probe_failures :: u32
  stale_drain_active :: bool
  stale_drain_budget :: u32
  silent_ticks :: u32
  tx_silent_ticks :: u32
  data_path_sample_valid :: bool

record tbframe_link_pools = tbframe_link_proof +
  data_window :: u16
  data_inflight :: u16
  ctrl_inflight :: u16
  tx_blocked :: bool
  e2e_active :: bool
  hw_active :: nat
  tx_frames :: "nat \<Rightarrow> tbframe_frame_priv"
  rx_frames :: "nat \<Rightarrow> tbframe_frame_priv"
  tx_frame_count :: u16
  rx_frame_count :: u16
  tx_free :: "nat list"
  rx_free :: "nat list"
  txq_ctrl :: "nat list"
  txq_data :: "nat list"
  ring_posted :: u16
  refcnt :: nat

record tbframe_link = tbframe_link_pools +
  link_id :: nat
  lroute :: u64
  local_hopid :: nat
  local_cookie :: u64
  local_gid_eui64 :: u64
  remote_hopid :: u16
  remote_rx_entries :: u16
  remote_caps :: u32
  remote_cookie :: u64
  previous_remote_cookie :: u64
  remote_gid_eui64 :: u64
  session_work :: "u32 option"
  verify_timer :: "u32 option"
  verify_work :: bool
  tx_released_work :: bool


section \<open>The hardware interface\<close>

text \<open>A return code of \<open>0\<close> is \<open>Inr ()\<close>; \<open>paths_active\<close> answers programmed, gone or unknown.\<close>

type_synonym rc = "errno + unit"

record 'h tbframe_hw_ops =
  op_alloc_out_hopid :: "'h \<Rightarrow> (errno + nat) \<times> 'h"
  op_release_out_hopid :: "nat \<Rightarrow> 'h \<Rightarrow> 'h"
  op_alloc_in_hopid :: "u16 \<Rightarrow> 'h \<Rightarrow> rc \<times> 'h"
  op_release_in_hopid :: "u16 \<Rightarrow> 'h \<Rightarrow> 'h"
  op_alloc_rings :: "u16 \<Rightarrow> u16 \<Rightarrow> bool \<Rightarrow> 'h \<Rightarrow> rc \<times> 'h"
  op_start_rings :: "'h \<Rightarrow> 'h"
  op_quiesce_tx :: "('h \<Rightarrow> 'h) option"
  op_stop_rings :: "'h \<Rightarrow> 'h"
  op_free_rings :: "'h \<Rightarrow> 'h"
  op_map_frame :: "(nat \<Rightarrow> bool \<Rightarrow> 'h \<Rightarrow> rc \<times> 'h) option"
  op_unmap_frame :: "(nat \<Rightarrow> bool \<Rightarrow> 'h \<Rightarrow> 'h) option"
  op_post_rx :: "nat \<Rightarrow> 'h \<Rightarrow> rc \<times> 'h"
  op_ring_tx :: "nat \<Rightarrow> tbframe_frame_priv \<Rightarrow> 'h \<Rightarrow> rc \<times> 'h"
  op_enable_paths :: "nat \<Rightarrow> u16 \<Rightarrow> 'h \<Rightarrow> rc \<times> 'h"
  op_disable_paths :: "nat \<Rightarrow> u16 \<Rightarrow> 'h \<Rightarrow> rc \<times> 'h"
  op_paths_active :: "nat \<Rightarrow> u16 \<Rightarrow> 'h \<Rightarrow> (errno + bool) \<times> 'h"
  op_quarantine_paths :: "(nat \<Rightarrow> u16 \<Rightarrow> 'h \<Rightarrow> rc \<times> 'h) option"
  op_control_request :: "u8 list \<Rightarrow> nat \<Rightarrow> 'h \<Rightarrow> (errno + u8 list) \<times> 'h"
  op_control_response :: "u8 list \<Rightarrow> 'h \<Rightarrow> rc \<times> 'h"
  op_reannounce :: "('h \<Rightarrow> bool \<times> 'h) option"
  op_link_attrs :: "('h \<Rightarrow> u8 \<times> u8) option"
  op_peer_identity :: "('h \<Rightarrow> u8 list \<times> string) option"
  op_match :: "('h \<Rightarrow> nat \<Rightarrow> bool) option"

text \<open>Every call into the hardware and every upcall into the client, in order.\<close>

datatype obs =
    OAllocOutHopid "errno + nat" | OReleaseOutHopid nat
  | OMapFrame nat bool rc | OUnmapFrame nat bool
  | OAllocRings rc | OAllocInHopid u16 rc | OStartRings | OPostRx nat rc
  | OEnablePaths nat u16 rc | ODisablePaths nat u16 rc | OQuiesceTx | OStopRings | OFreeRings
  | OReleaseInHopid u16 | OQuarantinePaths nat u16 rc | OPathsActive nat u16 "errno + bool"
  | ORingTx nat rc | ORequest "u8 list" "errno + u8 list" | OResponse "u8 list" rc | OReannounce
  | OLinkUp tbframe_link_info | OLinkDown tbframe_down_reason
  | ORx nat | ORxBad nat | OTxReleased

text \<open>A frame handed through the client API: the link it came from, its pool and its index.\<close>

record tbframe_frame =
  fr_link :: nat
  fr_rx :: bool
  fr_idx :: nat

text \<open>What other contexts can do to a link between two critical sections of its session machine:
  the control channel delivers a packet, the rings complete a frame, the client calls in, the
  verify timer fires or its work runs, unregistration parks the link or removal marks it, a
  publisher enters or leaves its window, time passes. \<open>EvRxComplete\<close> carries
  what the hardware reports and how many references the client takes in its upcall.\<close>

datatype event =
    EvPacket "u8 list"
  | EvTxComplete nat bool
  | EvRxComplete nat bool u16 u8 bool "u8 list" nat
  | EvAllocFrame u16 bool
  | EvXmit tbframe_frame
  | EvFrameFree tbframe_frame
  | EvFramePutRx tbframe_frame
  | EvVerifyTimer
  | EvVerify
  | EvTxReleased
  | EvPark
  | EvRemoving
  | EvPublisher bool
  | EvTime u64

record 'h world =
  lnk :: tbframe_link
  hw :: 'h
  trace :: "obs list"
  sched :: "event list list"
  rng :: "u64 list"
  jiffies_ms :: u64

definition upd :: "(tbframe_link \<Rightarrow> tbframe_link) \<Rightarrow> 'h world \<Rightarrow> 'h world" where
  "upd f w = w\<lparr>lnk := f (lnk w)\<rparr>"

definition obs :: "obs \<Rightarrow> 'h world \<Rightarrow> 'h world" where
  "obs x w = w\<lparr>trace := trace w @ [x]\<rparr>"

lemma upd_sel [simp]:
  "lnk (upd f w) = f (lnk w)" "hw (upd f w) = hw w" "trace (upd f w) = trace w"
  "sched (upd f w) = sched w" "rng (upd f w) = rng w" "jiffies_ms (upd f w) = jiffies_ms w"
  by (simp_all add: upd_def)

lemma obs_sel [simp]:
  "lnk (obs x w) = lnk w" "hw (obs x w) = hw w" "trace (obs x w) = trace w @ [x]"
  "sched (obs x w) = sched w" "rng (obs x w) = rng w" "jiffies_ms (obs x w) = jiffies_ms w"
  by (simp_all add: obs_def)

text \<open>A hardware call with a result: run the entry on the hardware state and record it.\<close>

definition hw_call :: "('h \<Rightarrow> 'r \<times> 'h) \<Rightarrow> ('r \<Rightarrow> obs) \<Rightarrow> 'h world \<Rightarrow> 'r \<times> 'h world" where
  "hw_call f ob w = (let (r, h) = f (hw w) in (r, obs (ob r) (w\<lparr>hw := h\<rparr>)))"

definition hw_do :: "('h \<Rightarrow> 'h) \<Rightarrow> obs \<Rightarrow> 'h world \<Rightarrow> 'h world" where
  "hw_do f ob w = obs ob (w\<lparr>hw := f (hw w)\<rparr>)"

lemma hw_call_sel:
  "hw_call f ob w = (r, w') \<Longrightarrow> lnk w' = lnk w"
  "hw_call f ob w = (r, w') \<Longrightarrow> trace w' = trace w @ [ob r]"
  "hw_call f ob w = (r, w') \<Longrightarrow> sched w' = sched w"
  by (auto simp: hw_call_def split: prod.splits)

lemma hw_call_snd [simp]:
  "lnk (snd (hw_call f ob w)) = lnk w" "sched (snd (hw_call f ob w)) = sched w"
  "trace (snd (hw_call f ob w)) = trace w @ [ob (fst (hw_call f ob w))]"
  by (auto simp: hw_call_def split: prod.splits)

lemma hw_do_sel [simp]:
  "lnk (hw_do f ob w) = lnk w" "trace (hw_do f ob w) = trace w @ [ob]"
  "sched (hw_do f ob w) = sched w"
  by (simp_all add: hw_do_def)

section \<open>Leaf helpers of core.c\<close>

definition get_random_u64 :: "'h world \<Rightarrow> u64 \<times> 'h world" where
  "get_random_u64 w = (case rng w of [] \<Rightarrow> (0, w) | r # rs \<Rightarrow> (r, w\<lparr>rng := rs\<rparr>))"

text \<open>The cookie for a new session, from a random number and the previous cookie.\<close>

definition tbframe_new_session_cookie :: "u64 \<Rightarrow> u64 \<Rightarrow> u64" where
  "tbframe_new_session_cookie random previous =
    (let cookie = random;
         cookie = (if cookie = 0 \<or> cookie = previous
                   then previous XOR 0x9e3779b97f4a7c15 else cookie)
     in if cookie = 0 then 1 else cookie)"

definition tbframe_link_next_request_seq :: "tbframe_link \<Rightarrow> u32 \<times> tbframe_link" where
  "tbframe_link_next_request_seq l =
    (let l = l\<lparr>request_seq := request_seq l + 1\<rparr> in (request_seq l, l))"

definition tbframe_link_put :: "tbframe_link \<Rightarrow> tbframe_link" where
  "tbframe_link_put l = l\<lparr>refcnt := refcnt l - 1\<rparr>"

text \<open>Queue the session work: refused by any of the three gates; without a delay the pending work
  is pulled forward, otherwise a pending work item keeps its deadline.\<close>

definition tbframe_link_kick_locked :: "u32 \<Rightarrow> tbframe_link \<Rightarrow> tbframe_link" where
  "tbframe_link_kick_locked delay l =
    (if removing l \<or> parked l \<or> lstate l = TBFRAME_STATE_DEAD then l
     else if delay = 0 then l\<lparr>session_work := Some 0\<rparr>
     else case session_work l of
            None \<Rightarrow> l\<lparr>session_work := Some delay\<rparr>
          | Some _ \<Rightarrow> l)"

definition tbframe_link_window :: "tbframe \<Rightarrow> tbframe_link \<Rightarrow> u16" where
  "tbframe_link_window tf l =
    (let cap = (ucast (min (ring_entries tf) (remote_rx_entries l)) :: u32)
     in if cap \<le> ucast TBFRAME_CTRL_RESERVE + 1 then 1
        else ucast (cap - ucast TBFRAME_CTRL_RESERVE))"

definition tbframe_link_fill_info_locked :: "tbframe_link \<Rightarrow> tbframe_link_info" where
  "tbframe_link_fill_info_locked l =
     \<lparr>li_gid_eui64 = remote_gid_eui64 l, li_local_gid_eui64 = local_gid_eui64 l,
      li_route = lroute l, li_rx_ring_entries = remote_rx_entries l,
      li_data_window = data_window l, li_max_payload = TBFRAME_MAX_FRAME,
      li_e2e = e2e_active l, li_width = 0, li_speed = 0,
      li_remote_uuid = replicate 16 0, li_remote_name = []\<rparr>"

definition clamp_u16 :: "u16 \<Rightarrow> u16 \<Rightarrow> u16 \<Rightarrow> u16" where
  "clamp_u16 v lo hi = min (max v lo) hi"

definition tbframe_link_apply_remote_locked ::
  "tbframe_wire_hello \<Rightarrow> tbframe_link \<Rightarrow> tbframe_link" where
  "tbframe_link_apply_remote_locked h l =
    (let l = (if remote_cookie l \<noteq> 0 \<and> remote_cookie l \<noteq> session_cookie h
              then l\<lparr>previous_remote_cookie := remote_cookie l\<rparr> else l)
     in l\<lparr>remote_hopid := transmit_hopid h,
          remote_rx_entries := clamp_u16 (rx_ring_entries h) 1 4096,
          remote_caps := capabilities h,
          remote_gid_eui64 := gid_eui64 h,
          remote_cookie := session_cookie h\<rparr>)"

definition tbframe_link_remote_matches_locked ::
  "tbframe_link \<Rightarrow> tbframe_wire_hello \<Rightarrow> bool" where
  "tbframe_link_remote_matches_locked l h =
    (hello_done l \<and>
     proto_version h = TBFRAME_WIRE_VERSION \<and>
     transmit_hopid h = remote_hopid l \<and>
     clamp_u16 (rx_ring_entries h) 1 4096 = remote_rx_entries l \<and>
     capabilities h = remote_caps l \<and>
     gid_eui64 h = remote_gid_eui64 l \<and>
     session_cookie h = remote_cookie l)"

definition tbframe_hello_matches :: "tbframe_wire_hello \<Rightarrow> tbframe_wire_hello \<Rightarrow> bool" where
  "tbframe_hello_matches a b =
    (proto_version a = proto_version b \<and>
     transmit_hopid a = transmit_hopid b \<and>
     clamp_u16 (rx_ring_entries a) 1 4096 = clamp_u16 (rx_ring_entries b) 1 4096 \<and>
     capabilities a = capabilities b \<and>
     gid_eui64 a = gid_eui64 b \<and>
     session_cookie a = session_cookie b)"

definition tbframe_link_supported_caps :: "tbframe \<Rightarrow> u32" where
  "tbframe_link_supported_caps tf =
    (let c = (0 :: u32);
         c = (if e2e tf then c OR TBFRAME_WIRE_CAP_E2E else c)
     in if keepalive tf
        then c OR (TBFRAME_WIRE_CAP_KEEPALIVE OR TBFRAME_WIRE_CAP_KEEPALIVE_ACK) else c)"

definition tbframe_link_fill_local_hello ::
  "tbframe \<Rightarrow> tbframe_link \<Rightarrow> u32 \<Rightarrow> tbframe_wire_hello" where
  "tbframe_link_fill_local_hello tf l peer_caps =
     \<lparr>proto_version = TBFRAME_WIRE_VERSION,
      transmit_hopid = of_nat (local_hopid l),
      rx_ring_entries = ring_entries tf,
      capabilities = tbframe_link_supported_caps tf AND peer_caps,
      gid_eui64 = local_gid_eui64 l,
      session_cookie = local_cookie l\<rparr>"

definition tbframe_link_hello_offer_mask :: "tbframe_link \<Rightarrow> u32" where
  "tbframe_link_hello_offer_mask l =
    (if hello_selection_pending l then hello_selection_caps l
     else if hr_seen (hello_responder l) then capabilities (hr_peer (hello_responder l))
     else 0xffffffff)"

definition tbframe_link_selected_peer_caps :: "tbframe_link \<Rightarrow> u32" where
  "tbframe_link_selected_peer_caps l = remote_caps l"

definition hello_zero :: tbframe_wire_hello where
  "hello_zero = \<lparr>proto_version = 0, transmit_hopid = 0, rx_ring_entries = 0, capabilities = 0,
     gid_eui64 = 0, session_cookie = 0\<rparr>"

definition tbframe_ready_responder_reset :: "tbframe_link \<Rightarrow> tbframe_link" where
  "tbframe_ready_responder_reset l =
     l\<lparr>ready_responder := \<lparr>rr_state = TBFRAME_READY_RESPONDER_WAITING, rr_seq = 0,
        rr_xdomain_sequence = 0, rr_peer = hello_zero\<rparr>\<rparr>"

definition tbframe_hello_responder_reset :: "tbframe_link \<Rightarrow> tbframe_link" where
  "tbframe_hello_responder_reset l =
     l\<lparr>hello_responder := \<lparr>hr_seen = False, hr_peer = hello_zero\<rparr>\<rparr>"

text \<open>\<open>time_before (a, b)\<close> of the kernel: the signed difference is negative.\<close>

definition time_before :: "u64 \<Rightarrow> u64 \<Rightarrow> bool" where
  "time_before a b = (sint (a - b) < 0)"

definition tbframe_link_reannounce :: "'h tbframe_hw_ops \<Rightarrow> 'h world \<Rightarrow> 'h world" where
  "tbframe_link_reannounce ops w =
    (let last = last_reannounce (lnk w)
     in if last \<noteq> 0 \<and> time_before (jiffies_ms w) (last + TBFRAME_REANNOUNCE_MIN_MS) then w
        else
         (let w = upd (\<lambda>l. l\<lparr>last_reannounce := jiffies_ms w\<rparr>) w
          in case op_reannounce ops of
               None \<Rightarrow> w
             | Some f \<Rightarrow> snd (hw_call f (\<lambda>_. OReannounce) w)))"

section \<open>The part of a link other contexts leave alone\<close>

text \<open>No packet handler, completion, client call or verify tick writes these fields (the lemmas of
  the component theories show it operation by operation). All but \<open>removing\<close> and \<open>parked\<close>, which
  unregistration and removal set, are the session machine's own: what it knows about them survives
  its unlocked windows.\<close>

definition session_view :: "tbframe_link \<Rightarrow> _" where
  "session_view l =
    ((lstate l, removing l, parked l, hello_done l,
      rings_allocated l, rings_up l, paths_enabled l, paths_owned l,
      terminal_handoff l, in_hopid_held l, active_remote_hopid l),
     (hello_selection_pending l, hello_selection_caps l, request_seq l, last_reannounce l,
      announce_pending l, up_delivered l, data_generation l, data_window l,
      e2e_active l, tx_frame_count l, rx_frame_count l),
     (link_id l, lroute l, local_hopid l, local_cookie l,
      local_gid_eui64 l, remote_hopid l, remote_rx_entries l, remote_caps l,
      remote_cookie l, previous_remote_cookie l, remote_gid_eui64 l))"

lemma session_view_upd [simp]:
  "session_view (l\<lparr>tx_quiesced := v_tx_quiesced\<rparr>) = session_view l"
  "session_view (l\<lparr>hs := v_hs\<rparr>) = session_view l"
  "session_view (l\<lparr>hello_responder := v_hello_responder\<rparr>) = session_view l"
  "session_view (l\<lparr>ready_responder := v_ready_responder\<rparr>) = session_view l"
  "session_view (l\<lparr>hello_attempts := v_hello_attempts\<rparr>) = session_view l"
  "session_view (l\<lparr>needs_down := v_needs_down\<rparr>) = session_view l"
  "session_view (l\<lparr>down_reason := v_down_reason\<rparr>) = session_view l"
  "session_view (l\<lparr>data_rx := v_data_rx\<rparr>) = session_view l"
  "session_view (l\<lparr>data_rx_tick_mark := v_data_rx_tick_mark\<rparr>) = session_view l"
  "session_view (l\<lparr>data_rx_proven := v_data_rx_proven\<rparr>) = session_view l"
  "session_view (l\<lparr>data_tx_proven := v_data_tx_proven\<rparr>) = session_view l"
  "session_view (l\<lparr>keepalive_tx_seq := v_keepalive_tx_seq\<rparr>) = session_view l"
  "session_view (l\<lparr>keepalive_tx_acked := v_keepalive_tx_acked\<rparr>) = session_view l"
  "session_view (l\<lparr>keepalive_tx_ack_mark := v_keepalive_tx_ack_mark\<rparr>) = session_view l"
  "session_view (l\<lparr>keepalive_peer_seq := v_keepalive_peer_seq\<rparr>) = session_view l"
  "session_view (l\<lparr>data_rx_bad := v_data_rx_bad\<rparr>) = session_view l"
  "session_view (l\<lparr>data_rx_oversize := v_data_rx_oversize\<rparr>) = session_view l"
  "session_view (l\<lparr>data_rx_stale := v_data_rx_stale\<rparr>) = session_view l"
  "session_view (l\<lparr>data_rx_bad_cookie := v_data_rx_bad_cookie\<rparr>) = session_view l"
  "session_view (l\<lparr>data_rx_prior_cookie := v_data_rx_prior_cookie\<rparr>) = session_view l"
  "session_view (l\<lparr>data_tx_done := v_data_tx_done\<rparr>) = session_view l"
  "session_view (l\<lparr>data_tx_submitted := v_data_tx_submitted\<rparr>) = session_view l"
  "session_view (l\<lparr>data_tx_refused := v_data_tx_refused\<rparr>) = session_view l"
  "session_view (l\<lparr>data_tx_ring_err := v_data_tx_ring_err\<rparr>) = session_view l"
  "session_view (l\<lparr>data_tx_canceled := v_data_tx_canceled\<rparr>) = session_view l"
  "session_view (l\<lparr>data_proven := v_data_proven\<rparr>) = session_view l"
  "session_view (l\<lparr>data_proof_unavailable_warned := v_data_proof_unavailable_warned\<rparr>) = session_view l"
  "session_view (l\<lparr>probe_attempts := v_probe_attempts\<rparr>) = session_view l"
  "session_view (l\<lparr>probe_failures := v_probe_failures\<rparr>) = session_view l"
  "session_view (l\<lparr>stale_drain_active := v_stale_drain_active\<rparr>) = session_view l"
  "session_view (l\<lparr>stale_drain_budget := v_stale_drain_budget\<rparr>) = session_view l"
  "session_view (l\<lparr>silent_ticks := v_silent_ticks\<rparr>) = session_view l"
  "session_view (l\<lparr>tx_silent_ticks := v_tx_silent_ticks\<rparr>) = session_view l"
  "session_view (l\<lparr>data_path_sample_valid := v_data_path_sample_valid\<rparr>) = session_view l"
  "session_view (l\<lparr>data_inflight := v_data_inflight\<rparr>) = session_view l"
  "session_view (l\<lparr>ctrl_inflight := v_ctrl_inflight\<rparr>) = session_view l"
  "session_view (l\<lparr>tx_blocked := v_tx_blocked\<rparr>) = session_view l"
  "session_view (l\<lparr>hw_active := v_hw_active\<rparr>) = session_view l"
  "session_view (l\<lparr>tx_frames := v_tx_frames\<rparr>) = session_view l"
  "session_view (l\<lparr>rx_frames := v_rx_frames\<rparr>) = session_view l"
  "session_view (l\<lparr>tx_free := v_tx_free\<rparr>) = session_view l"
  "session_view (l\<lparr>rx_free := v_rx_free\<rparr>) = session_view l"
  "session_view (l\<lparr>txq_ctrl := v_txq_ctrl\<rparr>) = session_view l"
  "session_view (l\<lparr>txq_data := v_txq_data\<rparr>) = session_view l"
  "session_view (l\<lparr>ring_posted := v_ring_posted\<rparr>) = session_view l"
  "session_view (l\<lparr>refcnt := v_refcnt\<rparr>) = session_view l"
  "session_view (l\<lparr>session_work := v_session_work\<rparr>) = session_view l"
  "session_view (l\<lparr>verify_timer := v_verify_timer\<rparr>) = session_view l"
  "session_view (l\<lparr>verify_work := v_verify_work\<rparr>) = session_view l"
  "session_view (l\<lparr>tx_released_work := v_tx_released_work\<rparr>) = session_view l"
  by (simp_all add: session_view_def)

lemma session_viewD:
  assumes "session_view l' = session_view l"
  shows "lstate l' = lstate l" "removing l' = removing l" "parked l' = parked l"
    "hello_done l' = hello_done l" "rings_allocated l' = rings_allocated l" "rings_up l' = rings_up l"
    "paths_enabled l' = paths_enabled l" "paths_owned l' = paths_owned l" "terminal_handoff l' = terminal_handoff l"
    "in_hopid_held l' = in_hopid_held l" "active_remote_hopid l' = active_remote_hopid l" "hello_selection_pending l' = hello_selection_pending l"
    "hello_selection_caps l' = hello_selection_caps l" "request_seq l' = request_seq l" "last_reannounce l' = last_reannounce l"
    "announce_pending l' = announce_pending l" "up_delivered l' = up_delivered l" "data_generation l' = data_generation l"
    "data_window l' = data_window l" "e2e_active l' = e2e_active l" "tx_frame_count l' = tx_frame_count l"
    "rx_frame_count l' = rx_frame_count l" "link_id l' = link_id l" "lroute l' = lroute l"
    "local_hopid l' = local_hopid l" "local_cookie l' = local_cookie l" "local_gid_eui64 l' = local_gid_eui64 l"
    "remote_hopid l' = remote_hopid l" "remote_rx_entries l' = remote_rx_entries l" "remote_caps l' = remote_caps l"
    "remote_cookie l' = remote_cookie l" "previous_remote_cookie l' = previous_remote_cookie l" "remote_gid_eui64 l' = remote_gid_eui64 l"
  using assms by (simp_all add: session_view_def)

end
