(* ===== verification/Tbframe_Sample.thy ===== *)
theory Tbframe_Sample
  imports Tbframe_Link
begin

text \<open>
  A concrete module instance, link and hardware, on which the hypotheses of the properties can be
  met: a two-frame pool in each direction, a hardware that accepts every call, and one that
  rejects every call.
\<close>

definition tf_sample :: tbframe where
  "tf_sample = \<lparr>client_ops = Some \<lparr>has_rx = True, has_rx_bad = True, has_tx_released = True,
       has_link_up = True, has_link_down = True\<rparr>,
     ring_entries = 256, e2e = False, keepalive = True, verify_ms = 5000, xmit_drain_ms = 1000,
     teardown_warn_ms = 1000, teardown_force_ms = 5000, shutdown_mode = False, data_proof = True,
     tx_ring_budget = 1\<rparr>"

definition frame_sample :: tbframe_frame_priv where
  "frame_sample = \<lparr>fdata = replicate 32 0, flen = 0, fpdf = 0, is_ctrl = False, is_rx = False,
     charged_ctrl = False, charged_data = False, hw_posted = False, rx_generation = 0, rx_refs = 0\<rparr>"

definition link_sample :: tbframe_link where
  "link_sample = \<lparr>lstate = TBFRAME_STATE_INIT, removing = False, parked = False, hello_done = False,
     rings_allocated = False, rings_up = False, paths_enabled = False, paths_owned = False,
     terminal_handoff = False, in_hopid_held = False, tx_quiesced = True, active_remote_hopid = 0,
     hs = \<lparr>request_sent = False, peer_seen = False, established = False, attempts = 0\<rparr>,
     hello_responder = \<lparr>hr_seen = False, hr_peer = hello_zero\<rparr>,
     ready_responder = \<lparr>rr_state = TBFRAME_READY_RESPONDER_WAITING, rr_seq = 0,
        rr_xdomain_sequence = 0, rr_peer = hello_zero\<rparr>,
     hello_selection_pending = False, hello_selection_caps = 0, request_seq = 0, hello_attempts = 0,
     last_reannounce = 0, needs_down = False, down_reason = TBFRAME_DOWN_UNPLUG,
     announce_pending = False, up_delivered = False,
     data_rx = 0, data_rx_tick_mark = 0, data_rx_proven = False, data_tx_proven = False,
     keepalive_tx_seq = 0, keepalive_tx_acked = 0, keepalive_tx_ack_mark = 0, keepalive_peer_seq = 0,
     data_rx_bad = 0, data_rx_oversize = 0, data_rx_stale = 0, data_rx_bad_cookie = 0,
     data_rx_prior_cookie = 0, data_tx_done = 0, data_tx_submitted = 0, data_tx_refused = 0,
     data_tx_ring_err = 0, data_tx_canceled = 0, data_proven = False,
     data_proof_unavailable_warned = False, data_generation = 0, probe_attempts = 0,
     probe_failures = 0, stale_drain_active = False, stale_drain_budget = 0, silent_ticks = 0,
     tx_silent_ticks = 0, data_path_sample_valid = False,
     data_window = 1, data_inflight = 0, ctrl_inflight = 0, tx_blocked = False, e2e_active = False,
     hw_active = 0, tx_frames = (\<lambda>_. frame_sample), rx_frames = (\<lambda>_. frame_sample\<lparr>is_rx := True\<rparr>),
     tx_frame_count = 2, rx_frame_count = 2, tx_free = [0, 1], rx_free = [0, 1], txq_ctrl = [],
     txq_data = [], ring_posted = 0, refcnt = 1,
     link_id = 1, lroute = 1, local_hopid = 8, local_cookie = 7, local_gid_eui64 = 5,
     remote_hopid = 9, remote_rx_entries = 256, remote_caps = 6, remote_cookie = 3,
     previous_remote_cookie = 0, remote_gid_eui64 = 6, session_work = None, verify_timer = None,
     verify_work = False, tx_released_work = False\<rparr>"

text \<open>The sample link with an established session.\<close>

definition link_up_sample :: tbframe_link where
  "link_up_sample = link_sample\<lparr>lstate := TBFRAME_STATE_UP, hello_done := True,
     rings_allocated := True, rings_up := True, paths_enabled := True, paths_owned := True,
     in_hopid_held := True, active_remote_hopid := 9, tx_quiesced := False, up_delivered := True,
     hs := \<lparr>request_sent = True, peer_seen = True, established = True, attempts = 0\<rparr>\<rparr>"

definition hw_accept :: "unit tbframe_hw_ops" where
  "hw_accept = \<lparr>op_alloc_out_hopid = Pair (Inr 8), op_release_out_hopid = (\<lambda>_ h. h),
     op_alloc_in_hopid = (\<lambda>_. Pair (Inr ())), op_release_in_hopid = (\<lambda>_ h. h),
     op_alloc_rings = (\<lambda>_ _ _. Pair (Inr ())), op_start_rings = id, op_quiesce_tx = Some id,
     op_stop_rings = id, op_free_rings = id, op_map_frame = Some (\<lambda>_ _. Pair (Inr ())),
     op_unmap_frame = Some (\<lambda>_ _ h. h), op_post_rx = (\<lambda>_. Pair (Inr ())),
     op_ring_tx = (\<lambda>_ _. Pair (Inr ())), op_enable_paths = (\<lambda>_ _. Pair (Inr ())),
     op_disable_paths = (\<lambda>_ _. Pair (Inr ())), op_paths_active = (\<lambda>_ _. Pair (Inr True)),
     op_quarantine_paths = Some (\<lambda>_ _. Pair (Inr ())),
     op_control_request = (\<lambda>_ _. Pair (Inl ETIMEDOUT)), op_control_response = (\<lambda>_. Pair (Inr ())),
     op_reannounce = Some (Pair True), op_link_attrs = Some (\<lambda>_. (2, 3)),
     op_peer_identity = Some (\<lambda>_. (replicate 16 1, ''peer'')), op_match = Some (\<lambda>_ p. p = 1)\<rparr>"

definition hw_reject :: "unit tbframe_hw_ops" where
  "hw_reject = hw_accept\<lparr>op_alloc_in_hopid := (\<lambda>_. Pair (Inl EBUSY)),
     op_alloc_rings := (\<lambda>_ _ _. Pair (Inl ENOMEM)), op_post_rx := (\<lambda>_. Pair (Inl ESHUTDOWN)),
     op_ring_tx := (\<lambda>_ _. Pair (Inl ESHUTDOWN)), op_enable_paths := (\<lambda>_ _. Pair (Inl EUCLEAN)),
     op_disable_paths := (\<lambda>_ _. Pair (Inl ETIMEDOUT)),
     op_quarantine_paths := Some (\<lambda>_ _. Pair (Inl ENODEV))\<rparr>"

definition world_of :: "tbframe_link \<Rightarrow> unit world" where
  "world_of l = \<lparr>lnk = l, hw = (), trace = [], sched = [], rng = [], jiffies_ms = 0\<rparr>"

lemmas sample_defs = tf_sample_def frame_sample_def link_sample_def link_up_sample_def hw_accept_def
  hw_reject_def world_of_def

end
