(* ===== verification/Tbframe_Admission.thy ===== *)
theory Tbframe_Admission
  imports Tbframe_Sample
begin

text \<open>
  The transmit side of \<^verbatim>\<open>frame/core.c\<close>: Mode A admission (\<open>__tbframe_alloc_frame\<close>),
  publication to the hardware ring or the software backlog (\<open>__tbframe_xmit\<close>), the return of
  frames (\<open>tbframe_tx_return_locked\<close>, \<open>tbframe_frame_free\<close>) and completion
  (\<open>tbframe_core_tx_complete\<close>).

  The invariant \<open>adm_inv\<close> says who owns each frame of the transmit pool and that the three
  counters are exactly the number of charged and of posted frames, at their 16-bit width; every
  operation keeps it, whatever the hardware answers, so the code's warnings can never fire.
\<close>

section \<open>Operations\<close>

definition txf :: "nat \<Rightarrow> (tbframe_frame_priv \<Rightarrow> tbframe_frame_priv) \<Rightarrow> tbframe_link \<Rightarrow> tbframe_link" where
  "txf i g l = l\<lparr>tx_frames := (tx_frames l)(i := g (tx_frames l i))\<rparr>"

definition hw_active_inc :: "tbframe_link \<Rightarrow> tbframe_link" where
  "hw_active_inc l = l\<lparr>hw_active := hw_active l + 1\<rparr>"

definition hw_active_dec :: "tbframe_link \<Rightarrow> tbframe_link" where
  "hw_active_dec l = l\<lparr>hw_active := hw_active l - 1\<rparr>"

definition ring_posted_dec :: "tbframe_link \<Rightarrow> tbframe_link" where
  "ring_posted_dec l = (if ring_posted l \<noteq> 0 then l\<lparr>ring_posted := ring_posted l - 1\<rparr> else l)"

definition tx_uncharge_ctrl :: "nat \<Rightarrow> tbframe_link \<Rightarrow> tbframe_link" where
  "tx_uncharge_ctrl i l =
    (if charged_ctrl (tx_frames l i) then
       (let l = (if ctrl_inflight l \<noteq> 0 then l\<lparr>ctrl_inflight := ctrl_inflight l - 1\<rparr> else l)
        in txf i (\<lambda>f. f\<lparr>charged_ctrl := False\<rparr>) l)
     else l)"

definition tx_uncharge_data :: "nat \<Rightarrow> tbframe_link \<Rightarrow> tbframe_link" where
  "tx_uncharge_data i l =
    (if charged_data (tx_frames l i) then
       (let l = (if data_inflight l \<noteq> 0 then l\<lparr>data_inflight := data_inflight l - 1\<rparr> else l)
        in txf i (\<lambda>f. f\<lparr>charged_data := False\<rparr>) l)
     else l)"

definition tbframe_tx_return_locked :: "nat \<Rightarrow> tbframe_link \<Rightarrow> bool \<times> tbframe_link" where
  "tbframe_tx_return_locked i l =
    (let l = tx_uncharge_ctrl i l;
         l = tx_uncharge_data i l;
         l = l\<lparr>tx_free := tx_free l @ [i]\<rparr>
     in if tx_blocked l \<and> lstate l = TBFRAME_STATE_UP \<and> \<not> removing l
        then (True, l\<lparr>tx_blocked := False\<rparr>)
        else (False, l))"

text \<open>The section of the completion that runs under the lock: account for the ring slot, return
  the frame, and take either the next backlog frame (control before data) or, for a cancelled
  ring, the whole backlog. Splicing puts the data queue in front of the control queue.\<close>

definition tx_complete_unpost :: "nat \<Rightarrow> bool \<Rightarrow> tbframe_link \<Rightarrow> tbframe_link" where
  "tx_complete_unpost i canceled l =
    (if hw_posted (tx_frames l i) then
       (let l = (if canceled then l\<lparr>data_tx_canceled := data_tx_canceled l + 1\<rparr>
                 else l\<lparr>data_tx_done := data_tx_done l + 1\<rparr>);
            l = txf i (\<lambda>f. f\<lparr>hw_posted := False\<rparr>) l
        in ring_posted_dec l)
     else l)"

definition tx_mark_posted :: "nat \<Rightarrow> tbframe_link \<Rightarrow> tbframe_link" where
  "tx_mark_posted n l =
    (let l = txf n (\<lambda>f. f\<lparr>hw_posted := True\<rparr>) l
     in l\<lparr>ring_posted := ring_posted l + 1, data_tx_submitted := data_tx_submitted l + 1\<rparr>)"

definition tx_refill :: "tbframe \<Rightarrow> bool \<Rightarrow> tbframe_link \<Rightarrow> nat option \<times> nat list \<times> tbframe_link" where
  "tx_refill tf canceled l =
    (if tx_ring_budget tf \<noteq> 0 then
       if \<not> canceled \<and> lstate l = TBFRAME_STATE_UP \<and> rings_up l then
         (case txq_ctrl l of
            n # cs \<Rightarrow> (Some n, [], tx_mark_posted n (l\<lparr>txq_ctrl := cs\<rparr>))
          | [] \<Rightarrow>
             (case txq_data l of
                n # ds \<Rightarrow> (Some n, [], tx_mark_posted n (l\<lparr>txq_data := ds\<rparr>))
              | [] \<Rightarrow> (None, [], l)))
       else if canceled then
         (None, txq_data l @ txq_ctrl l, l\<lparr>txq_ctrl := [], txq_data := []\<rparr>)
       else (None, [], l)
     else (None, [], l))"

definition tx_unpost_failed :: "nat \<Rightarrow> tbframe_link \<Rightarrow> tbframe_link" where
  "tx_unpost_failed n l = ring_posted_dec (txf n (\<lambda>f. f\<lparr>hw_posted := False\<rparr>) l)"

text \<open>The completion calls itself for a refill the ring rejected and for every flushed backlog
  frame. The first argument bounds the nesting; three levels always suffice
  (\<open>tx_complete_enough\<close> below): a completion may cancel one rejected refill, which may flush
  the backlog, whose completions find the queues empty.\<close>

fun tx_complete_rec ::
  "nat \<Rightarrow> 'h tbframe_hw_ops \<Rightarrow> tbframe \<Rightarrow> nat \<Rightarrow> bool \<Rightarrow> 'h world \<Rightarrow> 'h world" where
  "tx_complete_rec 0 ops tf i canceled w = w"
| "tx_complete_rec (Suc d) ops tf i canceled w =
    (let l = hw_active_inc (lnk w);
         l = tx_complete_unpost i canceled l;
         (returned, l) = tbframe_tx_return_locked i l;
         release = (returned \<and> \<not> canceled);
         (next, flush, l) = tx_refill tf canceled l;
         w = w\<lparr>lnk := l\<rparr>;
         w = (case next of
                None \<Rightarrow> w
              | Some n \<Rightarrow>
                 (case hw_call (op_ring_tx ops n (tx_frames (lnk w) n)) (ORingTx n) w of
                    (Inr _, w) \<Rightarrow> w
                  | (Inl _, w) \<Rightarrow>
                      tx_complete_rec d ops tf n True (upd (tx_unpost_failed n) w)));
         w = upd hw_active_dec w;
         w = fold (\<lambda>q. tx_complete_rec d ops tf q True) flush w;
         w = (if release then upd (\<lambda>l. l\<lparr>tx_released_work := True\<rparr>) w else w)
     in upd tbframe_link_put w)"

declare tx_complete_rec.simps(2) [simp del]

definition tbframe_core_tx_complete ::
  "'h tbframe_hw_ops \<Rightarrow> tbframe \<Rightarrow> nat \<Rightarrow> bool \<Rightarrow> 'h world \<Rightarrow> 'h world" where
  "tbframe_core_tx_complete = tx_complete_rec 3"

definition tbframe_tx_released_workfn :: "tbframe \<Rightarrow> 'h world \<Rightarrow> 'h world" where
  "tbframe_tx_released_workfn tf w =
    (case client_ops tf of
       None \<Rightarrow> w
     | Some c \<Rightarrow> if has_tx_released c then obs OTxReleased w else w)"

text \<open>\<open>__tbframe_alloc_frame\<close>: \<open>pre_up\<close> admits the prober's frames over rings that are up while
  the session is not.\<close>

definition alloc_gate :: "bool \<Rightarrow> tbframe_link \<Rightarrow> bool" where
  "alloc_gate pre_up l =
    (if pre_up
     then \<not> rings_up l \<or> \<not> paths_enabled l \<or> removing l \<or> parked l \<or> lstate l = TBFRAME_STATE_DEAD
     else lstate l \<noteq> TBFRAME_STATE_UP)"

definition alloc_full :: "bool \<Rightarrow> tbframe_link \<Rightarrow> bool" where
  "alloc_full ctrl l =
    (if ctrl then ctrl_inflight l \<ge> TBFRAME_CTRL_RESERVE else data_inflight l \<ge> data_window l)"

definition alloc_take :: "u16 \<Rightarrow> bool \<Rightarrow> nat \<Rightarrow> tbframe_link \<Rightarrow> tbframe_link" where
  "alloc_take len ctrl f l =
    (let l = (if ctrl
              then txf f (\<lambda>x. x\<lparr>charged_ctrl := True\<rparr>) (l\<lparr>ctrl_inflight := ctrl_inflight l + 1\<rparr>)
              else txf f (\<lambda>x. x\<lparr>charged_data := True\<rparr>) (l\<lparr>data_inflight := data_inflight l + 1\<rparr>));
         l = txf f (\<lambda>x. x\<lparr>flen := len, fpdf := TBFRAME_PDF_DATA, is_ctrl := ctrl\<rparr>) l
     in l\<lparr>refcnt := refcnt l + 1\<rparr>)"

definition tbframe_alloc_frame_int ::
  "u16 \<Rightarrow> bool \<Rightarrow> bool \<Rightarrow> tbframe_link \<Rightarrow> (errno + nat) \<times> tbframe_link" where
  "tbframe_alloc_frame_int len ctrl pre_up l =
    (if len = 0 \<or> len > TBFRAME_MAX_FRAME then (Inl EINVAL, l)
     else if alloc_gate pre_up l then (Inl ENETDOWN, l)
     else if alloc_full ctrl l then (Inl ENOSPC, l\<lparr>tx_blocked := True\<rparr>)
     else case tx_free l of
            [] \<Rightarrow> (Inl ENOSPC, l\<lparr>tx_blocked := True\<rparr>)
          | f # fs \<Rightarrow> (Inr f, alloc_take len ctrl f (l\<lparr>tx_free := fs\<rparr>)))"

definition tbframe_alloc_frame :: "u16 \<Rightarrow> bool \<Rightarrow> tbframe_link \<Rightarrow> (errno + nat) \<times> tbframe_link" where
  "tbframe_alloc_frame len ctrl = tbframe_alloc_frame_int len ctrl False"

text \<open>\<open>__tbframe_xmit\<close>.\<close>

definition xmit_ok :: "bool \<Rightarrow> tbframe_link \<Rightarrow> bool" where
  "xmit_ok pre_up l =
    (rings_up l \<and>
     (if pre_up then \<not> removing l \<and> \<not> parked l \<and> lstate l \<noteq> TBFRAME_STATE_DEAD
      else lstate l = TBFRAME_STATE_UP))"

definition tx_enqueue :: "nat \<Rightarrow> tbframe_link \<Rightarrow> tbframe_link" where
  "tx_enqueue i l =
    (if is_ctrl (tx_frames l i) then l\<lparr>txq_ctrl := txq_ctrl l @ [i]\<rparr>
     else l\<lparr>txq_data := txq_data l @ [i]\<rparr>)"

definition xmit_publish ::
  "'h tbframe_hw_ops \<Rightarrow> tbframe \<Rightarrow> nat \<Rightarrow> 'h world \<Rightarrow> rc \<times> 'h world" where
  "xmit_publish ops tf i w =
    (if tx_ring_budget tf \<noteq> 0 \<and> ring_posted (lnk w) \<ge> tx_ring_budget tf
     then (Inr (), upd (tx_enqueue i) w)
     else
      (let w = upd (tx_mark_posted i) w
       in case hw_call (op_ring_tx ops i (tx_frames (lnk w) i)) (ORingTx i) w of
            (Inr u, w) \<Rightarrow> (Inr u, w)
          | (Inl e, w) \<Rightarrow>
              (Inl e, upd (\<lambda>l. tx_unpost_failed i (l\<lparr>data_tx_ring_err := data_tx_ring_err l + 1\<rparr>)) w)))"

definition tbframe_xmit_int ::
  "'h tbframe_hw_ops \<Rightarrow> tbframe \<Rightarrow> tbframe_frame \<Rightarrow> bool \<Rightarrow> 'h world \<Rightarrow> rc \<times> 'h world" where
  "tbframe_xmit_int ops tf frame pre_up w =
    (if fr_link frame \<noteq> link_id (lnk w) \<or> fr_rx frame then (Inl EINVAL, w)
     else
      (let w = upd hw_active_inc w;
           ok = xmit_ok pre_up (lnk w);
           w = (if ok \<and> pre_up then upd (\<lambda>l. l\<lparr>tx_quiesced := False\<rparr>) w else w);
           (ret, w) = (if ok then xmit_publish ops tf (fr_idx frame) w
                       else (Inl ENETDOWN, upd (\<lambda>l. l\<lparr>data_tx_refused := data_tx_refused l + 1\<rparr>) w))
       in (ret, upd hw_active_dec w)))"

definition tbframe_xmit ::
  "'h tbframe_hw_ops \<Rightarrow> tbframe \<Rightarrow> tbframe_frame \<Rightarrow> 'h world \<Rightarrow> rc \<times> 'h world" where
  "tbframe_xmit ops tf frame = tbframe_xmit_int ops tf frame False"

definition tbframe_frame_free :: "tbframe_frame \<Rightarrow> tbframe_link \<Rightarrow> tbframe_link" where
  "tbframe_frame_free frame l =
    (if fr_link frame \<noteq> link_id l \<or> fr_rx frame then l
     else
      (let (release, l) = tbframe_tx_return_locked (fr_idx frame) l;
           l = (if release then l\<lparr>tx_released_work := True\<rparr> else l)
       in tbframe_link_put l))"


section \<open>Ownership and accounting\<close>

abbreviation tx_n :: "tbframe_link \<Rightarrow> nat" where
  "tx_n l \<equiv> unat (tx_frame_count l)"

abbreviation rx_n :: "tbframe_link \<Rightarrow> nat" where
  "rx_n l \<equiv> unat (rx_frame_count l)"

text \<open>The frames the core holds in one of its lists, and the frames it has handed out that are
  neither on a list nor on the hardware ring: those are the client's.\<close>

definition tx_listed :: "tbframe_link \<Rightarrow> nat list" where
  "tx_listed l = tx_free l @ txq_ctrl l @ txq_data l"

definition tx_held :: "tbframe_link \<Rightarrow> nat \<Rightarrow> bool" where
  "tx_held l i = (i < tx_n l \<and> i \<notin> set (tx_listed l) \<and> \<not> hw_posted (tx_frames l i))"

definition tx_lists_ok :: "tbframe_link \<Rightarrow> bool" where
  "tx_lists_ok l =
    (distinct (tx_listed l) \<and> list_all (\<lambda>i. i < tx_n l \<and> \<not> hw_posted (tx_frames l i)) (tx_listed l) \<and>
     list_all (\<lambda>i. is_ctrl (tx_frames l i)) (txq_ctrl l) \<and>
     list_all (\<lambda>i. \<not> is_ctrl (tx_frames l i)) (txq_data l))"

definition tx_charge_ok :: "tbframe_link \<Rightarrow> nat \<Rightarrow> bool" where
  "tx_charge_ok l i =
    (if i \<in> set (tx_free l) then \<not> charged_ctrl (tx_frames l i) \<and> \<not> charged_data (tx_frames l i)
     else charged_ctrl (tx_frames l i) = is_ctrl (tx_frames l i) \<and>
          charged_data (tx_frames l i) = (\<not> is_ctrl (tx_frames l i)))"

definition tx_counts_ok :: "tbframe_link \<Rightarrow> bool" where
  "tx_counts_ok l =
    (unat (ctrl_inflight l) = cnt (charged_ctrl \<circ> tx_frames l) (tx_n l) \<and>
     unat (data_inflight l) = cnt (charged_data \<circ> tx_frames l) (tx_n l) \<and>
     unat (ring_posted l) = cnt (hw_posted \<circ> tx_frames l) (tx_n l))"

definition tx_budget_ok :: "tbframe \<Rightarrow> tbframe_link \<Rightarrow> bool" where
  "tx_budget_ok tf l =
    (if tx_ring_budget tf = 0 then txq_ctrl l = [] \<and> txq_data l = []
     else ring_posted l \<le> tx_ring_budget tf)"

definition adm_inv :: "tbframe \<Rightarrow> tbframe_link \<Rightarrow> bool" where
  "adm_inv tf l =
    (tx_lists_ok l \<and> (\<forall>i < tx_n l. tx_charge_ok l i) \<and> tx_counts_ok l \<and> tx_budget_ok tf l)"

text \<open>One reference for each frame out of its pool, beyond the \<open>k\<close> other references.\<close>

definition ref_inv :: "nat \<Rightarrow> tbframe_link \<Rightarrow> bool" where
  "ref_inv k l =
    (refcnt l = k + (tx_n l - length (tx_free l)) + (rx_n l - length (rx_free l)))"

lemmas adm_defs = adm_inv_def tx_lists_ok_def tx_charge_ok_def tx_counts_ok_def tx_budget_ok_def
  tx_listed_def tx_held_def

lemma adm_inv_cong:
  assumes "tx_frames l' = tx_frames l" "tx_frame_count l' = tx_frame_count l" "tx_free l' = tx_free l"
    "txq_ctrl l' = txq_ctrl l" "txq_data l' = txq_data l" "ctrl_inflight l' = ctrl_inflight l"
    "data_inflight l' = data_inflight l" "ring_posted l' = ring_posted l"
  shows "adm_inv tf l' = adm_inv tf l" "tx_held l' i = tx_held l i"
  using assms by (simp_all add: adm_defs)

text \<open>The invariants look only at the pool: no other field matters to them.\<close>

lemma adm_inv_upd [simp]:
  "adm_inv tf (l\<lparr>lstate := v_lstate\<rparr>) = adm_inv tf l"
  "adm_inv tf (l\<lparr>removing := v_removing\<rparr>) = adm_inv tf l"
  "adm_inv tf (l\<lparr>parked := v_parked\<rparr>) = adm_inv tf l"
  "adm_inv tf (l\<lparr>hello_done := v_hello_done\<rparr>) = adm_inv tf l"
  "adm_inv tf (l\<lparr>rings_allocated := v_rings_allocated\<rparr>) = adm_inv tf l"
  "adm_inv tf (l\<lparr>rings_up := v_rings_up\<rparr>) = adm_inv tf l"
  "adm_inv tf (l\<lparr>paths_enabled := v_paths_enabled\<rparr>) = adm_inv tf l"
  "adm_inv tf (l\<lparr>paths_owned := v_paths_owned\<rparr>) = adm_inv tf l"
  "adm_inv tf (l\<lparr>terminal_handoff := v_terminal_handoff\<rparr>) = adm_inv tf l"
  "adm_inv tf (l\<lparr>in_hopid_held := v_in_hopid_held\<rparr>) = adm_inv tf l"
  "adm_inv tf (l\<lparr>tx_quiesced := v_tx_quiesced\<rparr>) = adm_inv tf l"
  "adm_inv tf (l\<lparr>active_remote_hopid := v_active_remote_hopid\<rparr>) = adm_inv tf l"
  "adm_inv tf (l\<lparr>hs := v_hs\<rparr>) = adm_inv tf l"
  "adm_inv tf (l\<lparr>hello_responder := v_hello_responder\<rparr>) = adm_inv tf l"
  "adm_inv tf (l\<lparr>ready_responder := v_ready_responder\<rparr>) = adm_inv tf l"
  "adm_inv tf (l\<lparr>hello_selection_pending := v_hello_selection_pending\<rparr>) = adm_inv tf l"
  "adm_inv tf (l\<lparr>hello_selection_caps := v_hello_selection_caps\<rparr>) = adm_inv tf l"
  "adm_inv tf (l\<lparr>request_seq := v_request_seq\<rparr>) = adm_inv tf l"
  "adm_inv tf (l\<lparr>hello_attempts := v_hello_attempts\<rparr>) = adm_inv tf l"
  "adm_inv tf (l\<lparr>last_reannounce := v_last_reannounce\<rparr>) = adm_inv tf l"
  "adm_inv tf (l\<lparr>needs_down := v_needs_down\<rparr>) = adm_inv tf l"
  "adm_inv tf (l\<lparr>down_reason := v_down_reason\<rparr>) = adm_inv tf l"
  "adm_inv tf (l\<lparr>announce_pending := v_announce_pending\<rparr>) = adm_inv tf l"
  "adm_inv tf (l\<lparr>up_delivered := v_up_delivered\<rparr>) = adm_inv tf l"
  "adm_inv tf (l\<lparr>data_rx := v_data_rx\<rparr>) = adm_inv tf l"
  "adm_inv tf (l\<lparr>data_rx_tick_mark := v_data_rx_tick_mark\<rparr>) = adm_inv tf l"
  "adm_inv tf (l\<lparr>data_rx_proven := v_data_rx_proven\<rparr>) = adm_inv tf l"
  "adm_inv tf (l\<lparr>data_tx_proven := v_data_tx_proven\<rparr>) = adm_inv tf l"
  "adm_inv tf (l\<lparr>keepalive_tx_seq := v_keepalive_tx_seq\<rparr>) = adm_inv tf l"
  "adm_inv tf (l\<lparr>keepalive_tx_acked := v_keepalive_tx_acked\<rparr>) = adm_inv tf l"
  "adm_inv tf (l\<lparr>keepalive_tx_ack_mark := v_keepalive_tx_ack_mark\<rparr>) = adm_inv tf l"
  "adm_inv tf (l\<lparr>keepalive_peer_seq := v_keepalive_peer_seq\<rparr>) = adm_inv tf l"
  "adm_inv tf (l\<lparr>data_rx_bad := v_data_rx_bad\<rparr>) = adm_inv tf l"
  "adm_inv tf (l\<lparr>data_rx_oversize := v_data_rx_oversize\<rparr>) = adm_inv tf l"
  "adm_inv tf (l\<lparr>data_rx_stale := v_data_rx_stale\<rparr>) = adm_inv tf l"
  "adm_inv tf (l\<lparr>data_rx_bad_cookie := v_data_rx_bad_cookie\<rparr>) = adm_inv tf l"
  "adm_inv tf (l\<lparr>data_rx_prior_cookie := v_data_rx_prior_cookie\<rparr>) = adm_inv tf l"
  "adm_inv tf (l\<lparr>data_tx_done := v_data_tx_done\<rparr>) = adm_inv tf l"
  "adm_inv tf (l\<lparr>data_tx_submitted := v_data_tx_submitted\<rparr>) = adm_inv tf l"
  "adm_inv tf (l\<lparr>data_tx_refused := v_data_tx_refused\<rparr>) = adm_inv tf l"
  "adm_inv tf (l\<lparr>data_tx_ring_err := v_data_tx_ring_err\<rparr>) = adm_inv tf l"
  "adm_inv tf (l\<lparr>data_tx_canceled := v_data_tx_canceled\<rparr>) = adm_inv tf l"
  "adm_inv tf (l\<lparr>data_proven := v_data_proven\<rparr>) = adm_inv tf l"
  "adm_inv tf (l\<lparr>data_proof_unavailable_warned := v_data_proof_unavailable_warned\<rparr>) = adm_inv tf l"
  "adm_inv tf (l\<lparr>data_generation := v_data_generation\<rparr>) = adm_inv tf l"
  "adm_inv tf (l\<lparr>probe_attempts := v_probe_attempts\<rparr>) = adm_inv tf l"
  "adm_inv tf (l\<lparr>probe_failures := v_probe_failures\<rparr>) = adm_inv tf l"
  "adm_inv tf (l\<lparr>stale_drain_active := v_stale_drain_active\<rparr>) = adm_inv tf l"
  "adm_inv tf (l\<lparr>stale_drain_budget := v_stale_drain_budget\<rparr>) = adm_inv tf l"
  "adm_inv tf (l\<lparr>silent_ticks := v_silent_ticks\<rparr>) = adm_inv tf l"
  "adm_inv tf (l\<lparr>tx_silent_ticks := v_tx_silent_ticks\<rparr>) = adm_inv tf l"
  "adm_inv tf (l\<lparr>data_path_sample_valid := v_data_path_sample_valid\<rparr>) = adm_inv tf l"
  "adm_inv tf (l\<lparr>data_window := v_data_window\<rparr>) = adm_inv tf l"
  "adm_inv tf (l\<lparr>tx_blocked := v_tx_blocked\<rparr>) = adm_inv tf l"
  "adm_inv tf (l\<lparr>e2e_active := v_e2e_active\<rparr>) = adm_inv tf l"
  "adm_inv tf (l\<lparr>hw_active := v_hw_active\<rparr>) = adm_inv tf l"
  "adm_inv tf (l\<lparr>rx_frames := v_rx_frames\<rparr>) = adm_inv tf l"
  "adm_inv tf (l\<lparr>rx_frame_count := v_rx_frame_count\<rparr>) = adm_inv tf l"
  "adm_inv tf (l\<lparr>rx_free := v_rx_free\<rparr>) = adm_inv tf l"
  "adm_inv tf (l\<lparr>refcnt := v_refcnt\<rparr>) = adm_inv tf l"
  "adm_inv tf (l\<lparr>link_id := v_link_id\<rparr>) = adm_inv tf l"
  "adm_inv tf (l\<lparr>lroute := v_lroute\<rparr>) = adm_inv tf l"
  "adm_inv tf (l\<lparr>local_hopid := v_local_hopid\<rparr>) = adm_inv tf l"
  "adm_inv tf (l\<lparr>local_cookie := v_local_cookie\<rparr>) = adm_inv tf l"
  "adm_inv tf (l\<lparr>local_gid_eui64 := v_local_gid_eui64\<rparr>) = adm_inv tf l"
  "adm_inv tf (l\<lparr>remote_hopid := v_remote_hopid\<rparr>) = adm_inv tf l"
  "adm_inv tf (l\<lparr>remote_rx_entries := v_remote_rx_entries\<rparr>) = adm_inv tf l"
  "adm_inv tf (l\<lparr>remote_caps := v_remote_caps\<rparr>) = adm_inv tf l"
  "adm_inv tf (l\<lparr>remote_cookie := v_remote_cookie\<rparr>) = adm_inv tf l"
  "adm_inv tf (l\<lparr>previous_remote_cookie := v_previous_remote_cookie\<rparr>) = adm_inv tf l"
  "adm_inv tf (l\<lparr>remote_gid_eui64 := v_remote_gid_eui64\<rparr>) = adm_inv tf l"
  "adm_inv tf (l\<lparr>session_work := v_session_work\<rparr>) = adm_inv tf l"
  "adm_inv tf (l\<lparr>verify_timer := v_verify_timer\<rparr>) = adm_inv tf l"
  "adm_inv tf (l\<lparr>verify_work := v_verify_work\<rparr>) = adm_inv tf l"
  "adm_inv tf (l\<lparr>tx_released_work := v_tx_released_work\<rparr>) = adm_inv tf l"
  by (rule adm_inv_cong; simp)+

lemma tx_held_upd [simp]:
  "tx_held (l\<lparr>lstate := v_lstate\<rparr>) i = tx_held l i"
  "tx_held (l\<lparr>removing := v_removing\<rparr>) i = tx_held l i"
  "tx_held (l\<lparr>parked := v_parked\<rparr>) i = tx_held l i"
  "tx_held (l\<lparr>hello_done := v_hello_done\<rparr>) i = tx_held l i"
  "tx_held (l\<lparr>rings_allocated := v_rings_allocated\<rparr>) i = tx_held l i"
  "tx_held (l\<lparr>rings_up := v_rings_up\<rparr>) i = tx_held l i"
  "tx_held (l\<lparr>paths_enabled := v_paths_enabled\<rparr>) i = tx_held l i"
  "tx_held (l\<lparr>paths_owned := v_paths_owned\<rparr>) i = tx_held l i"
  "tx_held (l\<lparr>terminal_handoff := v_terminal_handoff\<rparr>) i = tx_held l i"
  "tx_held (l\<lparr>in_hopid_held := v_in_hopid_held\<rparr>) i = tx_held l i"
  "tx_held (l\<lparr>tx_quiesced := v_tx_quiesced\<rparr>) i = tx_held l i"
  "tx_held (l\<lparr>active_remote_hopid := v_active_remote_hopid\<rparr>) i = tx_held l i"
  "tx_held (l\<lparr>hs := v_hs\<rparr>) i = tx_held l i"
  "tx_held (l\<lparr>hello_responder := v_hello_responder\<rparr>) i = tx_held l i"
  "tx_held (l\<lparr>ready_responder := v_ready_responder\<rparr>) i = tx_held l i"
  "tx_held (l\<lparr>hello_selection_pending := v_hello_selection_pending\<rparr>) i = tx_held l i"
  "tx_held (l\<lparr>hello_selection_caps := v_hello_selection_caps\<rparr>) i = tx_held l i"
  "tx_held (l\<lparr>request_seq := v_request_seq\<rparr>) i = tx_held l i"
  "tx_held (l\<lparr>hello_attempts := v_hello_attempts\<rparr>) i = tx_held l i"
  "tx_held (l\<lparr>last_reannounce := v_last_reannounce\<rparr>) i = tx_held l i"
  "tx_held (l\<lparr>needs_down := v_needs_down\<rparr>) i = tx_held l i"
  "tx_held (l\<lparr>down_reason := v_down_reason\<rparr>) i = tx_held l i"
  "tx_held (l\<lparr>announce_pending := v_announce_pending\<rparr>) i = tx_held l i"
  "tx_held (l\<lparr>up_delivered := v_up_delivered\<rparr>) i = tx_held l i"
  "tx_held (l\<lparr>data_rx := v_data_rx\<rparr>) i = tx_held l i"
  "tx_held (l\<lparr>data_rx_tick_mark := v_data_rx_tick_mark\<rparr>) i = tx_held l i"
  "tx_held (l\<lparr>data_rx_proven := v_data_rx_proven\<rparr>) i = tx_held l i"
  "tx_held (l\<lparr>data_tx_proven := v_data_tx_proven\<rparr>) i = tx_held l i"
  "tx_held (l\<lparr>keepalive_tx_seq := v_keepalive_tx_seq\<rparr>) i = tx_held l i"
  "tx_held (l\<lparr>keepalive_tx_acked := v_keepalive_tx_acked\<rparr>) i = tx_held l i"
  "tx_held (l\<lparr>keepalive_tx_ack_mark := v_keepalive_tx_ack_mark\<rparr>) i = tx_held l i"
  "tx_held (l\<lparr>keepalive_peer_seq := v_keepalive_peer_seq\<rparr>) i = tx_held l i"
  "tx_held (l\<lparr>data_rx_bad := v_data_rx_bad\<rparr>) i = tx_held l i"
  "tx_held (l\<lparr>data_rx_oversize := v_data_rx_oversize\<rparr>) i = tx_held l i"
  "tx_held (l\<lparr>data_rx_stale := v_data_rx_stale\<rparr>) i = tx_held l i"
  "tx_held (l\<lparr>data_rx_bad_cookie := v_data_rx_bad_cookie\<rparr>) i = tx_held l i"
  "tx_held (l\<lparr>data_rx_prior_cookie := v_data_rx_prior_cookie\<rparr>) i = tx_held l i"
  "tx_held (l\<lparr>data_tx_done := v_data_tx_done\<rparr>) i = tx_held l i"
  "tx_held (l\<lparr>data_tx_submitted := v_data_tx_submitted\<rparr>) i = tx_held l i"
  "tx_held (l\<lparr>data_tx_refused := v_data_tx_refused\<rparr>) i = tx_held l i"
  "tx_held (l\<lparr>data_tx_ring_err := v_data_tx_ring_err\<rparr>) i = tx_held l i"
  "tx_held (l\<lparr>data_tx_canceled := v_data_tx_canceled\<rparr>) i = tx_held l i"
  "tx_held (l\<lparr>data_proven := v_data_proven\<rparr>) i = tx_held l i"
  "tx_held (l\<lparr>data_proof_unavailable_warned := v_data_proof_unavailable_warned\<rparr>) i = tx_held l i"
  "tx_held (l\<lparr>data_generation := v_data_generation\<rparr>) i = tx_held l i"
  "tx_held (l\<lparr>probe_attempts := v_probe_attempts\<rparr>) i = tx_held l i"
  "tx_held (l\<lparr>probe_failures := v_probe_failures\<rparr>) i = tx_held l i"
  "tx_held (l\<lparr>stale_drain_active := v_stale_drain_active\<rparr>) i = tx_held l i"
  "tx_held (l\<lparr>stale_drain_budget := v_stale_drain_budget\<rparr>) i = tx_held l i"
  "tx_held (l\<lparr>silent_ticks := v_silent_ticks\<rparr>) i = tx_held l i"
  "tx_held (l\<lparr>tx_silent_ticks := v_tx_silent_ticks\<rparr>) i = tx_held l i"
  "tx_held (l\<lparr>data_path_sample_valid := v_data_path_sample_valid\<rparr>) i = tx_held l i"
  "tx_held (l\<lparr>data_window := v_data_window\<rparr>) i = tx_held l i"
  "tx_held (l\<lparr>tx_blocked := v_tx_blocked\<rparr>) i = tx_held l i"
  "tx_held (l\<lparr>e2e_active := v_e2e_active\<rparr>) i = tx_held l i"
  "tx_held (l\<lparr>hw_active := v_hw_active\<rparr>) i = tx_held l i"
  "tx_held (l\<lparr>rx_frames := v_rx_frames\<rparr>) i = tx_held l i"
  "tx_held (l\<lparr>rx_frame_count := v_rx_frame_count\<rparr>) i = tx_held l i"
  "tx_held (l\<lparr>rx_free := v_rx_free\<rparr>) i = tx_held l i"
  "tx_held (l\<lparr>refcnt := v_refcnt\<rparr>) i = tx_held l i"
  "tx_held (l\<lparr>link_id := v_link_id\<rparr>) i = tx_held l i"
  "tx_held (l\<lparr>lroute := v_lroute\<rparr>) i = tx_held l i"
  "tx_held (l\<lparr>local_hopid := v_local_hopid\<rparr>) i = tx_held l i"
  "tx_held (l\<lparr>local_cookie := v_local_cookie\<rparr>) i = tx_held l i"
  "tx_held (l\<lparr>local_gid_eui64 := v_local_gid_eui64\<rparr>) i = tx_held l i"
  "tx_held (l\<lparr>remote_hopid := v_remote_hopid\<rparr>) i = tx_held l i"
  "tx_held (l\<lparr>remote_rx_entries := v_remote_rx_entries\<rparr>) i = tx_held l i"
  "tx_held (l\<lparr>remote_caps := v_remote_caps\<rparr>) i = tx_held l i"
  "tx_held (l\<lparr>remote_cookie := v_remote_cookie\<rparr>) i = tx_held l i"
  "tx_held (l\<lparr>previous_remote_cookie := v_previous_remote_cookie\<rparr>) i = tx_held l i"
  "tx_held (l\<lparr>remote_gid_eui64 := v_remote_gid_eui64\<rparr>) i = tx_held l i"
  "tx_held (l\<lparr>session_work := v_session_work\<rparr>) i = tx_held l i"
  "tx_held (l\<lparr>verify_timer := v_verify_timer\<rparr>) i = tx_held l i"
  "tx_held (l\<lparr>verify_work := v_verify_work\<rparr>) i = tx_held l i"
  "tx_held (l\<lparr>tx_released_work := v_tx_released_work\<rparr>) i = tx_held l i"
  by (rule adm_inv_cong; simp)+

lemma ref_inv_upd [simp]:
  "ref_inv k (l\<lparr>lstate := v_lstate\<rparr>) = ref_inv k l"
  "ref_inv k (l\<lparr>removing := v_removing\<rparr>) = ref_inv k l"
  "ref_inv k (l\<lparr>parked := v_parked\<rparr>) = ref_inv k l"
  "ref_inv k (l\<lparr>hello_done := v_hello_done\<rparr>) = ref_inv k l"
  "ref_inv k (l\<lparr>rings_allocated := v_rings_allocated\<rparr>) = ref_inv k l"
  "ref_inv k (l\<lparr>rings_up := v_rings_up\<rparr>) = ref_inv k l"
  "ref_inv k (l\<lparr>paths_enabled := v_paths_enabled\<rparr>) = ref_inv k l"
  "ref_inv k (l\<lparr>paths_owned := v_paths_owned\<rparr>) = ref_inv k l"
  "ref_inv k (l\<lparr>terminal_handoff := v_terminal_handoff\<rparr>) = ref_inv k l"
  "ref_inv k (l\<lparr>in_hopid_held := v_in_hopid_held\<rparr>) = ref_inv k l"
  "ref_inv k (l\<lparr>tx_quiesced := v_tx_quiesced\<rparr>) = ref_inv k l"
  "ref_inv k (l\<lparr>active_remote_hopid := v_active_remote_hopid\<rparr>) = ref_inv k l"
  "ref_inv k (l\<lparr>hs := v_hs\<rparr>) = ref_inv k l"
  "ref_inv k (l\<lparr>hello_responder := v_hello_responder\<rparr>) = ref_inv k l"
  "ref_inv k (l\<lparr>ready_responder := v_ready_responder\<rparr>) = ref_inv k l"
  "ref_inv k (l\<lparr>hello_selection_pending := v_hello_selection_pending\<rparr>) = ref_inv k l"
  "ref_inv k (l\<lparr>hello_selection_caps := v_hello_selection_caps\<rparr>) = ref_inv k l"
  "ref_inv k (l\<lparr>request_seq := v_request_seq\<rparr>) = ref_inv k l"
  "ref_inv k (l\<lparr>hello_attempts := v_hello_attempts\<rparr>) = ref_inv k l"
  "ref_inv k (l\<lparr>last_reannounce := v_last_reannounce\<rparr>) = ref_inv k l"
  "ref_inv k (l\<lparr>needs_down := v_needs_down\<rparr>) = ref_inv k l"
  "ref_inv k (l\<lparr>down_reason := v_down_reason\<rparr>) = ref_inv k l"
  "ref_inv k (l\<lparr>announce_pending := v_announce_pending\<rparr>) = ref_inv k l"
  "ref_inv k (l\<lparr>up_delivered := v_up_delivered\<rparr>) = ref_inv k l"
  "ref_inv k (l\<lparr>data_rx := v_data_rx\<rparr>) = ref_inv k l"
  "ref_inv k (l\<lparr>data_rx_tick_mark := v_data_rx_tick_mark\<rparr>) = ref_inv k l"
  "ref_inv k (l\<lparr>data_rx_proven := v_data_rx_proven\<rparr>) = ref_inv k l"
  "ref_inv k (l\<lparr>data_tx_proven := v_data_tx_proven\<rparr>) = ref_inv k l"
  "ref_inv k (l\<lparr>keepalive_tx_seq := v_keepalive_tx_seq\<rparr>) = ref_inv k l"
  "ref_inv k (l\<lparr>keepalive_tx_acked := v_keepalive_tx_acked\<rparr>) = ref_inv k l"
  "ref_inv k (l\<lparr>keepalive_tx_ack_mark := v_keepalive_tx_ack_mark\<rparr>) = ref_inv k l"
  "ref_inv k (l\<lparr>keepalive_peer_seq := v_keepalive_peer_seq\<rparr>) = ref_inv k l"
  "ref_inv k (l\<lparr>data_rx_bad := v_data_rx_bad\<rparr>) = ref_inv k l"
  "ref_inv k (l\<lparr>data_rx_oversize := v_data_rx_oversize\<rparr>) = ref_inv k l"
  "ref_inv k (l\<lparr>data_rx_stale := v_data_rx_stale\<rparr>) = ref_inv k l"
  "ref_inv k (l\<lparr>data_rx_bad_cookie := v_data_rx_bad_cookie\<rparr>) = ref_inv k l"
  "ref_inv k (l\<lparr>data_rx_prior_cookie := v_data_rx_prior_cookie\<rparr>) = ref_inv k l"
  "ref_inv k (l\<lparr>data_tx_done := v_data_tx_done\<rparr>) = ref_inv k l"
  "ref_inv k (l\<lparr>data_tx_submitted := v_data_tx_submitted\<rparr>) = ref_inv k l"
  "ref_inv k (l\<lparr>data_tx_refused := v_data_tx_refused\<rparr>) = ref_inv k l"
  "ref_inv k (l\<lparr>data_tx_ring_err := v_data_tx_ring_err\<rparr>) = ref_inv k l"
  "ref_inv k (l\<lparr>data_tx_canceled := v_data_tx_canceled\<rparr>) = ref_inv k l"
  "ref_inv k (l\<lparr>data_proven := v_data_proven\<rparr>) = ref_inv k l"
  "ref_inv k (l\<lparr>data_proof_unavailable_warned := v_data_proof_unavailable_warned\<rparr>) = ref_inv k l"
  "ref_inv k (l\<lparr>data_generation := v_data_generation\<rparr>) = ref_inv k l"
  "ref_inv k (l\<lparr>probe_attempts := v_probe_attempts\<rparr>) = ref_inv k l"
  "ref_inv k (l\<lparr>probe_failures := v_probe_failures\<rparr>) = ref_inv k l"
  "ref_inv k (l\<lparr>stale_drain_active := v_stale_drain_active\<rparr>) = ref_inv k l"
  "ref_inv k (l\<lparr>stale_drain_budget := v_stale_drain_budget\<rparr>) = ref_inv k l"
  "ref_inv k (l\<lparr>silent_ticks := v_silent_ticks\<rparr>) = ref_inv k l"
  "ref_inv k (l\<lparr>tx_silent_ticks := v_tx_silent_ticks\<rparr>) = ref_inv k l"
  "ref_inv k (l\<lparr>data_path_sample_valid := v_data_path_sample_valid\<rparr>) = ref_inv k l"
  "ref_inv k (l\<lparr>data_window := v_data_window\<rparr>) = ref_inv k l"
  "ref_inv k (l\<lparr>data_inflight := v_data_inflight\<rparr>) = ref_inv k l"
  "ref_inv k (l\<lparr>ctrl_inflight := v_ctrl_inflight\<rparr>) = ref_inv k l"
  "ref_inv k (l\<lparr>tx_blocked := v_tx_blocked\<rparr>) = ref_inv k l"
  "ref_inv k (l\<lparr>e2e_active := v_e2e_active\<rparr>) = ref_inv k l"
  "ref_inv k (l\<lparr>hw_active := v_hw_active\<rparr>) = ref_inv k l"
  "ref_inv k (l\<lparr>tx_frames := v_tx_frames\<rparr>) = ref_inv k l"
  "ref_inv k (l\<lparr>rx_frames := v_rx_frames\<rparr>) = ref_inv k l"
  "ref_inv k (l\<lparr>txq_ctrl := v_txq_ctrl\<rparr>) = ref_inv k l"
  "ref_inv k (l\<lparr>txq_data := v_txq_data\<rparr>) = ref_inv k l"
  "ref_inv k (l\<lparr>ring_posted := v_ring_posted\<rparr>) = ref_inv k l"
  "ref_inv k (l\<lparr>link_id := v_link_id\<rparr>) = ref_inv k l"
  "ref_inv k (l\<lparr>lroute := v_lroute\<rparr>) = ref_inv k l"
  "ref_inv k (l\<lparr>local_hopid := v_local_hopid\<rparr>) = ref_inv k l"
  "ref_inv k (l\<lparr>local_cookie := v_local_cookie\<rparr>) = ref_inv k l"
  "ref_inv k (l\<lparr>local_gid_eui64 := v_local_gid_eui64\<rparr>) = ref_inv k l"
  "ref_inv k (l\<lparr>remote_hopid := v_remote_hopid\<rparr>) = ref_inv k l"
  "ref_inv k (l\<lparr>remote_rx_entries := v_remote_rx_entries\<rparr>) = ref_inv k l"
  "ref_inv k (l\<lparr>remote_caps := v_remote_caps\<rparr>) = ref_inv k l"
  "ref_inv k (l\<lparr>remote_cookie := v_remote_cookie\<rparr>) = ref_inv k l"
  "ref_inv k (l\<lparr>previous_remote_cookie := v_previous_remote_cookie\<rparr>) = ref_inv k l"
  "ref_inv k (l\<lparr>remote_gid_eui64 := v_remote_gid_eui64\<rparr>) = ref_inv k l"
  "ref_inv k (l\<lparr>session_work := v_session_work\<rparr>) = ref_inv k l"
  "ref_inv k (l\<lparr>verify_timer := v_verify_timer\<rparr>) = ref_inv k l"
  "ref_inv k (l\<lparr>verify_work := v_verify_work\<rparr>) = ref_inv k l"
  "ref_inv k (l\<lparr>tx_released_work := v_tx_released_work\<rparr>) = ref_inv k l"
  by (simp_all add: ref_inv_def)

text \<open>The counters are nonzero whenever the code decrements them, so none of the warnings on an
  empty counter fires and none of the decrements wraps.\<close>

lemma charged_nonzero:
  assumes "adm_inv tf l" "i < tx_n l"
  shows "charged_ctrl (tx_frames l i) \<Longrightarrow> ctrl_inflight l \<noteq> 0"
    and "charged_data (tx_frames l i) \<Longrightarrow> data_inflight l \<noteq> 0"
    and "hw_posted (tx_frames l i) \<Longrightarrow> ring_posted l \<noteq> 0"
  using assms cnt_pos [of i "tx_n l" "charged_ctrl \<circ> tx_frames l"]
    cnt_pos [of i "tx_n l" "charged_data \<circ> tx_frames l"]
    cnt_pos [of i "tx_n l" "hw_posted \<circ> tx_frames l"]
  by (auto simp: adm_inv_def tx_counts_ok_def)

lemma unat_inc_cnt:
  assumes "unat x = cnt P (unat n)" "i < unat (n :: u16)" "\<not> P i"
  shows "unat (x + 1 :: u16) = cnt (P(i := True)) (unat n)"
proof -
  have "cnt P (unat n) < unat n" using assms cnt_less by blast
  moreover have "unat n < 2 ^ 16" by (rule order_less_le_trans [OF unsigned_less]) simp
  ultimately have "unat x < 65535" using assms(1) by simp
  then show ?thesis using assms by (simp add: cnt_set unat_add1_u16)
qed

lemma unat_dec_cnt:
  assumes "unat x = cnt P (unat n)" "i < unat (n :: u16)" "P i"
  shows "unat (x - 1 :: u16) = cnt (P(i := False)) (unat n)"
proof -
  have "0 < unat x" using assms cnt_pos by metis
  then have "x \<noteq> 0" by auto
  then show ?thesis using assms by (simp add: cnt_clear unat_sub1_word)
qed

lemma fun_upd_compose: "(\<lambda>x. f ((g(i := y)) x)) = (\<lambda>x. f (g x))(i := f y)"
  by auto


lemma txf_sel [simp]:
  "tx_frames (txf i g l) = (tx_frames l)(i := g (tx_frames l i))"
  "tx_frame_count (txf i g l) = tx_frame_count l" "tx_free (txf i g l) = tx_free l"
  "txq_ctrl (txf i g l) = txq_ctrl l" "txq_data (txf i g l) = txq_data l"
  "ctrl_inflight (txf i g l) = ctrl_inflight l" "data_inflight (txf i g l) = data_inflight l"
  "ring_posted (txf i g l) = ring_posted l" "refcnt (txf i g l) = refcnt l"
  "rx_free (txf i g l) = rx_free l" "rx_frame_count (txf i g l) = rx_frame_count l"
  by (simp_all add: txf_def)

subsection \<open>The steps the operations are made of\<close>

lemma held_charge:
  assumes "adm_inv tf l" "i < tx_n l" "i \<notin> set (tx_free l)"
  shows "charged_ctrl (tx_frames l i) = is_ctrl (tx_frames l i)"
    and "charged_data (tx_frames l i) = (\<not> is_ctrl (tx_frames l i))"
  using assms by (auto simp: adm_inv_def tx_charge_ok_def)

lemma adm_inv_parts:
  assumes "adm_inv tf l"
  shows "tx_lists_ok l" "\<And>i. i < tx_n l \<Longrightarrow> tx_charge_ok l i" "tx_counts_ok l" "tx_budget_ok tf l"
  using assms by (simp_all add: adm_inv_def)

text \<open>Changing a frame that is on no list leaves the lists well formed.\<close>

lemma lists_ok_txf:
  assumes "tx_lists_ok l" "i \<notin> set (tx_listed l)"
  shows "tx_lists_ok (txf i g l)"
proof -
  have "x \<noteq> i" if "x \<in> set (tx_free l) \<union> set (txq_ctrl l) \<union> set (txq_data l)" for x
    using assms(2) that by (auto simp: tx_listed_def)
  then show ?thesis
    using assms(1) by (simp add: tx_lists_ok_def tx_listed_def list_all_iff)
qed

lemma tx_lists_ok_cong:
  assumes "tx_frames l' = tx_frames l" "tx_frame_count l' = tx_frame_count l" "tx_free l' = tx_free l"
    "txq_ctrl l' = txq_ctrl l" "txq_data l' = txq_data l"
  shows "tx_lists_ok l' = tx_lists_ok l"
  using assms by (simp add: tx_lists_ok_def tx_listed_def)

lemma mark_posted_inv:
  assumes "adm_inv tf l" "tx_held l n"
    and "tx_ring_budget tf \<noteq> 0 \<Longrightarrow> ring_posted l < tx_ring_budget tf"
  shows "adm_inv tf (tx_mark_posted n l)"
proof -
  note parts = adm_inv_parts [OF assms(1)]
  have n: "n < tx_n l" "n \<notin> set (tx_listed l)" "\<not> hw_posted (tx_frames l n)"
    using assms(2) by (auto simp: tx_held_def)
  have "tx_lists_ok (tx_mark_posted n l) = tx_lists_ok (txf n (\<lambda>f. f\<lparr>hw_posted := True\<rparr>) l)"
    by (rule tx_lists_ok_cong) (simp_all add: tx_mark_posted_def Let_def)
  then have 1: "tx_lists_ok (tx_mark_posted n l)"
    using lists_ok_txf parts(1) n(2) by simp
  have 2: "tx_charge_ok (tx_mark_posted n l) i" if "i < tx_n l" for i
    using parts(2) [OF that] by (auto simp: tx_charge_ok_def tx_mark_posted_def Let_def)
  have "unat (ring_posted l + 1) = cnt ((hw_posted \<circ> tx_frames l)(n := True)) (tx_n l)"
    using parts(3) n by (intro unat_inc_cnt) (simp_all add: tx_counts_ok_def)
  then have 3: "tx_counts_ok (tx_mark_posted n l)"
    using parts(3)
    by (simp add: tx_counts_ok_def tx_mark_posted_def Let_def fun_upd_comp cnt_upd_eq)
  have 4: "tx_budget_ok tf (tx_mark_posted n l)"
    using parts(4) assms(3) by (simp add: tx_budget_ok_def tx_mark_posted_def Let_def inc_le)
  show ?thesis using 1 2 3 4 by (simp add: adm_inv_def tx_mark_posted_def Let_def)
qed

lemma unpost_inv:
  assumes "adm_inv tf l" "i < tx_n l" "hw_posted (tx_frames l i)"
  shows "adm_inv tf (tx_unpost_failed i l)" "tx_held (tx_unpost_failed i l) i"
proof -
  note parts = adm_inv_parts [OF assms(1)]
  have i: "i \<notin> set (tx_listed l)"
    using assms(3) parts(1) by (auto simp: tx_lists_ok_def list_all_iff)
  have nz: "ring_posted l \<noteq> 0" using charged_nonzero(3) assms by blast
  have "tx_lists_ok (tx_unpost_failed i l) = tx_lists_ok (txf i (\<lambda>f. f\<lparr>hw_posted := False\<rparr>) l)"
    by (rule tx_lists_ok_cong) (simp_all add: tx_unpost_failed_def ring_posted_dec_def)
  then have 1: "tx_lists_ok (tx_unpost_failed i l)"
    using lists_ok_txf parts(1) i by simp
  have 2: "tx_charge_ok (tx_unpost_failed i l) j" if "j < tx_n l" for j
    using parts(2) [OF that]
    by (auto simp: tx_charge_ok_def tx_unpost_failed_def ring_posted_dec_def)
  have "unat (ring_posted l - 1) = cnt ((hw_posted \<circ> tx_frames l)(i := False)) (tx_n l)"
    using parts(3) assms(2,3) by (intro unat_dec_cnt) (simp_all add: tx_counts_ok_def)
  then have 3: "tx_counts_ok (tx_unpost_failed i l)"
    using parts(3) nz
    by (simp add: tx_counts_ok_def tx_unpost_failed_def ring_posted_dec_def fun_upd_comp cnt_upd_eq)
  have "ring_posted l - 1 \<le> ring_posted l" using nz by (simp add: word_le_sub1 word_le_nat_alt unat_sub1_word)
  then have 4: "tx_budget_ok tf (tx_unpost_failed i l)"
    using parts(4) nz by (auto simp add: tx_budget_ok_def tx_unpost_failed_def ring_posted_dec_def)
  show "adm_inv tf (tx_unpost_failed i l)"
    using 1 2 3 4 nz by (simp add: adm_inv_def tx_unpost_failed_def ring_posted_dec_def)
  show "tx_held (tx_unpost_failed i l) i"
    using assms i by (simp add: tx_unpost_failed_def ring_posted_dec_def tx_held_def tx_listed_def)
qed


lemma tx_held_upd_charge [simp]:
  "tx_held (txf i (\<lambda>f. f\<lparr>charged_ctrl := b\<rparr>) l) j = tx_held l j"
  "tx_held (txf i (\<lambda>f. f\<lparr>charged_data := b\<rparr>) l) j = tx_held l j"
  by (simp_all add: tx_held_def tx_listed_def)

text \<open>What \<open>tbframe_tx_return_locked\<close> does to a frame that is out of its pool: exactly one counter
  goes down, the frame goes to the tail of the free list.\<close>

lemma tx_return_eq:
  assumes "adm_inv tf l" "i < tx_n l" "i \<notin> set (tx_free l)"
  shows "\<exists>b. snd (tbframe_tx_return_locked i l) =
     (if is_ctrl (tx_frames l i)
      then txf i (\<lambda>f. f\<lparr>charged_ctrl := False\<rparr>)
             (l\<lparr>ctrl_inflight := ctrl_inflight l - 1, tx_free := tx_free l @ [i], tx_blocked := b\<rparr>)
      else txf i (\<lambda>f. f\<lparr>charged_data := False\<rparr>)
             (l\<lparr>data_inflight := data_inflight l - 1, tx_free := tx_free l @ [i], tx_blocked := b\<rparr>))"
proof -
  note ch = held_charge [OF assms]
  show ?thesis
  proof (cases "is_ctrl (tx_frames l i)")
    case True
    then have "ctrl_inflight l \<noteq> 0" using charged_nonzero(1) [OF assms(1,2)] ch by simp
    then show ?thesis using ch True
      by (intro exI [of _ "tx_blocked (snd (tbframe_tx_return_locked i l))"])
        (simp add: tbframe_tx_return_locked_def tx_uncharge_ctrl_def tx_uncharge_data_def Let_def
          txf_def)
  next
    case False
    then have "data_inflight l \<noteq> 0" using charged_nonzero(2) [OF assms(1,2)] ch by simp
    then show ?thesis using ch False
      by (intro exI [of _ "tx_blocked (snd (tbframe_tx_return_locked i l))"])
        (simp add: tbframe_tx_return_locked_def tx_uncharge_ctrl_def tx_uncharge_data_def Let_def
          txf_def)
  qed
qed

lemma tx_return_sel [simp]:
  "refcnt (snd (tbframe_tx_return_locked i l)) = refcnt l"
  "tx_free (snd (tbframe_tx_return_locked i l)) = tx_free l @ [i]"
  "txq_ctrl (snd (tbframe_tx_return_locked i l)) = txq_ctrl l"
  "txq_data (snd (tbframe_tx_return_locked i l)) = txq_data l"
  "ring_posted (snd (tbframe_tx_return_locked i l)) = ring_posted l"
  "tx_frame_count (snd (tbframe_tx_return_locked i l)) = tx_frame_count l"
  "rx_frame_count (snd (tbframe_tx_return_locked i l)) = rx_frame_count l"
  "rx_free (snd (tbframe_tx_return_locked i l)) = rx_free l"
  "hw_posted (tx_frames (snd (tbframe_tx_return_locked i l)) j) = hw_posted (tx_frames l j)"
  "is_ctrl (tx_frames (snd (tbframe_tx_return_locked i l)) j) = is_ctrl (tx_frames l j)"
  by (simp_all add: tbframe_tx_return_locked_def tx_uncharge_ctrl_def tx_uncharge_data_def Let_def)

lemma tx_return_inv:
  assumes "adm_inv tf l" "tx_held l i"
  shows "adm_inv tf (snd (tbframe_tx_return_locked i l))"
proof -
  note parts = adm_inv_parts [OF assms(1)]
  have i: "i < tx_n l" "i \<notin> set (tx_listed l)" "\<not> hw_posted (tx_frames l i)" "i \<notin> set (tx_free l)"
    using assms(2) by (auto simp: tx_held_def tx_listed_def)
  note ch = held_charge [OF assms(1) i(1,4)]
  let ?l = "snd (tbframe_tx_return_locked i l)"
  have 1: "tx_lists_ok ?l"
    using parts(1) i by (auto simp: tx_lists_ok_def tx_listed_def list_all_iff)
  have 4: "tx_budget_ok tf ?l" using parts(4) by (simp add: tx_budget_ok_def)
  have hp: "hw_posted \<circ> tx_frames ?l = hw_posted \<circ> tx_frames l" by auto
  obtain b where e: "?l =
     (if is_ctrl (tx_frames l i)
      then txf i (\<lambda>f. f\<lparr>charged_ctrl := False\<rparr>)
             (l\<lparr>ctrl_inflight := ctrl_inflight l - 1, tx_free := tx_free l @ [i], tx_blocked := b\<rparr>)
      else txf i (\<lambda>f. f\<lparr>charged_data := False\<rparr>)
             (l\<lparr>data_inflight := data_inflight l - 1, tx_free := tx_free l @ [i], tx_blocked := b\<rparr>))"
    using tx_return_eq [OF assms(1) i(1,4)] by blast
  have 2: "tx_charge_ok ?l j" if "j < tx_n l" for j
    using parts(2) [OF that] ch unfolding e by (auto simp: tx_charge_ok_def)
  have c: "unat (ctrl_inflight l - 1) = cnt ((charged_ctrl \<circ> tx_frames l)(i := False)) (tx_n l)"
    if "is_ctrl (tx_frames l i)"
    using parts(3) i(1) ch that by (intro unat_dec_cnt) (simp_all add: tx_counts_ok_def)
  have d: "unat (data_inflight l - 1) = cnt ((charged_data \<circ> tx_frames l)(i := False)) (tx_n l)"
    if "\<not> is_ctrl (tx_frames l i)"
    using parts(3) i(1) ch that by (intro unat_dec_cnt) (simp_all add: tx_counts_ok_def)
  have 3: "tx_counts_ok ?l"
    using parts(3) c d ch hp unfolding tx_counts_ok_def
    by (cases "is_ctrl (tx_frames l i)") (simp_all add: e fun_upd_comp cnt_upd_eq)
  show ?thesis using 1 2 3 4 by (simp add: adm_inv_def)
qed

lemma dequeue_inv:
  assumes "adm_inv tf l"
  shows "txq_ctrl l = n # cs \<Longrightarrow> adm_inv tf (l\<lparr>txq_ctrl := cs\<rparr>) \<and> tx_held (l\<lparr>txq_ctrl := cs\<rparr>) n"
    and "txq_data l = n # ds \<Longrightarrow> adm_inv tf (l\<lparr>txq_data := ds\<rparr>) \<and> tx_held (l\<lparr>txq_data := ds\<rparr>) n"
  using assms by (auto simp: adm_defs)

lemma enqueue_inv:
  assumes "adm_inv tf l" "tx_held l i" "tx_ring_budget tf \<noteq> 0"
  shows "adm_inv tf (tx_enqueue i l)"
  using assms by (auto simp: tx_enqueue_def adm_defs)


lemma alloc_take_inv:
  assumes "adm_inv tf l" "tx_free l = f # fs"
  shows "adm_inv tf (alloc_take len ctrl f (l\<lparr>tx_free := fs\<rparr>))"
    and "tx_held (alloc_take len ctrl f (l\<lparr>tx_free := fs\<rparr>)) f"
proof -
  note parts = adm_inv_parts [OF assms(1)]
  have f: "f < tx_n l" "f \<notin> set fs" "f \<notin> set (txq_ctrl l)" "f \<notin> set (txq_data l)"
    "\<not> hw_posted (tx_frames l f)"
    using parts(1) assms(2) by (auto simp: tx_lists_ok_def tx_listed_def)
  have un: "\<not> charged_ctrl (tx_frames l f)" "\<not> charged_data (tx_frames l f)"
    using parts(2) [OF f(1)] assms(2) by (auto simp: tx_charge_ok_def)
  let ?l = "alloc_take len ctrl f (l\<lparr>tx_free := fs\<rparr>)"
  have sel: "tx_free ?l = fs" "txq_ctrl ?l = txq_ctrl l" "txq_data ?l = txq_data l"
    "tx_frame_count ?l = tx_frame_count l" "ring_posted ?l = ring_posted l"
    "tx_frames ?l = (tx_frames l)(f := (tx_frames l f)\<lparr>charged_ctrl := ctrl, charged_data := \<not> ctrl,
        flen := len, fpdf := TBFRAME_PDF_DATA, is_ctrl := ctrl\<rparr>)"
    "ctrl_inflight ?l = (if ctrl then ctrl_inflight l + 1 else ctrl_inflight l)"
    "data_inflight ?l = (if ctrl then data_inflight l else data_inflight l + 1)"
    using un by (auto simp: alloc_take_def Let_def)
  have 1: "tx_lists_ok ?l"
    using parts(1) f assms(2) unfolding tx_lists_ok_def tx_listed_def sel
    by (auto simp: list_all_iff)
  have 2: "tx_charge_ok ?l i" if "i < tx_n l" for i
    using parts(2) [OF that] f(2) assms(2) unfolding tx_charge_ok_def sel by auto
  have "unat (ctrl_inflight l + 1) = cnt ((charged_ctrl \<circ> tx_frames l)(f := True)) (tx_n l)"
    "unat (data_inflight l + 1) = cnt ((charged_data \<circ> tx_frames l)(f := True)) (tx_n l)"
    using parts(3) f(1) un by (auto intro!: unat_inc_cnt simp: tx_counts_ok_def)
  then have 3: "tx_counts_ok ?l"
    using parts(3) un unfolding tx_counts_ok_def sel
    by (cases ctrl) (simp_all add: fun_upd_comp cnt_upd_eq)
  have 4: "tx_budget_ok tf ?l" using parts(4) unfolding tx_budget_ok_def sel by simp
  show "adm_inv tf ?l" using 1 2 3 4 by (simp add: adm_inv_def sel)
  show "tx_held ?l f" using f by (simp add: tx_held_def tx_listed_def sel)
qed

section \<open>Completion\<close>

text \<open>A cancelled completion never reaches the hardware: it returns its frame and, once, the whole
  backlog.\<close>

definition tx_cancel1 :: "nat \<Rightarrow> tbframe_link \<Rightarrow> tbframe_link" where
  "tx_cancel1 i l = tbframe_link_put (snd (tbframe_tx_return_locked i (tx_complete_unpost i True l)))"

definition tx_cancel :: "tbframe \<Rightarrow> nat \<Rightarrow> tbframe_link \<Rightarrow> tbframe_link" where
  "tx_cancel tf i l =
    (let l = snd (tbframe_tx_return_locked i (tx_complete_unpost i True l));
         (next, flush, l) = tx_refill tf True l
     in tbframe_link_put (fold tx_cancel1 flush l))"

lemma hw_active_inc_sel [simp]:
  "tx_frames (hw_active_inc l) = tx_frames l" "tx_free (hw_active_inc l) = tx_free l"
  "txq_ctrl (hw_active_inc l) = txq_ctrl l" "txq_data (hw_active_inc l) = txq_data l"
  "ctrl_inflight (hw_active_inc l) = ctrl_inflight l" "data_inflight (hw_active_inc l) = data_inflight l"
  "ring_posted (hw_active_inc l) = ring_posted l" "tx_blocked (hw_active_inc l) = tx_blocked l"
  "lstate (hw_active_inc l) = lstate l" "removing (hw_active_inc l) = removing l"
  "rings_up (hw_active_inc l) = rings_up l"
  "data_tx_canceled (hw_active_inc l) = data_tx_canceled l" "data_tx_done (hw_active_inc l) = data_tx_done l"
  by (simp_all add: hw_active_inc_def)

lemma hw_active_inc_upd:
  "(hw_active_inc l)\<lparr>tx_free := a\<rparr> = hw_active_inc (l\<lparr>tx_free := a\<rparr>)"
  "(hw_active_inc l)\<lparr>txq_ctrl := a\<rparr> = hw_active_inc (l\<lparr>txq_ctrl := a\<rparr>)"
  "(hw_active_inc l)\<lparr>txq_data := a\<rparr> = hw_active_inc (l\<lparr>txq_data := a\<rparr>)"
  "(hw_active_inc l)\<lparr>ctrl_inflight := b\<rparr> = hw_active_inc (l\<lparr>ctrl_inflight := b\<rparr>)"
  "(hw_active_inc l)\<lparr>data_inflight := b\<rparr> = hw_active_inc (l\<lparr>data_inflight := b\<rparr>)"
  "(hw_active_inc l)\<lparr>ring_posted := b\<rparr> = hw_active_inc (l\<lparr>ring_posted := b\<rparr>)"
  "(hw_active_inc l)\<lparr>tx_blocked := c\<rparr> = hw_active_inc (l\<lparr>tx_blocked := c\<rparr>)"
  "(hw_active_inc l)\<lparr>data_tx_canceled := d\<rparr> = hw_active_inc (l\<lparr>data_tx_canceled := d\<rparr>)"
  "(hw_active_inc l)\<lparr>data_tx_done := d\<rparr> = hw_active_inc (l\<lparr>data_tx_done := d\<rparr>)"
  "txf i g (hw_active_inc l) = hw_active_inc (txf i g l)"
  by (simp_all add: hw_active_inc_def txf_def)

lemma hw_active_dec_inc [simp]: "hw_active_dec (hw_active_inc l) = l"
  by (simp add: hw_active_inc_def hw_active_dec_def)

lemma hw_active_unpost:
  "tx_complete_unpost i c (hw_active_inc l) = hw_active_inc (tx_complete_unpost i c l)"
  by (cases "hw_posted (tx_frames l i)"; cases "ring_posted l = 0"; cases c)
    (simp_all add: tx_complete_unpost_def ring_posted_dec_def hw_active_inc_upd)

lemma hw_active_uncharge:
  "tx_uncharge_ctrl i (hw_active_inc l) = hw_active_inc (tx_uncharge_ctrl i l)"
  "tx_uncharge_data i (hw_active_inc l) = hw_active_inc (tx_uncharge_data i l)"
  by (simp_all add: tx_uncharge_ctrl_def tx_uncharge_data_def hw_active_inc_upd)

lemma hw_active_return:
  "tbframe_tx_return_locked i (hw_active_inc l) = map_prod id hw_active_inc (tbframe_tx_return_locked i l)"
  by (simp add: tbframe_tx_return_locked_def hw_active_uncharge hw_active_inc_upd Let_def)

lemma hw_active_refill:
  "tx_refill tf True (hw_active_inc l) =
     (None, fst (snd (tx_refill tf True l)), hw_active_inc (snd (snd (tx_refill tf True l))))"
  by (simp add: tx_refill_def hw_active_inc_upd)

lemmas hw_active_move = hw_active_unpost hw_active_return hw_active_refill

lemma tx_complete_cancel:
  "tx_complete_rec (Suc d) ops tf i True w =
    upd tbframe_link_put (fold (\<lambda>q. tx_complete_rec d ops tf q True)
      (fst (snd (tx_refill tf True (snd (tbframe_tx_return_locked i (tx_complete_unpost i True (lnk w)))))))
      (upd (\<lambda>l. snd (snd (tx_refill tf True (snd (tbframe_tx_return_locked i (tx_complete_unpost i True l)))))) w))"
  by (simp add: tx_complete_rec.simps(2) Let_def case_prod_beta hw_active_move upd_def)

definition tx_out :: "tbframe_link \<Rightarrow> nat \<Rightarrow> bool" where
  "tx_out l i = (i < tx_n l \<and> i \<notin> set (tx_listed l))"

definition pool_inv :: "tbframe \<Rightarrow> nat \<Rightarrow> tbframe_link \<Rightarrow> bool" where
  "pool_inv tf k l = (adm_inv tf l \<and> ref_inv k l)"

lemma pool_inv_upd [simp]:
  "pool_inv tf k (l\<lparr>lstate := v_lstate\<rparr>) = pool_inv tf k l"
  "pool_inv tf k (l\<lparr>removing := v_removing\<rparr>) = pool_inv tf k l"
  "pool_inv tf k (l\<lparr>parked := v_parked\<rparr>) = pool_inv tf k l"
  "pool_inv tf k (l\<lparr>hello_done := v_hello_done\<rparr>) = pool_inv tf k l"
  "pool_inv tf k (l\<lparr>rings_allocated := v_rings_allocated\<rparr>) = pool_inv tf k l"
  "pool_inv tf k (l\<lparr>rings_up := v_rings_up\<rparr>) = pool_inv tf k l"
  "pool_inv tf k (l\<lparr>paths_enabled := v_paths_enabled\<rparr>) = pool_inv tf k l"
  "pool_inv tf k (l\<lparr>paths_owned := v_paths_owned\<rparr>) = pool_inv tf k l"
  "pool_inv tf k (l\<lparr>terminal_handoff := v_terminal_handoff\<rparr>) = pool_inv tf k l"
  "pool_inv tf k (l\<lparr>in_hopid_held := v_in_hopid_held\<rparr>) = pool_inv tf k l"
  "pool_inv tf k (l\<lparr>tx_quiesced := v_tx_quiesced\<rparr>) = pool_inv tf k l"
  "pool_inv tf k (l\<lparr>active_remote_hopid := v_active_remote_hopid\<rparr>) = pool_inv tf k l"
  "pool_inv tf k (l\<lparr>hs := v_hs\<rparr>) = pool_inv tf k l"
  "pool_inv tf k (l\<lparr>hello_responder := v_hello_responder\<rparr>) = pool_inv tf k l"
  "pool_inv tf k (l\<lparr>ready_responder := v_ready_responder\<rparr>) = pool_inv tf k l"
  "pool_inv tf k (l\<lparr>hello_selection_pending := v_hello_selection_pending\<rparr>) = pool_inv tf k l"
  "pool_inv tf k (l\<lparr>hello_selection_caps := v_hello_selection_caps\<rparr>) = pool_inv tf k l"
  "pool_inv tf k (l\<lparr>request_seq := v_request_seq\<rparr>) = pool_inv tf k l"
  "pool_inv tf k (l\<lparr>hello_attempts := v_hello_attempts\<rparr>) = pool_inv tf k l"
  "pool_inv tf k (l\<lparr>last_reannounce := v_last_reannounce\<rparr>) = pool_inv tf k l"
  "pool_inv tf k (l\<lparr>needs_down := v_needs_down\<rparr>) = pool_inv tf k l"
  "pool_inv tf k (l\<lparr>down_reason := v_down_reason\<rparr>) = pool_inv tf k l"
  "pool_inv tf k (l\<lparr>announce_pending := v_announce_pending\<rparr>) = pool_inv tf k l"
  "pool_inv tf k (l\<lparr>up_delivered := v_up_delivered\<rparr>) = pool_inv tf k l"
  "pool_inv tf k (l\<lparr>data_rx := v_data_rx\<rparr>) = pool_inv tf k l"
  "pool_inv tf k (l\<lparr>data_rx_tick_mark := v_data_rx_tick_mark\<rparr>) = pool_inv tf k l"
  "pool_inv tf k (l\<lparr>data_rx_proven := v_data_rx_proven\<rparr>) = pool_inv tf k l"
  "pool_inv tf k (l\<lparr>data_tx_proven := v_data_tx_proven\<rparr>) = pool_inv tf k l"
  "pool_inv tf k (l\<lparr>keepalive_tx_seq := v_keepalive_tx_seq\<rparr>) = pool_inv tf k l"
  "pool_inv tf k (l\<lparr>keepalive_tx_acked := v_keepalive_tx_acked\<rparr>) = pool_inv tf k l"
  "pool_inv tf k (l\<lparr>keepalive_tx_ack_mark := v_keepalive_tx_ack_mark\<rparr>) = pool_inv tf k l"
  "pool_inv tf k (l\<lparr>keepalive_peer_seq := v_keepalive_peer_seq\<rparr>) = pool_inv tf k l"
  "pool_inv tf k (l\<lparr>data_rx_bad := v_data_rx_bad\<rparr>) = pool_inv tf k l"
  "pool_inv tf k (l\<lparr>data_rx_oversize := v_data_rx_oversize\<rparr>) = pool_inv tf k l"
  "pool_inv tf k (l\<lparr>data_rx_stale := v_data_rx_stale\<rparr>) = pool_inv tf k l"
  "pool_inv tf k (l\<lparr>data_rx_bad_cookie := v_data_rx_bad_cookie\<rparr>) = pool_inv tf k l"
  "pool_inv tf k (l\<lparr>data_rx_prior_cookie := v_data_rx_prior_cookie\<rparr>) = pool_inv tf k l"
  "pool_inv tf k (l\<lparr>data_tx_done := v_data_tx_done\<rparr>) = pool_inv tf k l"
  "pool_inv tf k (l\<lparr>data_tx_submitted := v_data_tx_submitted\<rparr>) = pool_inv tf k l"
  "pool_inv tf k (l\<lparr>data_tx_refused := v_data_tx_refused\<rparr>) = pool_inv tf k l"
  "pool_inv tf k (l\<lparr>data_tx_ring_err := v_data_tx_ring_err\<rparr>) = pool_inv tf k l"
  "pool_inv tf k (l\<lparr>data_tx_canceled := v_data_tx_canceled\<rparr>) = pool_inv tf k l"
  "pool_inv tf k (l\<lparr>data_proven := v_data_proven\<rparr>) = pool_inv tf k l"
  "pool_inv tf k (l\<lparr>data_proof_unavailable_warned := v_data_proof_unavailable_warned\<rparr>) = pool_inv tf k l"
  "pool_inv tf k (l\<lparr>data_generation := v_data_generation\<rparr>) = pool_inv tf k l"
  "pool_inv tf k (l\<lparr>probe_attempts := v_probe_attempts\<rparr>) = pool_inv tf k l"
  "pool_inv tf k (l\<lparr>probe_failures := v_probe_failures\<rparr>) = pool_inv tf k l"
  "pool_inv tf k (l\<lparr>stale_drain_active := v_stale_drain_active\<rparr>) = pool_inv tf k l"
  "pool_inv tf k (l\<lparr>stale_drain_budget := v_stale_drain_budget\<rparr>) = pool_inv tf k l"
  "pool_inv tf k (l\<lparr>silent_ticks := v_silent_ticks\<rparr>) = pool_inv tf k l"
  "pool_inv tf k (l\<lparr>tx_silent_ticks := v_tx_silent_ticks\<rparr>) = pool_inv tf k l"
  "pool_inv tf k (l\<lparr>data_path_sample_valid := v_data_path_sample_valid\<rparr>) = pool_inv tf k l"
  "pool_inv tf k (l\<lparr>data_window := v_data_window\<rparr>) = pool_inv tf k l"
  "pool_inv tf k (l\<lparr>tx_blocked := v_tx_blocked\<rparr>) = pool_inv tf k l"
  "pool_inv tf k (l\<lparr>e2e_active := v_e2e_active\<rparr>) = pool_inv tf k l"
  "pool_inv tf k (l\<lparr>hw_active := v_hw_active\<rparr>) = pool_inv tf k l"
  "pool_inv tf k (l\<lparr>rx_frames := v_rx_frames\<rparr>) = pool_inv tf k l"
  "pool_inv tf k (l\<lparr>link_id := v_link_id\<rparr>) = pool_inv tf k l"
  "pool_inv tf k (l\<lparr>lroute := v_lroute\<rparr>) = pool_inv tf k l"
  "pool_inv tf k (l\<lparr>local_hopid := v_local_hopid\<rparr>) = pool_inv tf k l"
  "pool_inv tf k (l\<lparr>local_cookie := v_local_cookie\<rparr>) = pool_inv tf k l"
  "pool_inv tf k (l\<lparr>local_gid_eui64 := v_local_gid_eui64\<rparr>) = pool_inv tf k l"
  "pool_inv tf k (l\<lparr>remote_hopid := v_remote_hopid\<rparr>) = pool_inv tf k l"
  "pool_inv tf k (l\<lparr>remote_rx_entries := v_remote_rx_entries\<rparr>) = pool_inv tf k l"
  "pool_inv tf k (l\<lparr>remote_caps := v_remote_caps\<rparr>) = pool_inv tf k l"
  "pool_inv tf k (l\<lparr>remote_cookie := v_remote_cookie\<rparr>) = pool_inv tf k l"
  "pool_inv tf k (l\<lparr>previous_remote_cookie := v_previous_remote_cookie\<rparr>) = pool_inv tf k l"
  "pool_inv tf k (l\<lparr>remote_gid_eui64 := v_remote_gid_eui64\<rparr>) = pool_inv tf k l"
  "pool_inv tf k (l\<lparr>session_work := v_session_work\<rparr>) = pool_inv tf k l"
  "pool_inv tf k (l\<lparr>verify_timer := v_verify_timer\<rparr>) = pool_inv tf k l"
  "pool_inv tf k (l\<lparr>verify_work := v_verify_work\<rparr>) = pool_inv tf k l"
  "pool_inv tf k (l\<lparr>tx_released_work := v_tx_released_work\<rparr>) = pool_inv tf k l"
  by (simp_all add: pool_inv_def)

lemma tx_refill_idle:
  assumes "txq_ctrl l = []" "txq_data l = []"
  shows "tx_refill tf True l = (None, [], l)"
proof -
  have "l\<lparr>txq_ctrl := [], txq_data := []\<rparr> = l" using assms by (cases l) simp
  then show ?thesis using assms by (simp add: tx_refill_def)
qed

lemma tx_unpost_sel [simp]:
  "txq_ctrl (tx_complete_unpost i c l) = txq_ctrl l" "txq_data (tx_complete_unpost i c l) = txq_data l"
  "tx_free (tx_complete_unpost i c l) = tx_free l" "tx_frame_count (tx_complete_unpost i c l) = tx_frame_count l"
  "rx_free (tx_complete_unpost i c l) = rx_free l" "rx_frame_count (tx_complete_unpost i c l) = rx_frame_count l"
  "refcnt (tx_complete_unpost i c l) = refcnt l"
  by (simp_all add: tx_complete_unpost_def Let_def ring_posted_dec_def)

lemma tx_put_sel [simp]:
  "txq_ctrl (tbframe_link_put l) = txq_ctrl l" "txq_data (tbframe_link_put l) = txq_data l"
  "tx_free (tbframe_link_put l) = tx_free l" "tx_frame_count (tbframe_link_put l) = tx_frame_count l"
  "rx_free (tbframe_link_put l) = rx_free l" "rx_frame_count (tbframe_link_put l) = rx_frame_count l"
  "refcnt (tbframe_link_put l) = refcnt l - 1"
  "adm_inv tf (tbframe_link_put l) = adm_inv tf l" "tx_held (tbframe_link_put l) i = tx_held l i"
  by (simp_all add: tbframe_link_put_def)

lemma tx_cancel1_sel [simp]:
  "txq_ctrl (tx_cancel1 i l) = txq_ctrl l" "txq_data (tx_cancel1 i l) = txq_data l"
  "tx_free (tx_cancel1 i l) = tx_free l @ [i]" "tx_frame_count (tx_cancel1 i l) = tx_frame_count l"
  "rx_free (tx_cancel1 i l) = rx_free l" "rx_frame_count (tx_cancel1 i l) = rx_frame_count l"
  by (simp_all add: tx_cancel1_def)

lemma upd_upd [simp]: "upd f (upd g w) = upd (\<lambda>l. f (g l)) w"
  by (simp add: upd_def)

lemma upd_cong_lnk: "f (lnk w) = g (lnk w) \<Longrightarrow> upd f w = upd g w"
  by (simp add: upd_def)

lemma tx_complete_cancel1:
  assumes "txq_ctrl (lnk w) = []" "txq_data (lnk w) = []"
  shows "tx_complete_rec (Suc d) ops tf i True w = upd (tx_cancel1 i) w"
  unfolding tx_complete_cancel using assms
  by (simp add: tx_refill_idle tx_cancel1_def cong: upd_cong_lnk)

lemma tx_complete_flush:
  "txq_ctrl (lnk w) = [] \<Longrightarrow> txq_data (lnk w) = [] \<Longrightarrow>
    fold (\<lambda>q. tx_complete_rec (Suc d) ops tf q True) qs w = upd (fold tx_cancel1 qs) w"
  by (induction qs arbitrary: w) (simp_all add: tx_complete_cancel1 upd_def)

lemma tx_complete_cancel2:
  "tx_complete_rec (Suc (Suc d)) ops tf i True w = upd (tx_cancel tf i) w"
proof -
  let ?l = "snd (tbframe_tx_return_locked i (tx_complete_unpost i True (lnk w)))"
  have "fst (snd (tx_refill tf True ?l)) = [] \<or>
      txq_ctrl (snd (snd (tx_refill tf True ?l))) = [] \<and> txq_data (snd (snd (tx_refill tf True ?l))) = []"
    by (simp add: tx_refill_def)
  then show ?thesis
    unfolding tx_complete_cancel [of "Suc d"]
    by (auto simp: tx_complete_flush tx_cancel_def Let_def case_prod_beta upd_def)
qed

lemma tx_complete_enough:
  "tx_complete_rec (Suc (Suc (Suc d))) ops tf i c w = tbframe_core_tx_complete ops tf i c w"
proof -
  have eq: "tx_complete_rec (Suc (Suc e)) ops tf q True = upd (tx_cancel tf q)" for e q
    by (rule ext) (rule tx_complete_cancel2)
  show ?thesis
    unfolding tbframe_core_tx_complete_def numeral_3_eq_3 tx_complete_rec.simps(2) [of "Suc (Suc d)"]
      tx_complete_rec.simps(2) [of "Suc (Suc 0)"] eq ..
qed

lemma tx_complete_canceled: "tbframe_core_tx_complete ops tf i True w = upd (tx_cancel tf i) w"
  by (simp add: tbframe_core_tx_complete_def numeral_3_eq_3 tx_complete_cancel2)

lemma put_inv:
  assumes "pool_inv tf (Suc k) l"
  shows "pool_inv tf k (tbframe_link_put l)"
  using assms by (simp add: pool_inv_def ref_inv_def)

text \<open>Taking a frame off the ring and returning it to its pool leaves one reference to drop.\<close>

lemma tx_complete_unpost_held:
  assumes "adm_inv tf l" "tx_out l i"
  shows "adm_inv tf (tx_complete_unpost i c l)" "tx_held (tx_complete_unpost i c l) i"
proof -
  define l' where "l' = (if c then l\<lparr>data_tx_canceled := data_tx_canceled l + 1\<rparr>
     else l\<lparr>data_tx_done := data_tx_done l + 1\<rparr>)"
  have e: "tx_complete_unpost i c l = (if hw_posted (tx_frames l i) then tx_unpost_failed i l' else l)"
    by (simp add: tx_complete_unpost_def tx_unpost_failed_def l'_def)
  have l': "adm_inv tf l'" "tx_frames l' = tx_frames l" "tx_frame_count l' = tx_frame_count l"
    using assms by (simp_all add: l'_def)
  show "adm_inv tf (tx_complete_unpost i c l)" "tx_held (tx_complete_unpost i c l) i"
    using unpost_inv [OF l'(1), of i] assms l' unfolding e
    by (auto simp: tx_out_def tx_held_def)
qed

lemma tx_out_return:
  assumes "tx_out l i" "pool_inv tf k l"
  shows "pool_inv tf (Suc k) (snd (tbframe_tx_return_locked i (tx_complete_unpost i c l)))"
proof -
  have a: "adm_inv tf l" and r: "ref_inv k l" using assms by (simp_all add: pool_inv_def)
  have "length (tx_free l) < tx_n l"
    using a assms(1) by (intro free_list_room [of _ _ i]) (auto simp: adm_defs tx_out_def list_all_iff)
  then have "ref_inv (Suc k) (snd (tbframe_tx_return_locked i (tx_complete_unpost i c l)))"
    using r by (simp add: ref_inv_def)
  then show ?thesis
    using tx_return_inv tx_complete_unpost_held [OF a assms(1)] by (simp add: pool_inv_def)
qed

lemma tx_cancel1_inv:
  "pool_inv tf k l \<Longrightarrow> tx_out l i \<Longrightarrow> pool_inv tf k (tx_cancel1 i l)"
  using tx_out_return put_inv by (simp add: tx_cancel1_def)

lemma tx_cancel1_out: "tx_out l j \<Longrightarrow> j \<noteq> i \<Longrightarrow> tx_out (tx_cancel1 i l) j"
  by (simp add: tx_out_def tx_listed_def)

lemma fold_cancel1_inv:
  assumes "pool_inv tf k l" "distinct qs" "\<forall>q \<in> set qs. tx_out l q"
  shows "pool_inv tf k (fold tx_cancel1 qs l)"
  using assms
proof (induction qs arbitrary: l)
  case (Cons q qs)
  then show ?case by (auto simp: tx_cancel1_inv intro!: Cons.IH tx_cancel1_out)
qed simp

lemma fold_cancel1_sel [simp]:
  "txq_ctrl (fold tx_cancel1 qs l) = txq_ctrl l" "txq_data (fold tx_cancel1 qs l) = txq_data l"
  "tx_free (fold tx_cancel1 qs l) = tx_free l @ qs"
  "tx_frame_count (fold tx_cancel1 qs l) = tx_frame_count l"
  by (induction qs arbitrary: l) simp_all

text \<open>Emptying the backlog: its frames are out, distinct, and the lists stay well formed.\<close>

lemma flush_inv:
  assumes "pool_inv tf k l"
  shows "pool_inv tf k (l\<lparr>txq_ctrl := [], txq_data := []\<rparr>)"
    and "distinct (txq_data l @ txq_ctrl l)"
    and "\<forall>q \<in> set (txq_data l @ txq_ctrl l). tx_out (l\<lparr>txq_ctrl := [], txq_data := []\<rparr>) q"
  using assms by (auto simp: pool_inv_def adm_defs tx_out_def list_all_iff)

lemma tx_cancel_eq:
  "tx_cancel tf i l =
    (let l' = snd (tbframe_tx_return_locked i (tx_complete_unpost i True l))
     in if tx_ring_budget tf \<noteq> 0
        then tbframe_link_put (fold tx_cancel1 (txq_data l @ txq_ctrl l)
               (l'\<lparr>txq_ctrl := [], txq_data := []\<rparr>))
        else tbframe_link_put l')"
  by (simp add: tx_cancel_def tx_refill_def Let_def)

lemma tx_cancel_inv:
  assumes "pool_inv tf k l" "tx_out l i"
  shows "pool_inv tf k (tx_cancel tf i l)"
proof -
  let ?l = "snd (tbframe_tx_return_locked i (tx_complete_unpost i True l))"
  have r: "pool_inv tf (Suc k) ?l" by (rule tx_out_return [OF assms(2,1)])
  have "pool_inv tf (Suc k) (fold tx_cancel1 (txq_data ?l @ txq_ctrl ?l)
      (?l\<lparr>txq_ctrl := [], txq_data := []\<rparr>))"
    using flush_inv [OF r] by (intro fold_cancel1_inv)
  then show ?thesis using r put_inv by (simp add: tx_cancel_eq Let_def)
qed

lemma tx_cancel_sel [simp]:
  "tx_free (tx_cancel tf i l) =
     tx_free l @ i # (if tx_ring_budget tf = 0 then [] else txq_data l @ txq_ctrl l)"
  "txq_ctrl (tx_cancel tf i l) = (if tx_ring_budget tf = 0 then txq_ctrl l else [])"
  "txq_data (tx_cancel tf i l) = (if tx_ring_budget tf = 0 then txq_data l else [])"
  "tx_frame_count (tx_cancel tf i l) = tx_frame_count l"
  by (simp_all add: tx_cancel_eq Let_def)

text \<open>A completed frame frees its ring slot, so a refill stays within the budget.\<close>

lemma tx_refill_done_inv:
  assumes "pool_inv tf k l" "tx_ring_budget tf \<noteq> 0 \<longrightarrow> ring_posted l < tx_ring_budget tf"
  shows "pool_inv tf k (snd (snd (tx_refill tf False l)))"
    and "fst (snd (tx_refill tf False l)) = []"
    and "\<And>n. fst (tx_refill tf False l) = Some n \<Longrightarrow>
           n < tx_n l \<and> hw_posted (tx_frames (snd (snd (tx_refill tf False l))) n)"
proof -
  have a: "adm_inv tf l" "ref_inv k l" using assms by (simp_all add: pool_inv_def)
  have c: "adm_inv tf (tx_mark_posted n (l\<lparr>txq_ctrl := cs\<rparr>))" if "txq_ctrl l = n # cs" for n cs
    using dequeue_inv(1) [OF a(1) that] assms(2) by (intro mark_posted_inv) simp_all
  have d: "adm_inv tf (tx_mark_posted n (l\<lparr>txq_data := ds\<rparr>))" if "txq_data l = n # ds" for n ds
    using dequeue_inv(2) [OF a(1) that] assms(2) by (intro mark_posted_inv) simp_all
  show "pool_inv tf k (snd (snd (tx_refill tf False l)))"
    using a c d
    by (auto simp: tx_refill_def pool_inv_def split: list.split)
       (auto simp: ref_inv_def tx_mark_posted_def Let_def)
  show "fst (snd (tx_refill tf False l)) = []"
    by (simp add: tx_refill_def split: list.split)
  show "n < tx_n l \<and> hw_posted (tx_frames (snd (snd (tx_refill tf False l))) n)"
    if "fst (tx_refill tf False l) = Some n" for n
    using that a(1)
    by (auto simp: tx_refill_def tx_mark_posted_def Let_def adm_defs split: list.splits if_splits)
qed

lemma tx_complete_done:
  "tbframe_core_tx_complete ops tf i False w =
    (let l = snd (tbframe_tx_return_locked i (tx_complete_unpost i False (hw_active_inc (lnk w))));
         release = fst (tbframe_tx_return_locked i (tx_complete_unpost i False (hw_active_inc (lnk w))));
         (next, flush, l) = tx_refill tf False l;
         w = w\<lparr>lnk := l\<rparr>;
         w = (case next of
                None \<Rightarrow> w
              | Some n \<Rightarrow>
                 (case hw_call (op_ring_tx ops n (tx_frames (lnk w) n)) (ORingTx n) w of
                    (Inr _, w) \<Rightarrow> w
                  | (Inl _, w) \<Rightarrow> upd (tx_cancel tf n) (upd (tx_unpost_failed n) w)))
     in upd (\<lambda>l. tbframe_link_put (if release then (hw_active_dec l)\<lparr>tx_released_work := True\<rparr>
                                    else hw_active_dec l)) w)"
proof -
  have eq: "tx_complete_rec (Suc (Suc e)) ops tf q True = upd (tx_cancel tf q)" for e q
    by (rule ext) (rule tx_complete_cancel2)
  have fl: "fst (snd (tx_refill tf False l)) = []" for l
    by (simp add: tx_refill_def split: list.split)
  show ?thesis
    unfolding tbframe_core_tx_complete_def numeral_3_eq_3 tx_complete_rec.simps(2) eq
    by (simp add: Let_def case_prod_beta fl)
qed

lemma hw_active_inv [simp]:
  "pool_inv tf k (hw_active_inc l) = pool_inv tf k l" "pool_inv tf k (hw_active_dec l) = pool_inv tf k l"
  "tx_out (hw_active_inc l) i = tx_out l i"
  by (simp_all add: pool_inv_def hw_active_inc_def hw_active_dec_def tx_out_def tx_listed_def)

lemma tx_unpost_failed_out:
  "pool_inv tf k l \<Longrightarrow> n < tx_n l \<Longrightarrow> hw_posted (tx_frames l n) \<Longrightarrow>
    pool_inv tf k (tx_unpost_failed n l) \<and> tx_out (tx_unpost_failed n l) n"
  using unpost_inv [of tf l n]
  by (auto simp: pool_inv_def tx_out_def tx_held_def)
     (simp add: ref_inv_def tx_unpost_failed_def ring_posted_dec_def)

lemma unpost_ring_posted:
  assumes "adm_inv tf l" "i < tx_n l" "hw_posted (tx_frames l i)" "tx_ring_budget tf \<noteq> 0"
  shows "ring_posted (tx_complete_unpost i c l) < tx_ring_budget tf"
proof -
  have nz: "ring_posted l \<noteq> 0" using charged_nonzero(3) assms by blast
  have "ring_posted l \<le> tx_ring_budget tf"
    using assms by (simp add: adm_inv_def tx_budget_ok_def)
  moreover have "ring_posted l - 1 < ring_posted l"
    using nz by (simp add: word_less_nat_alt unat_sub1_word unat_gt_0)
  ultimately show ?thesis
    using nz assms(3) by (auto simp: tx_complete_unpost_def Let_def ring_posted_dec_def)
qed

lemma tx_complete_inv:
  assumes "pool_inv tf k (lnk w)" "tx_out (lnk w) i" "c \<or> hw_posted (tx_frames (lnk w) i)"
  shows "pool_inv tf k (lnk (tbframe_core_tx_complete ops tf i c w))"
proof (cases c)
  case True
  then show ?thesis using assms tx_cancel_inv by (simp add: tx_complete_canceled)
next
  case False
  define l0 where "l0 = tx_complete_unpost i False (hw_active_inc (lnk w))"
  define l1 where "l1 = snd (tbframe_tx_return_locked i l0)"
  have inv1: "pool_inv tf (Suc k) l1"
    unfolding l1_def l0_def using assms by (intro tx_out_return) simp_all
  have "tx_ring_budget tf \<noteq> 0 \<longrightarrow> ring_posted l1 < tx_ring_budget tf"
    using assms False unpost_ring_posted [of tf "hw_active_inc (lnk w)" i False]
    by (simp add: l1_def l0_def pool_inv_def tx_out_def hw_active_inc_def)
  note rf = tx_refill_done_inv [OF inv1 this]
  define l2 where "l2 = snd (snd (tx_refill tf False l1))"
  have n: "tx_n l2 = tx_n l1"
    by (simp add: l2_def tx_refill_def tx_mark_posted_def Let_def split: list.split)
  have inv2: "pool_inv tf (Suc k) (tx_cancel tf m (tx_unpost_failed m l2))"
    if "fst (tx_refill tf False l1) = Some m" for m
    using rf(3) [OF that] rf(1) n tx_unpost_failed_out [of tf "Suc k" l2 m] tx_cancel_inv
    by (simp add: l2_def)
  have "pool_inv tf (Suc k) l2" using rf(1) by (simp add: l2_def)
  then show ?thesis
    using inv2 False
    by (auto simp: tx_complete_done Let_def case_prod_beta put_inv simp flip: l0_def l1_def l2_def
          split: option.split sum.split)
qed

definition tx_frame :: "tbframe_link \<Rightarrow> nat \<Rightarrow> tbframe_frame" where
  "tx_frame l i = \<lparr>fr_link = link_id l, fr_rx = False, fr_idx = i\<rparr>"

definition keepalive_fill :: "bool \<Rightarrow> nat \<Rightarrow> tbframe_link \<Rightarrow> tbframe_link" where
  "keepalive_fill directional f l =
    (let l = txf f (\<lambda>x. x\<lparr>fpdf := TBFRAME_PDF_KEEPALIVE\<rparr>) l;
         l = l\<lparr>keepalive_tx_seq := keepalive_tx_seq l + 1\<rparr>;
         keepalive = \<lparr>ka_session_cookie = local_cookie l, ka_sequence = keepalive_tx_seq l,
           ka_ack_cookie = (if keepalive_peer_seq l \<noteq> 0 then remote_cookie l else 0),
           ka_ack_sequence = keepalive_peer_seq l\<rparr>
     in txf f (\<lambda>x. x\<lparr>fdata := (if directional then tbframe_wire_build_keepalive keepalive (fdata x)
                   else tbframe_wire_put_le64 0 (ka_session_cookie keepalive) (fdata x))\<rparr>) l)"

definition tbframe_link_send_keepalive ::
  "'h tbframe_hw_ops \<Rightarrow> tbframe \<Rightarrow> bool \<Rightarrow> 'h world \<Rightarrow> rc \<times> 'h world" where
  "tbframe_link_send_keepalive ops tf pre_up w =
    (let directional = (remote_caps (lnk w) AND TBFRAME_WIRE_CAP_KEEPALIVE_ACK \<noteq> 0);
         keepalive_len = (if directional then TBFRAME_KEEPALIVE_LEN
                          else TBFRAME_WIRE_KEEPALIVE_LEGACY_SIZE)
     in case tbframe_alloc_frame_int keepalive_len True pre_up (lnk w) of
          (Inl e, l) \<Rightarrow> (Inl e, w\<lparr>lnk := l\<rparr>)
        | (Inr f, l) \<Rightarrow>
           (let w = upd (keepalive_fill directional f) (w\<lparr>lnk := l\<rparr>)
            in case tbframe_xmit_int ops tf (tx_frame (lnk w) f) pre_up w of
                 (Inr u, w) \<Rightarrow> (Inr u, w)
               | (Inl e, w) \<Rightarrow> (Inl e, upd (\<lambda>l. tbframe_frame_free (tx_frame l f) l) w)))"

lemma tx_free_le: "adm_inv tf l \<Longrightarrow> length (tx_free l) \<le> tx_n l"
proof -
  assume "adm_inv tf l"
  then have "distinct (tx_free l)" "set (tx_free l) \<subseteq> {..<tx_n l}"
    by (auto simp: adm_defs list_all_iff)
  then show ?thesis by (metis card_lessThan card_mono distinct_card finite_lessThan)
qed

lemma alloc_take_sel [simp]:
  "tx_free (alloc_take len c f l) = tx_free l" "txq_ctrl (alloc_take len c f l) = txq_ctrl l"
  "txq_data (alloc_take len c f l) = txq_data l" "tx_frame_count (alloc_take len c f l) = tx_frame_count l"
  "refcnt (alloc_take len c f l) = refcnt l + 1" "rx_free (alloc_take len c f l) = rx_free l"
  "rx_frame_count (alloc_take len c f l) = rx_frame_count l"
  "hw_posted (tx_frames (alloc_take len c f l) j) = hw_posted (tx_frames l j)"
  by (simp_all add: alloc_take_def Let_def)

lemma alloc_ok_held:
  assumes "pool_inv tf k l" "tbframe_alloc_frame_int len ctrl pre_up l = (Inr f, l')"
  shows "pool_inv tf k l' \<and> \<not> tx_held l f \<and> tx_held l' = (tx_held l)(f := True)"
proof -
  from assms(2) obtain fs where fs: "tx_free l = f # fs" "l' = alloc_take len ctrl f (l\<lparr>tx_free := fs\<rparr>)"
    by (auto simp: tbframe_alloc_frame_int_def split: if_splits list.splits)
  have a: "adm_inv tf l" "ref_inv k l" using assms by (simp_all add: pool_inv_def)
  have "ref_inv k l'" using a(2) tx_free_le [OF a(1)] fs by (simp add: ref_inv_def)
  moreover have "tx_held l' = (tx_held l)(f := True)"
    using alloc_take_inv(2) [OF a(1) fs(1), of len ctrl] fs
    by (auto simp: fun_eq_iff tx_held_def tx_listed_def)
  ultimately show ?thesis
    using alloc_take_inv(1) [OF a(1) fs(1)] fs by (simp add: pool_inv_def tx_held_def tx_listed_def)
qed

lemma alloc_err_held:
  assumes "tbframe_alloc_frame_int len ctrl pre_up l = (Inl e, l')"
  shows "pool_inv tf k l' = pool_inv tf k l \<and> tx_held l' = tx_held l"
  using assms
  by (auto simp: tbframe_alloc_frame_int_def pool_inv_def fun_eq_iff split: if_splits list.splits)

lemma free_held:
  assumes "pool_inv tf k l" "tx_held l f"
  shows "pool_inv tf k (tbframe_frame_free (tx_frame l f) l)
    \<and> tx_held (tbframe_frame_free (tx_frame l f) l) = (tx_held l)(f := False)"
proof -
  have nh: "tx_complete_unpost f True l = l" using assms(2) by (simp add: tx_complete_unpost_def tx_held_def)
  have o: "tx_out l f" using assms(2) by (simp add: tx_out_def tx_held_def)
  have "pool_inv tf (Suc k) (snd (tbframe_tx_return_locked f l))"
    using tx_out_return [OF o assms(1), of True] nh by simp
  then show ?thesis
    by (auto simp: tbframe_frame_free_def tx_frame_def case_prod_beta put_inv Let_def fun_eq_iff)
       (auto simp: tx_held_def tx_listed_def)
qed

lemma mark_posted_held:
  assumes "pool_inv tf k l" "tx_held l f" "tx_ring_budget tf \<noteq> 0 \<longrightarrow> ring_posted l < tx_ring_budget tf"
  shows "pool_inv tf k (tx_mark_posted f l) \<and> tx_held (tx_mark_posted f l) = (tx_held l)(f := False)
    \<and> tx_n (tx_mark_posted f l) = tx_n l \<and> hw_posted (tx_frames (tx_mark_posted f l) f)"
  using mark_posted_inv [of tf l f] assms
  by (auto simp: pool_inv_def fun_eq_iff)
     (auto simp: tx_mark_posted_def Let_def ref_inv_def tx_held_def tx_listed_def split: if_splits)

lemma unpost_held:
  assumes "pool_inv tf k l" "f < tx_n l" "hw_posted (tx_frames l f)"
  shows "pool_inv tf k (tx_unpost_failed f l) \<and> tx_held (tx_unpost_failed f l) = (tx_held l)(f := True)"
proof -
  have "tx_held (tx_unpost_failed f l) f" using unpost_inv(2) [of tf l f] assms by (simp add: pool_inv_def)
  then show ?thesis
    using tx_unpost_failed_out [OF assms]
    by (auto simp: fun_eq_iff)
      (auto simp: tx_unpost_failed_def ring_posted_dec_def tx_held_def tx_listed_def split: if_splits)
qed

lemma tx_held_fun_upd [simp]:
  "tx_held (hw_active_inc l) = tx_held l" "tx_held (hw_active_dec l) = tx_held l"
  "tx_held (l\<lparr>tx_quiesced := b\<rparr>) = tx_held l" "tx_held (l\<lparr>data_tx_ring_err := n\<rparr>) = tx_held l"
  "tx_held (l\<lparr>data_tx_refused := n\<rparr>) = tx_held l"
  by (simp_all add: fun_eq_iff hw_active_inc_def hw_active_dec_def)

lemma enqueue_held:
  assumes "pool_inv tf k l" "tx_held l f" "tx_ring_budget tf \<noteq> 0"
  shows "pool_inv tf k (tx_enqueue f l) \<and> tx_held (tx_enqueue f l) = (tx_held l)(f := False)"
  using enqueue_inv [of tf l f] assms
  by (auto simp: pool_inv_def fun_eq_iff)
     (auto simp: tx_enqueue_def ref_inv_def tx_held_def tx_listed_def split: if_splits)


lemma publish_held:
  assumes "pool_inv tf k (lnk w)" "tx_held (lnk w) f" "xmit_publish ops tf f w = (r, w')"
  shows "pool_inv tf k (lnk w')
    \<and> tx_held (lnk w') = (tx_held (lnk w))(f := (case r of Inl _ \<Rightarrow> True | Inr _ \<Rightarrow> False))"
proof (cases "tx_ring_budget tf \<noteq> 0 \<and> ring_posted (lnk w) \<ge> tx_ring_budget tf")
  case True
  then show ?thesis using assms enqueue_held by (auto simp: xmit_publish_def)
next
  case False
  then have b: "tx_ring_budget tf \<noteq> 0 \<longrightarrow> ring_posted (lnk w) < tx_ring_budget tf"
    by (auto simp: not_le)
  define m where "m = tx_mark_posted f (lnk w)"
  have m: "pool_inv tf k m" "tx_held m = (tx_held (lnk w))(f := False)" "f < tx_n m"
      "hw_posted (tx_frames m f)"
    using mark_posted_held [OF assms(1,2) b] assms(2) by (auto simp: m_def tx_held_def)
  have u: "pool_inv tf k (tx_unpost_failed f (m\<lparr>data_tx_ring_err := n\<rparr>))"
      "tx_held (tx_unpost_failed f (m\<lparr>data_tx_ring_err := n\<rparr>)) = (tx_held (lnk w))(f := True)" for n
    using m unpost_held [of tf k "m\<lparr>data_tx_ring_err := n\<rparr>" f] by simp_all
  show ?thesis
    using assms(3) False m u
    by (auto simp: xmit_publish_def Let_def hw_call_def split: prod.splits sum.splits simp flip: m_def)
qed

lemma xmit_held:
  assumes "pool_inv tf k (lnk w)" "tx_held (lnk w) f"
    and "tbframe_xmit_int ops tf (tx_frame (lnk w) f) pre_up w = (r, w')"
  shows "pool_inv tf k (lnk w')
    \<and> tx_held (lnk w') = (tx_held (lnk w))(f := (case r of Inl _ \<Rightarrow> True | Inr _ \<Rightarrow> False))"
proof -
  define w1 where "w1 = (if xmit_ok pre_up (hw_active_inc (lnk w)) \<and> pre_up
     then upd (\<lambda>l. l\<lparr>tx_quiesced := False\<rparr>) (upd hw_active_inc w) else upd hw_active_inc w)"
  have w1: "pool_inv tf k (lnk w1)" "tx_held (lnk w1) = tx_held (lnk w)"
    using assms(1) by (auto simp: w1_def)
  have e: "(r, w') = (let (ret, w2) = (if xmit_ok pre_up (hw_active_inc (lnk w)) then xmit_publish ops tf f w1
         else (Inl ENETDOWN, upd (\<lambda>l. l\<lparr>data_tx_refused := data_tx_refused l + 1\<rparr>) w1))
       in (ret, upd hw_active_dec w2))"
    unfolding assms(3) [symmetric] tbframe_xmit_int_def w1_def by (simp add: tx_frame_def)
  show ?thesis
    using e w1 publish_held [OF w1(1), of f ops] assms(2)
    by (auto simp: Let_def fun_upd_idem split: if_splits prod.splits)
qed

section \<open>The contract of the transmit side\<close>

text \<open>What a sender may rely on: allocation hands out a frame nobody holds, a transmit that succeeds
  consumes it, one that fails leaves it with the caller, and freeing returns it.\<close>

locale frame_tx =
  fixes inv :: "'s \<Rightarrow> bool"
    and held :: "'s \<Rightarrow> nat \<Rightarrow> bool"
    and alloc :: "'s \<Rightarrow> (errno + nat) \<times> 's"
    and fill :: "nat \<Rightarrow> 's \<Rightarrow> 's"
    and xmit :: "nat \<Rightarrow> 's \<Rightarrow> rc \<times> 's"
    and free :: "nat \<Rightarrow> 's \<Rightarrow> 's"
  assumes alloc_ok: "inv s \<Longrightarrow> alloc s = (Inr f, s') \<Longrightarrow>
      inv s' \<and> \<not> held s f \<and> held s' = (held s)(f := True)"
    and alloc_err: "inv s \<Longrightarrow> alloc s = (Inl e, s') \<Longrightarrow> inv s' \<and> held s' = held s"
    and fill_ok: "inv s \<Longrightarrow> held s f \<Longrightarrow> inv (fill f s) \<and> held (fill f s) = held s"
    and xmit_law: "inv s \<Longrightarrow> held s f \<Longrightarrow> xmit f s = (r, s') \<Longrightarrow>
      inv s' \<and> held s' = (held s)(f := (case r of Inl _ \<Rightarrow> True | Inr _ \<Rightarrow> False))"
    and free_ok: "inv s \<Longrightarrow> held s f \<Longrightarrow> inv (free f s) \<and> held (free f s) = (held s)(f := False)"
begin

lemma send_no_leak:
  assumes "inv s"
    and "(case alloc s of
            (Inl e, s) \<Rightarrow> (Inl e, s)
          | (Inr f, s) \<Rightarrow>
             (case xmit f (fill f s) of
                (Inr u, s) \<Rightarrow> (Inr u, s)
              | (Inl e, s) \<Rightarrow> (Inl e, free f s))) = (r, s')"
  shows "inv s' \<and> held s' = held s"
proof (cases "alloc s")
  case (Pair a s1)
  show ?thesis
  proof (cases a)
    case (Inl e)
    then show ?thesis using assms Pair alloc_err by auto
  next
    case (Inr f)
    have 1: "inv s1" "\<not> held s f" "held s1 = (held s)(f := True)" using alloc_ok assms(1) Pair Inr by auto
    then have 2: "inv (fill f s1)" "held (fill f s1) = (held s)(f := True)"
      using fill_ok [of s1 f] by auto
    obtain r2 s2 where x: "xmit f (fill f s1) = (r2, s2)" by fastforce
    have 3: "inv s2" "held s2 = (held s)(f := (case r2 of Inl _ \<Rightarrow> True | Inr _ \<Rightarrow> False))"
      using xmit_law [OF 2(1) _ x] 2(2) by auto
    have "(held s)(f := False) = held s" using 1(2) by (simp add: fun_upd_idem)
    then show ?thesis
      using assms(2) Pair Inr x 3 free_ok [of s2 f] by (cases r2) auto
  qed
qed

end

lemma map_prod_eqE:
  assumes "map_prod id g p = (r, s)"
  obtains l where "p = (r, l)" "s = g l"
  using assms by (cases p) auto

lemma keepalive_fill_held:
  "pool_inv tf k (keepalive_fill d f l) = pool_inv tf k l" "tx_held (keepalive_fill d f l) = tx_held l"
proof -
  have sel: "tx_free (keepalive_fill d f l) = tx_free l" "txq_ctrl (keepalive_fill d f l) = txq_ctrl l"
    "txq_data (keepalive_fill d f l) = txq_data l" "tx_frame_count (keepalive_fill d f l) = tx_frame_count l"
    "ctrl_inflight (keepalive_fill d f l) = ctrl_inflight l"
    "data_inflight (keepalive_fill d f l) = data_inflight l"
    "ring_posted (keepalive_fill d f l) = ring_posted l"
    "hw_posted (tx_frames (keepalive_fill d f l) j) = hw_posted (tx_frames l j)"
    "charged_ctrl (tx_frames (keepalive_fill d f l) j) = charged_ctrl (tx_frames l j)"
    "charged_data (tx_frames (keepalive_fill d f l) j) = charged_data (tx_frames l j)"
    "is_ctrl (tx_frames (keepalive_fill d f l) j) = is_ctrl (tx_frames l j)" for j
    by (simp_all add: keepalive_fill_def Let_def)
  have "ref_inv k (keepalive_fill d f l) = ref_inv k l"
    by (simp add: ref_inv_def keepalive_fill_def Let_def)
  moreover have "adm_inv tf (keepalive_fill d f l) = adm_inv tf l"
    by (simp add: adm_inv_def tx_lists_ok_def tx_charge_ok_def tx_counts_ok_def tx_budget_ok_def
        tx_listed_def sel comp_def)
  ultimately show "pool_inv tf k (keepalive_fill d f l) = pool_inv tf k l"
    by (simp add: pool_inv_def)
  show "tx_held (keepalive_fill d f l) = tx_held l"
    by (simp add: fun_eq_iff tx_held_def tx_listed_def sel)
qed

interpretation keepalive_tx: frame_tx
  "\<lambda>w. pool_inv tf k (lnk w)" "\<lambda>w. tx_held (lnk w)"
  "\<lambda>w. map_prod id (\<lambda>l. w\<lparr>lnk := l\<rparr>) (tbframe_alloc_frame_int len ctrl pre_up (lnk w))"
  "\<lambda>f. upd (keepalive_fill d f)"
  "\<lambda>f w. tbframe_xmit_int ops tf (tx_frame (lnk w) f) pre_up w"
  "\<lambda>f. upd (\<lambda>l. tbframe_frame_free (tx_frame l f) l)"
  by unfold_locales
    (auto simp: keepalive_fill_held elim!: map_prod_eqE dest: alloc_ok_held alloc_err_held
      xmit_held free_held)

section \<open>Runs of the transmit side\<close>

text \<open>Everything that happens to the pool: clients and the prober allocate, fill, transmit and free
  frames they hold, the ring completes frames posted to it, and the session machine changes any
  field outside the pool.\<close>

definition same_pool :: "tbframe_link \<Rightarrow> tbframe_link \<Rightarrow> bool" where
  "same_pool l l' =
    (tx_frame_count l' = tx_frame_count l \<and> tx_free l' = tx_free l \<and> txq_ctrl l' = txq_ctrl l \<and>
     txq_data l' = txq_data l \<and> ctrl_inflight l' = ctrl_inflight l \<and> data_inflight l' = data_inflight l \<and>
     ring_posted l' = ring_posted l \<and> refcnt l' = refcnt l \<and> rx_free l' = rx_free l \<and>
     rx_frame_count l' = rx_frame_count l \<and> tx_frames l' = tx_frames l)"

inductive tx_step :: "'h tbframe_hw_ops \<Rightarrow> tbframe \<Rightarrow> 'h world \<Rightarrow> 'h world \<Rightarrow> bool"
  for ops tf where
  step_alloc: "tbframe_alloc_frame_int len ctrl pre_up (lnk w) = (r, l) \<Longrightarrow>
    tx_step ops tf w (w\<lparr>lnk := l\<rparr>)"
| step_fill: "tx_held (lnk w) f \<Longrightarrow>
    tx_step ops tf w (upd (txf f (\<lambda>x. x\<lparr>fdata := d, fpdf := p, flen := n\<rparr>)) w)"
| step_xmit: "tx_held (lnk w) f \<Longrightarrow> tbframe_xmit_int ops tf (tx_frame (lnk w) f) pre_up w = (r, w') \<Longrightarrow>
    tx_step ops tf w w'"
| step_free: "tx_held (lnk w) f \<Longrightarrow> tx_step ops tf w (upd (tbframe_frame_free (tx_frame (lnk w) f)) w)"
| step_complete: "f < tx_n (lnk w) \<Longrightarrow> hw_posted (tx_frames (lnk w) f) \<Longrightarrow>
    tx_step ops tf w (tbframe_core_tx_complete ops tf f canceled w)"
| step_session: "same_pool (lnk w) (lnk w') \<Longrightarrow> tx_step ops tf w w'"

definition tx_pool_fresh :: "tbframe_link \<Rightarrow> bool" where
  "tx_pool_fresh l =
    (tx_free l = [0..<tx_n l] \<and> txq_ctrl l = [] \<and> txq_data l = [] \<and> ctrl_inflight l = 0 \<and>
     data_inflight l = 0 \<and> ring_posted l = 0 \<and> refcnt l = 1 \<and> length (rx_free l) = rx_n l \<and>
     (\<forall>i < tx_n l. \<not> charged_ctrl (tx_frames l i) \<and> \<not> charged_data (tx_frames l i)
        \<and> \<not> hw_posted (tx_frames l i)))"

text \<open>The owners of a frame; a well-formed pool has exactly one for each.\<close>

definition tx_owners :: "tbframe_link \<Rightarrow> nat \<Rightarrow> bool list" where
  "tx_owners l i = filter id
     [i \<in> set (tx_free l), i \<in> set (txq_ctrl l), i \<in> set (txq_data l), hw_posted (tx_frames l i),
      tx_held l i]"

lemma less_imp_unat_inc: "(x :: u16) < y \<Longrightarrow> unat (x + 1) = unat x + 1"
proof -
  assume "x < y"
  moreover have "unat y < 2 ^ 16" by (rule order_less_le_trans [OF unsigned_less]) simp
  ultimately show ?thesis by (intro unat_add1_u16) (simp add: word_less_nat_alt)
qed

lemma cnt_none: "(\<And>i. i < n \<Longrightarrow> \<not> P i) \<Longrightarrow> cnt P n = 0"
  by (auto simp: cnt_def)

lemma fresh_pool_inv:
  assumes "tx_pool_fresh l"
  shows "pool_inv tf 1 l"
proof -
  have "cnt (charged_ctrl \<circ> tx_frames l) (tx_n l) = 0" "cnt (charged_data \<circ> tx_frames l) (tx_n l) = 0"
    "cnt (hw_posted \<circ> tx_frames l) (tx_n l) = 0"
    using assms by (auto intro!: cnt_none simp: tx_pool_fresh_def)
  then show ?thesis
    using assms by (auto simp: pool_inv_def ref_inv_def tx_pool_fresh_def adm_defs list_all_iff)
qed

lemma fill_inv:
  assumes "pool_inv tf k l"
  shows "pool_inv tf k (txf f (\<lambda>x. x\<lparr>fdata := d, fpdf := p, flen := n\<rparr>) l)"
proof -
  let ?l = "txf f (\<lambda>x. x\<lparr>fdata := d, fpdf := p, flen := n\<rparr>) l"
  have "hw_posted (tx_frames ?l j) = hw_posted (tx_frames l j)"
    "charged_ctrl (tx_frames ?l j) = charged_ctrl (tx_frames l j)"
    "charged_data (tx_frames ?l j) = charged_data (tx_frames l j)"
    "is_ctrl (tx_frames ?l j) = is_ctrl (tx_frames l j)" for j
    by simp_all
  then show ?thesis
    using assms unfolding pool_inv_def
    by (simp add: adm_inv_def tx_lists_ok_def tx_charge_ok_def tx_counts_ok_def tx_budget_ok_def
        tx_listed_def comp_def ref_inv_def del: txf_sel(1))
qed

lemma tx_step_inv:
  "tx_step ops tf w w' \<Longrightarrow> pool_inv tf k (lnk w) \<Longrightarrow> pool_inv tf k (lnk w')"
proof (induction rule: tx_step.induct)
  case (step_alloc len ctrl pre_up w r l)
  then show ?case by (cases r) (auto dest: alloc_ok_held alloc_err_held [where tf = tf and k = k])
next
  case (step_complete f w canceled)
  then have "f \<notin> set (tx_listed (lnk w))"
    by (auto simp: pool_inv_def adm_inv_def tx_lists_ok_def list_all_iff)
  then show ?case using step_complete by (intro tx_complete_inv) (simp_all add: tx_out_def)
next
  case (step_session w w')
  then show ?case by (auto simp: same_pool_def pool_inv_def ref_inv_def adm_inv_cong [of "lnk w'" "lnk w"])
qed (auto simp: fill_inv dest: xmit_held free_held)

lemma pool_inv_owner:
  assumes "pool_inv tf k l" "i < tx_n l"
  shows "length (tx_owners l i) = 1"
  using assms by (auto simp: tx_owners_def pool_inv_def adm_defs list_all_iff)








lemma sample_fresh: "tx_pool_fresh link_sample" "tx_pool_fresh link_up_sample"
  by (simp_all add: tx_pool_fresh_def sample_defs upt_rec)


lemma tx_return_frame: "n \<noteq> i \<Longrightarrow> tx_frames (snd (tbframe_tx_return_locked i l)) n = tx_frames l n"
  by (simp add: tbframe_tx_return_locked_def tx_uncharge_ctrl_def tx_uncharge_data_def Let_def)

lemma txf_session [simp]: "lstate (txf i g l) = lstate l" "rings_up (txf i g l) = rings_up l"
  by (simp_all add: txf_def)

lemma tx_return_session:
  "lstate (snd (tbframe_tx_return_locked i l)) = lstate l"
  "rings_up (snd (tbframe_tx_return_locked i l)) = rings_up l"
  by (simp_all add: tbframe_tx_return_locked_def tx_uncharge_ctrl_def tx_uncharge_data_def Let_def)

lemma tx_mark_posted_sel [simp]:
  "txq_ctrl (tx_mark_posted n l) = txq_ctrl l" "txq_data (tx_mark_posted n l) = txq_data l"
  "tx_free (tx_mark_posted n l) = tx_free l" "ring_posted (tx_mark_posted n l) = ring_posted l + 1"
  "tx_frames (tx_mark_posted n l) = (tx_frames l)(n := (tx_frames l n)\<lparr>hw_posted := True\<rparr>)"
  by (simp_all add: tx_mark_posted_def Let_def)

lemma tx_refill_next:
  assumes "tx_ring_budget tf \<noteq> 0" "lstate l = TBFRAME_STATE_UP" "rings_up l"
    and "txq_ctrl l @ txq_data l = n # rest"
  shows "\<exists>l0. tx_refill tf False l = (Some n, [], tx_mark_posted n l0) \<and> txq_ctrl l0 @ txq_data l0 = rest
    \<and> tx_free l0 = tx_free l \<and> ring_posted l0 = ring_posted l \<and> tx_frames l0 = tx_frames l"
proof (cases "txq_ctrl l")
  case Nil
  then show ?thesis using assms by (intro exI [of _ "l\<lparr>txq_data := rest\<rparr>"]) (simp add: tx_refill_def)
next
  case (Cons a cs)
  then show ?thesis using assms by (intro exI [of _ "l\<lparr>txq_ctrl := cs\<rparr>"]) (simp add: tx_refill_def)
qed

lemma tx_unpost_frame: "n \<noteq> i \<Longrightarrow> tx_frames (tx_complete_unpost i c l) n = tx_frames l n"
  by (simp add: tx_complete_unpost_def Let_def ring_posted_dec_def)

text \<open>C15: A successful completion of a posted frame on an established session with a ring budget puts
  exactly one backlog frame on the ring: the oldest control frame if there is one, else the oldest
  data frame; the completed frame goes back to the pool and, when the ring accepts the refill, the
  backlog loses only its head.\<close>

theorem tx_complete_refill_order:
  assumes "pool_inv tf k (lnk w)" and "hw_posted (tx_frames (lnk w) i)" and "i < tx_n (lnk w)"
    and "tx_ring_budget tf \<noteq> 0" and "lstate (lnk w) = TBFRAME_STATE_UP" and "rings_up (lnk w)"
    and "txq_ctrl (lnk w) @ txq_data (lnk w) = n # rest"
    and "w' = tbframe_core_tx_complete ops tf i False w"
    and "r = fst (op_ring_tx ops n ((tx_frames (lnk w) n)\<lparr>hw_posted := True\<rparr>) (hw w))"
  shows "trace w' = trace w @ [ORingTx n r]
    \<and> (r = Inr () \<longrightarrow> txq_ctrl (lnk w') @ txq_data (lnk w') = rest
         \<and> tx_free (lnk w') = tx_free (lnk w) @ [i] \<and> hw_posted (tx_frames (lnk w') n)
         \<and> ring_posted (lnk w') = ring_posted (lnk w))"
proof -
  define l0 where "l0 = tx_complete_unpost i False (hw_active_inc (lnk w))"
  define l1 where "l1 = snd (tbframe_tx_return_locked i l0)"
  have nz: "ring_posted (lnk w) \<noteq> 0"
    using charged_nonzero(3) assms(1,2,3) by (auto simp: pool_inv_def)
  have l0: "txq_ctrl l0 = txq_ctrl (lnk w)" "txq_data l0 = txq_data (lnk w)" "rings_up l0"
      "lstate l0 = TBFRAME_STATE_UP" "ring_posted l0 = ring_posted (lnk w) - 1"
      "tx_free l0 = tx_free (lnk w)"
    using assms nz by (simp_all add: l0_def tx_complete_unpost_def Let_def ring_posted_dec_def txf_def)
  have l1: "txq_ctrl l1 = txq_ctrl (lnk w)" "txq_data l1 = txq_data (lnk w)" "rings_up l1"
      "lstate l1 = TBFRAME_STATE_UP" "ring_posted l1 = ring_posted (lnk w) - 1"
      "tx_free l1 = tx_free (lnk w) @ [i]"
    using l0 by (simp_all add: l1_def tx_return_session)
  define l2 where "l2 = snd (snd (tx_refill tf False l1))"
  have nx: "fst (tx_refill tf False l1) = Some n" and l2: "txq_ctrl l2 @ txq_data l2 = rest"
      "tx_free l2 = tx_free (lnk w) @ [i]" "ring_posted l2 = ring_posted (lnk w)"
      "tx_frames l2 n = (tx_frames l1 n)\<lparr>hw_posted := True\<rparr>"
    using tx_refill_next [of tf l1 n rest] assms(4,7) l1 by (auto simp: l2_def)
  have "n \<in> set (tx_listed (lnk w))" using assms(7) by (auto simp: tx_listed_def append_eq_Cons_conv)
  then have ni: "n \<noteq> i"
    using assms(1,2) by (auto simp: pool_inv_def adm_inv_def tx_lists_ok_def list_all_iff)
  have "tx_frames l2 n = (tx_frames (lnk w) n)\<lparr>hw_posted := True\<rparr>"
    using l2(4) tx_return_frame [OF ni, of l0] tx_unpost_frame [OF ni, of False "hw_active_inc (lnk w)"]
    by (simp add: l1_def l0_def)
  then obtain w3 where h: "hw_call (op_ring_tx ops n (tx_frames l2 n)) (ORingTx n) (w\<lparr>lnk := l2\<rparr>) = (r, w3)"
    by (simp add: assms(9) hw_call_def case_prod_beta)
  have w3: "lnk w3 = l2" "trace w3 = trace w @ [ORingTx n r]" using hw_call_sel [OF h] by simp_all
  have e: "trace w' = trace w3" "r = Inr () \<Longrightarrow> lnk w' = tbframe_link_put (if fst (tbframe_tx_return_locked i l0)
      then (hw_active_dec l2)\<lparr>tx_released_work := True\<rparr> else hw_active_dec l2)"
    using nx h w3
    by (cases r; simp add: assms(8) tx_complete_done Let_def case_prod_beta flip: l0_def l1_def l2_def)+
  have "r = Inr () \<Longrightarrow> txq_ctrl (lnk w') = txq_ctrl l2 \<and> txq_data (lnk w') = txq_data l2 \<and>
      tx_free (lnk w') = tx_free l2 \<and> tx_frames (lnk w') = tx_frames l2 \<and> ring_posted (lnk w') = ring_posted l2"
    using e(2) by (simp add: hw_active_dec_def tbframe_link_put_def)
  then show ?thesis using e(1) w3(2) l2 by simp
qed


lemma cnt_Suc: "cnt P (Suc n) = cnt P n + of_bool (P n)"
proof -
  have "{i. i < Suc n \<and> P i} = (if P n then insert n {i. i < n \<and> P i} else {i. i < n \<and> P i})"
    by (auto simp: less_Suc_eq)
  then show ?thesis by (simp add: cnt_def)
qed

lemma cnt_2: "cnt P 2 = of_bool (P 0) + of_bool (P 1)"
  by (simp add: numeral_2_eq_2 cnt_Suc) (simp add: cnt_def)

lemma all_less_2: "(\<forall>i < 2. P i) \<longleftrightarrow> P 0 \<and> P (1 :: nat)"
  by (auto simp: numeral_2_eq_2 less_Suc_eq)

text \<open>The sample link with a data frame on the ring and a control frame waiting behind it.\<close>

definition link_busy_sample :: tbframe_link where
  "link_busy_sample = link_up_sample\<lparr>tx_free := [], txq_ctrl := [1], ring_posted := 1,
     data_inflight := 1, ctrl_inflight := 1, refcnt := 3,
     tx_frames := (\<lambda>i. if i = 0 then frame_sample\<lparr>charged_data := True, hw_posted := True\<rparr>
                       else frame_sample\<lparr>is_ctrl := True, charged_ctrl := True\<rparr>)\<rparr>"

lemma link_busy_inv: "pool_inv tf_sample 1 link_busy_sample"
  by (simp add: pool_inv_def ref_inv_def adm_defs link_busy_sample_def sample_defs cnt_2 all_less_2)

theorem tx_complete_refill_order_witness:
  "trace (tbframe_core_tx_complete hw_accept tf_sample 0 False (world_of link_busy_sample))
     = [ORingTx 1 (Inr ())]
   \<and> ring_posted (lnk (tbframe_core_tx_complete hw_accept tf_sample 0 False (world_of link_busy_sample))) = 1"
proof -
  have w: "lnk (world_of link_busy_sample) = link_busy_sample" "trace (world_of link_busy_sample) = []"
    by (simp_all add: world_of_def)
  have s: "hw_posted (tx_frames link_busy_sample 0)" "0 < tx_n link_busy_sample"
      "tx_ring_budget tf_sample \<noteq> 0" "lstate link_busy_sample = TBFRAME_STATE_UP" "rings_up link_busy_sample"
      "txq_ctrl link_busy_sample @ txq_data link_busy_sample = 1 # []" "ring_posted link_busy_sample = 1"
      "op_ring_tx hw_accept i f h = (Inr (), h)" for i f h
    by (simp_all add: link_busy_sample_def sample_defs)
  show ?thesis
    using tx_complete_refill_order [of tf_sample 1 "world_of link_busy_sample" 0 1 "[]", OF _ _ _ _ _ _ _ refl refl,
        of hw_accept] link_busy_inv
    unfolding w by (simp add: s)
qed

lemma tx_cancel1_rx_fold:
  "rx_free (fold tx_cancel1 qs l) = rx_free l" "rx_frame_count (fold tx_cancel1 qs l) = rx_frame_count l"
  by (induction qs arbitrary: l) simp_all

lemma tx_cancel_rx:
  "rx_free (tx_cancel tf i l) = rx_free l" "rx_frame_count (tx_cancel tf i l) = rx_frame_count l"
  by (simp_all add: tx_cancel_eq Let_def tx_cancel1_rx_fold)

text \<open>C29: A cancelled completion never touches the hardware: it returns its own frame and, on a budgeted
  ring, the whole software backlog (data before control) to the pool, leaves both queues empty,
  drops one link reference per returned frame, and keeps the pool well formed.\<close>

theorem tx_cancel_flushes_backlog:
  assumes "pool_inv tf k (lnk w)" and "i < tx_n (lnk w)" and "i \<notin> set (tx_listed (lnk w))"
    and "w' = tbframe_core_tx_complete ops tf i True w"
  shows "trace w' = trace w \<and> hw w' = hw w
    \<and> tx_free (lnk w') = tx_free (lnk w) @ i # txq_data (lnk w) @ txq_ctrl (lnk w)
    \<and> txq_ctrl (lnk w') = [] \<and> txq_data (lnk w') = []
    \<and> refcnt (lnk w) = refcnt (lnk w') + 1 + length (txq_data (lnk w)) + length (txq_ctrl (lnk w))
    \<and> pool_inv tf k (lnk w')"
proof -
  have w': "w' = upd (tx_cancel tf i) w" by (simp add: assms(4) tx_complete_canceled)
  have out: "tx_out (lnk w) i" using assms(2,3) by (simp add: tx_out_def)
  have inv: "pool_inv tf k (lnk w')" using tx_cancel_inv [OF assms(1) out] by (simp add: w')
  have empty: "tx_ring_budget tf = 0 \<Longrightarrow> txq_ctrl (lnk w) = [] \<and> txq_data (lnk w) = []"
    using assms(1) by (simp add: pool_inv_def adm_inv_def tx_budget_ok_def)
  have free: "tx_free (lnk w') = tx_free (lnk w) @ i # txq_data (lnk w) @ txq_ctrl (lnk w)"
    using empty by (cases "tx_ring_budget tf = 0") (simp_all add: w')
  have same: "tx_n (lnk w') = tx_n (lnk w)" "rx_n (lnk w') = rx_n (lnk w)" "rx_free (lnk w') = rx_free (lnk w)"
    by (simp_all add: w' tx_cancel_rx)
  have "length (tx_free (lnk w')) \<le> tx_n (lnk w)"
    using inv same tx_free_le [of tf "lnk w'"] by (simp add: pool_inv_def)
  then have "refcnt (lnk w) = refcnt (lnk w') + 1 + length (txq_data (lnk w)) + length (txq_ctrl (lnk w))"
    using inv assms(1) same by (simp add: pool_inv_def ref_inv_def free)
  then show ?thesis using inv free empty by (cases "tx_ring_budget tf = 0") (simp_all add: w')
qed

theorem tx_cancel_flushes_backlog_witness:
  "tx_free (lnk (tbframe_core_tx_complete hw_accept tf_sample 0 True (world_of link_busy_sample))) = [0, 1]
   \<and> refcnt (lnk (tbframe_core_tx_complete hw_accept tf_sample 0 True (world_of link_busy_sample))) = 1"
proof -
  have w: "lnk (world_of link_busy_sample) = link_busy_sample" by (simp add: world_of_def)
  have s: "0 < tx_n link_busy_sample" "0 \<notin> set (tx_listed link_busy_sample)"
      "txq_ctrl link_busy_sample = [1]" "txq_data link_busy_sample = []" "tx_free link_busy_sample = []"
      "refcnt link_busy_sample = 3"
    by (simp_all add: link_busy_sample_def sample_defs tx_listed_def)
  show ?thesis
    using tx_cancel_flushes_backlog [of tf_sample 1 "world_of link_busy_sample" 0, OF _ _ _ refl, of hw_accept]
      link_busy_inv
    unfolding w by (simp add: s)
qed

text \<open>C30: The nesting of completions is bounded: whatever the ring answers and whatever the backlog holds,
  three levels of nested completion calls give the result, and more change nothing.\<close>

theorem tx_complete_depth_bound:
  assumes "3 \<le> d"
  shows "tx_complete_rec d ops tf i canceled w = tbframe_core_tx_complete ops tf i canceled w"
proof -
  have "d = Suc (Suc (Suc (d - 3)))" using assms by simp
  then show ?thesis using tx_complete_enough [of "d - 3"] by metis
qed

theorem tx_complete_depth_bound_witness:
  "tx_complete_rec 9 hw_reject tf_sample 0 False (world_of link_busy_sample)
   = tbframe_core_tx_complete hw_reject tf_sample 0 False (world_of link_busy_sample)"
  by (rule tx_complete_depth_bound) simp

lemma send_keepalive_held:
  assumes "pool_inv tf k (lnk w)" and "tbframe_link_send_keepalive ops tf pre_up w = (r, w')"
  shows "pool_inv tf k (lnk w') \<and> tx_held (lnk w') = tx_held (lnk w)"
proof -
  define d where "d = (remote_caps (lnk w) AND TBFRAME_WIRE_CAP_KEEPALIVE_ACK \<noteq> 0)"
  define n where "n = (if d then TBFRAME_KEEPALIVE_LEN else TBFRAME_WIRE_KEEPALIVE_LEGACY_SIZE)"
  obtain a l where al: "tbframe_alloc_frame_int n True pre_up (lnk w) = (a, l)" by fastforce
  show ?thesis
  proof (rule keepalive_tx.send_no_leak [OF assms(1)])
    show "(case map_prod id (\<lambda>l. w\<lparr>lnk := l\<rparr>) (tbframe_alloc_frame_int n True pre_up (lnk w)) of
            (Inl e, s) \<Rightarrow> (Inl e, s)
          | (Inr f, s) \<Rightarrow>
             (case tbframe_xmit_int ops tf (tx_frame (lnk (upd (keepalive_fill d f) s)) f) pre_up
                     (upd (keepalive_fill d f) s) of
                (Inr u, s) \<Rightarrow> (Inr u, s)
              | (Inl e, s) \<Rightarrow> (Inl e, upd (\<lambda>l. tbframe_frame_free (tx_frame l f) l) s))) = (r, w')"
      using assms(2) unfolding tbframe_link_send_keepalive_def d_def [symmetric] n_def [symmetric] Let_def al
      by (cases a) simp_all
  qed
qed

text \<open>C31: Sending a keepalive never leaks a frame and never breaks the pool, whether the pool refuses, the
  ring rejects or the frame is queued or posted: the set of frames held by callers is what it was
  before, and a keepalive that could not be sent is back in the pool.\<close>

theorem send_keepalive_no_leak:
  assumes "pool_inv tf k (lnk w)" and "tbframe_link_send_keepalive ops tf pre_up w = (r, w')"
  shows "pool_inv tf k (lnk w') \<and> tx_held (lnk w') = tx_held (lnk w)"
  by (rule send_keepalive_held [OF assms])

theorem send_keepalive_no_leak_witness:
  "pool_inv tf_sample 1 (lnk (snd (tbframe_link_send_keepalive hw_reject tf_sample False (world_of link_up_sample))))
   \<and> tx_held (lnk (snd (tbframe_link_send_keepalive hw_reject tf_sample False (world_of link_up_sample)))) 0 = False"
proof -
  have "pool_inv tf_sample 1 (lnk (world_of link_up_sample))"
    using fresh_pool_inv [OF sample_fresh(2)] by (simp add: world_of_def)
  moreover have "\<not> tx_held (lnk (world_of link_up_sample)) 0"
    by (simp add: tx_held_def tx_listed_def sample_defs)
  ultimately show ?thesis
    using send_keepalive_no_leak [OF _ prod.collapse [symmetric], of tf_sample 1 "world_of link_up_sample"] by simp
qed

lemma pool_inv_kick [simp]: "pool_inv tf k (tbframe_link_kick_locked d l) = pool_inv tf k l"
  by (simp add: tbframe_link_kick_locked_def split: option.split)

section \<open>What the transmit side leaves alone\<close>

text \<open>A view of the link that no transmit field shows through is the same after every transmit
  operation; the interpretations below give this for the session machine's fields and for the
  receive pool.\<close>

locale tx_blind =
  fixes view :: "tbframe_link \<Rightarrow> 'v"
  assumes view_upd [simp]:
    "view (l\<lparr>tx_frames := v_tx_frames\<rparr>) = view l"
    "view (l\<lparr>tx_free := v_tx_free\<rparr>) = view l"
    "view (l\<lparr>txq_ctrl := v_txq_ctrl\<rparr>) = view l"
    "view (l\<lparr>txq_data := v_txq_data\<rparr>) = view l"
    "view (l\<lparr>ctrl_inflight := v_ctrl_inflight\<rparr>) = view l"
    "view (l\<lparr>data_inflight := v_data_inflight\<rparr>) = view l"
    "view (l\<lparr>ring_posted := v_ring_posted\<rparr>) = view l"
    "view (l\<lparr>refcnt := v_refcnt\<rparr>) = view l"
    "view (l\<lparr>hw_active := v_hw_active\<rparr>) = view l"
    "view (l\<lparr>data_tx_canceled := v_data_tx_canceled\<rparr>) = view l"
    "view (l\<lparr>data_tx_done := v_data_tx_done\<rparr>) = view l"
    "view (l\<lparr>data_tx_submitted := v_data_tx_submitted\<rparr>) = view l"
    "view (l\<lparr>data_tx_ring_err := v_data_tx_ring_err\<rparr>) = view l"
    "view (l\<lparr>data_tx_refused := v_data_tx_refused\<rparr>) = view l"
    "view (l\<lparr>tx_blocked := v_tx_blocked\<rparr>) = view l"
    "view (l\<lparr>tx_released_work := v_tx_released_work\<rparr>) = view l"
    "view (l\<lparr>tx_quiesced := v_tx_quiesced\<rparr>) = view l"
    "view (l\<lparr>keepalive_tx_seq := v_keepalive_tx_seq\<rparr>) = view l"
begin

lemma view_tx [simp]:
  "view (txf i g l) = view l"
  "view (hw_active_inc l) = view l" "view (hw_active_dec l) = view l"
  "view (tbframe_link_put l) = view l"
  "view (tx_enqueue i l) = view l"
  by (simp_all add: txf_def hw_active_inc_def hw_active_dec_def tbframe_link_put_def tx_enqueue_def)

lemma view_tx2 [simp]:
  "view (ring_posted_dec l) = view l"
  "view (tx_uncharge_ctrl i l) = view l" "view (tx_uncharge_data i l) = view l"
  "view (tx_mark_posted i l) = view l"
  by (simp_all add: ring_posted_dec_def tx_uncharge_ctrl_def tx_uncharge_data_def tx_mark_posted_def Let_def)

lemma view_tx3 [simp]:
  "view (snd (tbframe_tx_return_locked i l)) = view l"
  "view (tx_complete_unpost i c l) = view l" "view (tx_unpost_failed i l) = view l"
  by (simp_all add: tbframe_tx_return_locked_def tx_complete_unpost_def tx_unpost_failed_def Let_def)

lemma view_refill [simp]: "view (snd (snd (tx_refill tf c l))) = view l"
  by (simp add: tx_refill_def split: list.split)

lemma view_cancel1 [simp]: "view (tx_cancel1 i l) = view l"
  by (simp add: tx_cancel1_def)

lemma view_cancel1s [simp]: "view (fold tx_cancel1 qs l) = view l"
  by (induction qs arbitrary: l) simp_all

lemma view_cancel [simp]: "view (tx_cancel tf i l) = view l"
  by (simp add: tx_cancel_eq Let_def)

lemma view_complete [simp]:
  "view (lnk (tbframe_core_tx_complete ops tf i c w)) = view (lnk w)"
  by (cases c) (simp_all add: tx_complete_canceled tx_complete_done Let_def case_prod_beta
      split: option.split sum.split)

lemma view_alloc [simp]: "view (snd (tbframe_alloc_frame_int len ctrl pre_up l)) = view l"
proof -
  have "view (alloc_take len ctrl f (l\<lparr>tx_free := fs\<rparr>)) = view l" for f fs
    by (simp add: alloc_take_def Let_def)
  then show ?thesis by (simp add: tbframe_alloc_frame_int_def split: list.split)
qed

lemma view_publish [simp]: "view (lnk (snd (xmit_publish ops tf i w))) = view (lnk w)"
  by (simp add: xmit_publish_def Let_def case_prod_beta split: sum.split)

lemma view_xmit [simp]:
  "view (lnk (snd (tbframe_xmit_int ops tf frame pre_up w))) = view (lnk w)"
  by (simp add: tbframe_xmit_int_def Let_def case_prod_beta)

lemma view_free [simp]: "view (tbframe_frame_free frame l) = view l"
  by (simp add: tbframe_frame_free_def Let_def case_prod_beta)

lemma view_fill [simp]: "view (keepalive_fill d f l) = view l"
  by (simp add: keepalive_fill_def Let_def)

lemma view_send [simp]:
  "view (lnk (snd (tbframe_link_send_keepalive ops tf pre_up w))) = view (lnk w)"
  by (simp add: tbframe_link_send_keepalive_def Let_def case_prod_beta split: sum.split)

end

definition rx_view :: "tbframe_link \<Rightarrow> nat list \<times> (nat \<Rightarrow> tbframe_frame_priv) \<times> u16" where
  "rx_view l = (rx_free l, rx_frames l, rx_frame_count l)"

interpretation session_tx: tx_blind session_view
  by unfold_locales simp_all

interpretation rx_tx: tx_blind rx_view
  by unfold_locales (simp_all add: rx_view_def)

lemma session_view_kick [simp]: "session_view (tbframe_link_kick_locked d l) = session_view l"
  by (simp add: tbframe_link_kick_locked_def split: option.split)

end
