(* ===== verification/Tbframe_Rx.thy ===== *)
theory Tbframe_Rx
  imports Tbframe_Admission
begin

text \<open>
  The receive side of \<^verbatim>\<open>frame/core.c\<close>: returning and reposting descriptors
  (\<open>tbframe_frame_putback_rx\<close>, \<open>tbframe_frame_recycle_rx\<close>), the client's references
  (\<open>tbframe_frame_get_rx\<close>, \<open>tbframe_frame_put_rx\<close>) and the completion
  (\<open>tbframe_core_rx_complete\<close>) with its data-path proof.

  Shown: a completion proves the data path only on an authenticated keepalive of the current
  session, delivers to the client only good frames of an established session, and every descriptor
  goes back to the ring, to the pool, or stays with the client who took a reference.
\<close>

section \<open>Operations\<close>

definition rxf :: "nat \<Rightarrow> (tbframe_frame_priv \<Rightarrow> tbframe_frame_priv) \<Rightarrow> tbframe_link \<Rightarrow> tbframe_link" where
  "rxf i g l = l\<lparr>rx_frames := (rx_frames l)(i := g (rx_frames l i))\<rparr>"

definition tbframe_frame_putback_rx :: "nat \<Rightarrow> tbframe_link \<Rightarrow> tbframe_link" where
  "tbframe_frame_putback_rx i l = tbframe_link_put (l\<lparr>rx_free := rx_free l @ [i]\<rparr>)"

definition tbframe_frame_recycle_rx :: "'h tbframe_hw_ops \<Rightarrow> nat \<Rightarrow> 'h world \<Rightarrow> 'h world" where
  "tbframe_frame_recycle_rx ops i w =
    (let w = upd hw_active_inc w;
         repost = (rings_up (lnk w) \<and> \<not> removing (lnk w));
         w = (if repost then upd (\<lambda>l. rxf i (\<lambda>f. f\<lparr>rx_generation := data_generation l\<rparr>) l) w else w)
     in if repost then
          (case hw_call (op_post_rx ops i) (OPostRx i) w of
             (Inr _, w) \<Rightarrow> upd hw_active_dec w
           | (Inl _, w) \<Rightarrow> upd (tbframe_frame_putback_rx i) (upd hw_active_dec w))
        else upd (tbframe_frame_putback_rx i) (upd hw_active_dec w))"

text \<open>What a completion's buffer says as a keepalive: whether it is a proof candidate, the cookie it
  carries and the directional fields (zero for a legacy peer).\<close>

definition rx_directional :: "tbframe_link \<Rightarrow> bool" where
  "rx_directional l = (remote_caps l AND TBFRAME_WIRE_CAP_KEEPALIVE_ACK \<noteq> 0)"

definition keepalive_zero :: tbframe_wire_keepalive where
  "keepalive_zero = \<lparr>ka_session_cookie = 0, ka_sequence = 0, ka_ack_cookie = 0, ka_ack_sequence = 0\<rparr>"

definition rx_parse_proof ::
  "tbframe_link \<Rightarrow> u8 list \<Rightarrow> u16 \<Rightarrow> u8 \<Rightarrow> bool \<Rightarrow> bool \<times> u64 \<times> tbframe_wire_keepalive" where
  "rx_parse_proof l data len pdf bad =
    (let directional = rx_directional l;
         proof = (\<not> bad \<and> pdf = TBFRAME_PDF_KEEPALIVE \<and>
                  len = (if directional then TBFRAME_KEEPALIVE_LEN
                         else TBFRAME_WIRE_KEEPALIVE_LEGACY_SIZE))
     in if proof then
          if directional then
            (let keepalive = tbframe_wire_parse_keepalive data
             in (ka_sequence keepalive \<noteq> 0, ka_session_cookie keepalive, keepalive))
          else (True, tbframe_wire_get_le64 data 0, keepalive_zero)
        else (False, 0, keepalive_zero))"

definition rx_authenticate :: "bool \<Rightarrow> tbframe_wire_keepalive \<Rightarrow> tbframe_link \<Rightarrow> tbframe_link" where
  "rx_authenticate directional ka l =
    (let l = l\<lparr>data_rx_proven := True\<rparr>;
         l = (if \<not> directional then l\<lparr>data_tx_proven := True\<rparr>
              else if ka_sequence ka > keepalive_peer_seq l then l\<lparr>keepalive_peer_seq := ka_sequence ka\<rparr>
              else l);
         l = (if directional \<and> ka_ack_cookie ka = local_cookie l \<and> ka_ack_sequence ka \<noteq> 0 \<and>
                 ka_ack_sequence ka \<le> keepalive_tx_seq l
              then l\<lparr>data_tx_proven := True,
                     keepalive_tx_acked := max (keepalive_tx_acked l) (ka_ack_sequence ka)\<rparr>
              else l)
     in if data_rx_proven l \<and> data_tx_proven l \<and> \<not> data_proven l
        then l\<lparr>data_proven := True, probe_attempts := 0, probe_failures := 0\<rparr>
        else l)"

definition rx_cookie_mismatch :: "u64 \<Rightarrow> tbframe_link \<Rightarrow> tbframe_link" where
  "rx_cookie_mismatch cookie l =
    (let l = l\<lparr>data_rx_bad_cookie := data_rx_bad_cookie l + 1\<rparr>;
         l = (if cookie = previous_remote_cookie l
              then l\<lparr>data_rx_prior_cookie := data_rx_prior_cookie l + 1\<rparr> else l)
     in if lstate l \<noteq> TBFRAME_STATE_UP \<and> rings_up l \<and> paths_enabled l \<and> \<not> stale_drain_active l
        then tbframe_link_kick_locked 0
               (l\<lparr>stale_drain_active := True, stale_drain_budget := TBFRAME_STALE_DRAIN_RETRIES,
                  probe_attempts := 0\<rparr>)
        else l)"

definition rx_account ::
  "nat \<Rightarrow> u16 \<Rightarrow> bool \<Rightarrow> bool \<times> u64 \<times> tbframe_wire_keepalive \<Rightarrow> tbframe_link \<Rightarrow> tbframe_link" where
  "rx_account i len bad p l =
    (let (proof, cookie, ka) = p
     in if rx_generation (rx_frames l i) \<noteq> data_generation l
        then l\<lparr>data_rx_stale := data_rx_stale l + 1\<rparr>
        else if \<not> bad \<and> len \<le> TBFRAME_MAX_FRAME then
          (let l = l\<lparr>data_rx := data_rx l + 1\<rparr>;
               l = (if proof \<and> cookie = remote_cookie l \<and> rings_up l \<and> paths_enabled l
                    then rx_authenticate (rx_directional l) ka l
                    else if proof \<and> cookie \<noteq> remote_cookie l then rx_cookie_mismatch cookie l
                    else l)
           in l\<lparr>silent_ticks := 0\<rparr>)
        else if bad then l\<lparr>data_rx_bad := data_rx_bad l + 1\<rparr>
        else l\<lparr>data_rx_oversize := data_rx_oversize l + 1\<rparr>)"

definition rx_supersede :: "u64 \<Rightarrow> tbframe_link \<Rightarrow> tbframe_link" where
  "rx_supersede cookie l =
    (if cookie \<noteq> remote_cookie l \<and> lstate l = TBFRAME_STATE_UP \<and> \<not> needs_down l
     then tbframe_link_kick_locked 0 (l\<lparr>needs_down := True, down_reason := TBFRAME_DOWN_SUPERSEDE\<rparr>)
     else l)"

definition rx_set_frame :: "nat \<Rightarrow> u16 \<Rightarrow> u8 \<Rightarrow> tbframe_link \<Rightarrow> tbframe_link" where
  "rx_set_frame i len pdf = rxf i (\<lambda>f. f\<lparr>flen := len, fpdf := pdf\<rparr>)"

text \<open>The upcall to the client; \<open>takes\<close> is how many references it takes with
  \<open>tbframe_frame_get_rx\<close> before it returns.\<close>

definition tbframe_frame_get_rx :: "nat \<Rightarrow> tbframe_link \<Rightarrow> tbframe_link" where
  "tbframe_frame_get_rx i = rxf i (\<lambda>f. f\<lparr>rx_refs := rx_refs f + 1\<rparr>)"

definition rx_put_ref :: "'h tbframe_hw_ops \<Rightarrow> nat \<Rightarrow> 'h world \<Rightarrow> 'h world" where
  "rx_put_ref ops i w =
    (let w = upd (rxf i (\<lambda>f. f\<lparr>rx_refs := rx_refs f - 1\<rparr>)) w
     in if rx_refs (rx_frames (lnk w) i) = 0 then tbframe_frame_recycle_rx ops i w else w)"

definition rx_deliver :: "'h tbframe_hw_ops \<Rightarrow> tbframe \<Rightarrow> nat \<Rightarrow> u16 \<Rightarrow> u8 \<Rightarrow> nat \<Rightarrow> 'h world \<Rightarrow> 'h world" where
  "rx_deliver ops tf i len pdf takes w =
    (let w = upd (rx_set_frame i len pdf) w;
         w = upd (rxf i (\<lambda>f. f\<lparr>rx_refs := 1\<rparr>)) w;
         w = (case client_ops tf of
                None \<Rightarrow> w
              | Some c \<Rightarrow> if has_rx c then upd (tbframe_frame_get_rx i ^^ takes) (obs (ORx i) w) else w)
     in rx_put_ref ops i w)"

definition rx_report_bad :: "tbframe \<Rightarrow> nat \<Rightarrow> u16 \<Rightarrow> u8 \<Rightarrow> 'h world \<Rightarrow> 'h world" where
  "rx_report_bad tf i len pdf w =
    (let w = upd (rx_set_frame i len pdf) w
     in case client_ops tf of
          None \<Rightarrow> w
        | Some c \<Rightarrow> if has_rx_bad c then obs (ORxBad i) w else w)"

definition rx_finish ::
  "'h tbframe_hw_ops \<Rightarrow> tbframe \<Rightarrow> nat \<Rightarrow> u16 \<Rightarrow> u8 \<Rightarrow> bool \<Rightarrow> nat \<Rightarrow> bool \<Rightarrow> bool \<Rightarrow> u64 \<Rightarrow> 'h world \<Rightarrow> 'h world"
where
  "rx_finish ops tf i len pdf bad takes current_generation proof cookie w =
    (let up = (current_generation \<and> lstate (lnk w) = TBFRAME_STATE_UP);
         w = (if current_generation \<and> bad \<and> len \<le> TBFRAME_MAX_FRAME
              then rx_report_bad tf i len pdf w else w)
     in if \<not> up \<or> bad \<or> len > TBFRAME_MAX_FRAME then tbframe_frame_recycle_rx ops i w
        else if pdf = TBFRAME_PDF_KEEPALIVE then
          (let w = (if proof then upd (rx_supersede cookie) w else w)
           in tbframe_frame_recycle_rx ops i w)
        else rx_deliver ops tf i len pdf takes w)"

definition tbframe_core_rx_complete ::
  "'h tbframe_hw_ops \<Rightarrow> tbframe \<Rightarrow> nat \<Rightarrow> bool \<Rightarrow> u16 \<Rightarrow> u8 \<Rightarrow> bool \<Rightarrow> nat \<Rightarrow> 'h world \<Rightarrow> 'h world" where
  "tbframe_core_rx_complete ops tf i canceled len pdf bad takes w =
    (if canceled then upd (tbframe_frame_putback_rx i) w
     else
      (let (proof, cookie, ka) = rx_parse_proof (lnk w) (fdata (rx_frames (lnk w) i)) len pdf bad;
           current_generation = (rx_generation (rx_frames (lnk w) i) = data_generation (lnk w));
           w = upd (rx_account i len bad (proof, cookie, ka)) w
       in rx_finish ops tf i len pdf bad takes current_generation proof cookie w))"

definition tbframe_frame_put_rx :: "'h tbframe_hw_ops \<Rightarrow> tbframe_frame \<Rightarrow> 'h world \<Rightarrow> 'h world" where
  "tbframe_frame_put_rx ops frame w =
    (if fr_link frame \<noteq> link_id (lnk w) \<or> \<not> fr_rx frame then w
     else rx_put_ref ops (fr_idx frame) w)"

section \<open>Descriptor accounting\<close>

definition rx_inv :: "tbframe_link \<Rightarrow> bool" where
  "rx_inv l = (distinct (rx_free l) \<and>
     list_all (\<lambda>i. i < rx_n l \<and> rx_refs (rx_frames l i) = 0) (rx_free l))"

definition rx_out :: "tbframe_link \<Rightarrow> nat \<Rightarrow> bool" where
  "rx_out l i = (i < rx_n l \<and> i \<notin> set (rx_free l))"

definition link_inv :: "tbframe \<Rightarrow> nat \<Rightarrow> tbframe_link \<Rightarrow> bool" where
  "link_inv tf k l = (pool_inv tf k l \<and> rx_inv l)"

lemma rxf_sel [simp]:
  "rx_frames (rxf i g l) = (rx_frames l)(i := g (rx_frames l i))" "rx_free (rxf i g l) = rx_free l"
  "rx_frame_count (rxf i g l) = rx_frame_count l" "session_view (rxf i g l) = session_view l"
  "pool_inv tf k (rxf i g l) = pool_inv tf k l" "hw_active (rxf i g l) = hw_active l"
  "lstate (rxf i g l) = lstate l" "data_proven (rxf i g l) = data_proven l"
  by (simp_all add: rxf_def)

lemma rx_inv_cong:
  "rx_frames l' = rx_frames l \<Longrightarrow> rx_free l' = rx_free l \<Longrightarrow> rx_frame_count l' = rx_frame_count l \<Longrightarrow>
    rx_inv l' = rx_inv l"
  by (simp add: rx_inv_def)

lemma rx_inv_rxf: "rx_inv l \<Longrightarrow> rx_out l i \<Longrightarrow> rx_inv (rxf i g l)"
  by (auto simp: rx_inv_def rx_out_def list_all_iff)

lemma rx_out_rxf [simp]: "rx_out (rxf i g l) j = rx_out l j"
  by (simp add: rx_out_def)

lemma hw_active_rx [simp]:
  "rx_inv (hw_active_inc l) = rx_inv l" "rx_inv (hw_active_dec l) = rx_inv l"
  "rx_out (hw_active_inc l) i = rx_out l i" "rx_out (hw_active_dec l) i = rx_out l i"
  "rx_frames (hw_active_inc l) = rx_frames l" "rx_frames (hw_active_dec l) = rx_frames l"
  "data_proven (hw_active_inc l) = data_proven l" "data_proven (hw_active_dec l) = data_proven l"
  by (simp_all add: rx_inv_def rx_out_def hw_active_inc_def hw_active_dec_def)

lemma link_inv_hw_active [simp]:
  "link_inv tf k (hw_active_inc l) = link_inv tf k l" "link_inv tf k (hw_active_dec l) = link_inv tf k l"
  by (simp_all add: link_inv_def)

lemma link_inv_upd [simp]:
  "link_inv tf k (l\<lparr>lstate := v_lstate\<rparr>) = link_inv tf k l"
  "link_inv tf k (l\<lparr>removing := v_removing\<rparr>) = link_inv tf k l"
  "link_inv tf k (l\<lparr>parked := v_parked\<rparr>) = link_inv tf k l"
  "link_inv tf k (l\<lparr>hello_done := v_hello_done\<rparr>) = link_inv tf k l"
  "link_inv tf k (l\<lparr>rings_allocated := v_rings_allocated\<rparr>) = link_inv tf k l"
  "link_inv tf k (l\<lparr>rings_up := v_rings_up\<rparr>) = link_inv tf k l"
  "link_inv tf k (l\<lparr>paths_enabled := v_paths_enabled\<rparr>) = link_inv tf k l"
  "link_inv tf k (l\<lparr>paths_owned := v_paths_owned\<rparr>) = link_inv tf k l"
  "link_inv tf k (l\<lparr>terminal_handoff := v_terminal_handoff\<rparr>) = link_inv tf k l"
  "link_inv tf k (l\<lparr>in_hopid_held := v_in_hopid_held\<rparr>) = link_inv tf k l"
  "link_inv tf k (l\<lparr>tx_quiesced := v_tx_quiesced\<rparr>) = link_inv tf k l"
  "link_inv tf k (l\<lparr>active_remote_hopid := v_active_remote_hopid\<rparr>) = link_inv tf k l"
  "link_inv tf k (l\<lparr>hs := v_hs\<rparr>) = link_inv tf k l"
  "link_inv tf k (l\<lparr>hello_responder := v_hello_responder\<rparr>) = link_inv tf k l"
  "link_inv tf k (l\<lparr>ready_responder := v_ready_responder\<rparr>) = link_inv tf k l"
  "link_inv tf k (l\<lparr>hello_selection_pending := v_hello_selection_pending\<rparr>) = link_inv tf k l"
  "link_inv tf k (l\<lparr>hello_selection_caps := v_hello_selection_caps\<rparr>) = link_inv tf k l"
  "link_inv tf k (l\<lparr>request_seq := v_request_seq\<rparr>) = link_inv tf k l"
  "link_inv tf k (l\<lparr>hello_attempts := v_hello_attempts\<rparr>) = link_inv tf k l"
  "link_inv tf k (l\<lparr>last_reannounce := v_last_reannounce\<rparr>) = link_inv tf k l"
  "link_inv tf k (l\<lparr>needs_down := v_needs_down\<rparr>) = link_inv tf k l"
  "link_inv tf k (l\<lparr>down_reason := v_down_reason\<rparr>) = link_inv tf k l"
  "link_inv tf k (l\<lparr>announce_pending := v_announce_pending\<rparr>) = link_inv tf k l"
  "link_inv tf k (l\<lparr>up_delivered := v_up_delivered\<rparr>) = link_inv tf k l"
  "link_inv tf k (l\<lparr>data_rx := v_data_rx\<rparr>) = link_inv tf k l"
  "link_inv tf k (l\<lparr>data_rx_tick_mark := v_data_rx_tick_mark\<rparr>) = link_inv tf k l"
  "link_inv tf k (l\<lparr>data_rx_proven := v_data_rx_proven\<rparr>) = link_inv tf k l"
  "link_inv tf k (l\<lparr>data_tx_proven := v_data_tx_proven\<rparr>) = link_inv tf k l"
  "link_inv tf k (l\<lparr>keepalive_tx_seq := v_keepalive_tx_seq\<rparr>) = link_inv tf k l"
  "link_inv tf k (l\<lparr>keepalive_tx_acked := v_keepalive_tx_acked\<rparr>) = link_inv tf k l"
  "link_inv tf k (l\<lparr>keepalive_tx_ack_mark := v_keepalive_tx_ack_mark\<rparr>) = link_inv tf k l"
  "link_inv tf k (l\<lparr>keepalive_peer_seq := v_keepalive_peer_seq\<rparr>) = link_inv tf k l"
  "link_inv tf k (l\<lparr>data_rx_bad := v_data_rx_bad\<rparr>) = link_inv tf k l"
  "link_inv tf k (l\<lparr>data_rx_oversize := v_data_rx_oversize\<rparr>) = link_inv tf k l"
  "link_inv tf k (l\<lparr>data_rx_stale := v_data_rx_stale\<rparr>) = link_inv tf k l"
  "link_inv tf k (l\<lparr>data_rx_bad_cookie := v_data_rx_bad_cookie\<rparr>) = link_inv tf k l"
  "link_inv tf k (l\<lparr>data_rx_prior_cookie := v_data_rx_prior_cookie\<rparr>) = link_inv tf k l"
  "link_inv tf k (l\<lparr>data_tx_done := v_data_tx_done\<rparr>) = link_inv tf k l"
  "link_inv tf k (l\<lparr>data_tx_submitted := v_data_tx_submitted\<rparr>) = link_inv tf k l"
  "link_inv tf k (l\<lparr>data_tx_refused := v_data_tx_refused\<rparr>) = link_inv tf k l"
  "link_inv tf k (l\<lparr>data_tx_ring_err := v_data_tx_ring_err\<rparr>) = link_inv tf k l"
  "link_inv tf k (l\<lparr>data_tx_canceled := v_data_tx_canceled\<rparr>) = link_inv tf k l"
  "link_inv tf k (l\<lparr>data_proven := v_data_proven\<rparr>) = link_inv tf k l"
  "link_inv tf k (l\<lparr>data_proof_unavailable_warned := v_data_proof_unavailable_warned\<rparr>) = link_inv tf k l"
  "link_inv tf k (l\<lparr>data_generation := v_data_generation\<rparr>) = link_inv tf k l"
  "link_inv tf k (l\<lparr>probe_attempts := v_probe_attempts\<rparr>) = link_inv tf k l"
  "link_inv tf k (l\<lparr>probe_failures := v_probe_failures\<rparr>) = link_inv tf k l"
  "link_inv tf k (l\<lparr>stale_drain_active := v_stale_drain_active\<rparr>) = link_inv tf k l"
  "link_inv tf k (l\<lparr>stale_drain_budget := v_stale_drain_budget\<rparr>) = link_inv tf k l"
  "link_inv tf k (l\<lparr>silent_ticks := v_silent_ticks\<rparr>) = link_inv tf k l"
  "link_inv tf k (l\<lparr>tx_silent_ticks := v_tx_silent_ticks\<rparr>) = link_inv tf k l"
  "link_inv tf k (l\<lparr>data_path_sample_valid := v_data_path_sample_valid\<rparr>) = link_inv tf k l"
  "link_inv tf k (l\<lparr>data_window := v_data_window\<rparr>) = link_inv tf k l"
  "link_inv tf k (l\<lparr>tx_blocked := v_tx_blocked\<rparr>) = link_inv tf k l"
  "link_inv tf k (l\<lparr>e2e_active := v_e2e_active\<rparr>) = link_inv tf k l"
  "link_inv tf k (l\<lparr>hw_active := v_hw_active\<rparr>) = link_inv tf k l"
  "link_inv tf k (l\<lparr>link_id := v_link_id\<rparr>) = link_inv tf k l"
  "link_inv tf k (l\<lparr>lroute := v_lroute\<rparr>) = link_inv tf k l"
  "link_inv tf k (l\<lparr>local_hopid := v_local_hopid\<rparr>) = link_inv tf k l"
  "link_inv tf k (l\<lparr>local_cookie := v_local_cookie\<rparr>) = link_inv tf k l"
  "link_inv tf k (l\<lparr>local_gid_eui64 := v_local_gid_eui64\<rparr>) = link_inv tf k l"
  "link_inv tf k (l\<lparr>remote_hopid := v_remote_hopid\<rparr>) = link_inv tf k l"
  "link_inv tf k (l\<lparr>remote_rx_entries := v_remote_rx_entries\<rparr>) = link_inv tf k l"
  "link_inv tf k (l\<lparr>remote_caps := v_remote_caps\<rparr>) = link_inv tf k l"
  "link_inv tf k (l\<lparr>remote_cookie := v_remote_cookie\<rparr>) = link_inv tf k l"
  "link_inv tf k (l\<lparr>previous_remote_cookie := v_previous_remote_cookie\<rparr>) = link_inv tf k l"
  "link_inv tf k (l\<lparr>remote_gid_eui64 := v_remote_gid_eui64\<rparr>) = link_inv tf k l"
  "link_inv tf k (l\<lparr>session_work := v_session_work\<rparr>) = link_inv tf k l"
  "link_inv tf k (l\<lparr>verify_timer := v_verify_timer\<rparr>) = link_inv tf k l"
  "link_inv tf k (l\<lparr>verify_work := v_verify_work\<rparr>) = link_inv tf k l"
  "link_inv tf k (l\<lparr>tx_released_work := v_tx_released_work\<rparr>) = link_inv tf k l"
  by (simp_all add: link_inv_def rx_inv_def)

lemma link_inv_rxf: "link_inv tf k l \<Longrightarrow> rx_out l i \<Longrightarrow> link_inv tf k (rxf i g l)"
  by (simp add: link_inv_def rx_inv_rxf)

lemma putback_inv:
  assumes "link_inv tf k l" "rx_out l i" "rx_refs (rx_frames l i) = 0"
  shows "link_inv tf k (tbframe_frame_putback_rx i l)"
proof -
  let ?l = "l\<lparr>rx_free := rx_free l @ [i]\<rparr>"
  have rx: "rx_inv l" and pool: "adm_inv tf l" "ref_inv k l"
    using assms(1) by (simp_all add: link_inv_def pool_inv_def)
  have "rx_inv ?l" using rx assms(2,3) by (auto simp: rx_inv_def rx_out_def list_all_iff)
  moreover have "length (rx_free l) < rx_n l"
    using rx assms(2) by (intro free_list_room [of _ _ i]) (auto simp: rx_inv_def rx_out_def list_all_iff)
  then have "ref_inv (Suc k) ?l" using pool(2) by (simp add: ref_inv_def)
  then have "pool_inv tf k (tbframe_link_put ?l)" using pool(1) by (intro put_inv) (simp add: pool_inv_def)
  moreover have "rx_inv (tbframe_link_put ?l) = rx_inv ?l"
    by (rule rx_inv_cong) (simp_all add: tbframe_link_put_def)
  ultimately show ?thesis by (simp add: link_inv_def tbframe_frame_putback_rx_def)
qed

lemma recycle_inv:
  assumes "link_inv tf k (lnk w)" "rx_out (lnk w) i" "rx_refs (rx_frames (lnk w) i) = 0"
  shows "link_inv tf k (lnk (tbframe_frame_recycle_rx ops i w))"
  using assms
  by (simp add: tbframe_frame_recycle_rx_def Let_def case_prod_beta putback_inv link_inv_rxf
      split: sum.split)

text \<open>The accounting of a completion touches neither pool.\<close>

lemma rx_kick_same [simp]:
  "rx_frames (tbframe_link_kick_locked d l) = rx_frames l" "rx_free (tbframe_link_kick_locked d l) = rx_free l"
  "data_proven (tbframe_link_kick_locked d l) = data_proven l"
  "rx_frame_count (tbframe_link_kick_locked d l) = rx_frame_count l"
  by (simp_all add: tbframe_link_kick_locked_def split: option.split)

lemma rx_authenticate_same [simp]:
  "rx_frames (rx_authenticate d ka l) = rx_frames l" "rx_free (rx_authenticate d ka l) = rx_free l"
  "rx_frame_count (rx_authenticate d ka l) = rx_frame_count l"
  "pool_inv tf k (rx_authenticate d ka l) = pool_inv tf k l"
  "session_view (rx_authenticate d ka l) = session_view l"
  by (simp_all add: rx_authenticate_def Let_def)

lemma rx_mismatch_same [simp]:
  "rx_frames (rx_cookie_mismatch c l) = rx_frames l" "rx_free (rx_cookie_mismatch c l) = rx_free l"
  "rx_frame_count (rx_cookie_mismatch c l) = rx_frame_count l"
  "pool_inv tf k (rx_cookie_mismatch c l) = pool_inv tf k l"
  "session_view (rx_cookie_mismatch c l) = session_view l"
  "data_proven (rx_cookie_mismatch c l) = data_proven l"
  by (simp_all add: rx_cookie_mismatch_def Let_def)

lemma rx_account_same [simp]:
  "rx_frames (rx_account i len bad p l) = rx_frames l" "rx_free (rx_account i len bad p l) = rx_free l"
  "rx_frame_count (rx_account i len bad p l) = rx_frame_count l"
  "pool_inv tf k (rx_account i len bad p l) = pool_inv tf k l"
  "session_view (rx_account i len bad p l) = session_view l"
  by (simp_all add: rx_account_def Let_def case_prod_beta)

lemma rx_supersede_same [simp]:
  "rx_frames (rx_supersede c l) = rx_frames l" "rx_free (rx_supersede c l) = rx_free l"
  "rx_frame_count (rx_supersede c l) = rx_frame_count l"
  "pool_inv tf k (rx_supersede c l) = pool_inv tf k l"
  "session_view (rx_supersede c l) = session_view l" "data_proven (rx_supersede c l) = data_proven l"
  by (simp_all add: rx_supersede_def)

lemma link_inv_same:
  assumes "rx_frames l' = rx_frames l" "rx_free l' = rx_free l" "rx_frame_count l' = rx_frame_count l"
    "pool_inv tf k l' = pool_inv tf k l"
  shows "link_inv tf k l' = link_inv tf k l" "rx_out l' i = rx_out l i"
  using assms by (simp_all add: link_inv_def rx_inv_def rx_out_def)

lemma get_rx_pow [simp]:
  "(tbframe_frame_get_rx i ^^ n) l = (if n = 0 then l else rxf i (\<lambda>f. f\<lparr>rx_refs := rx_refs f + n\<rparr>) l)"
  by (induction n) (simp_all add: tbframe_frame_get_rx_def rxf_def)

lemma rx_put_ref_inv:
  assumes "link_inv tf k (lnk w)" "rx_out (lnk w) i"
  shows "link_inv tf k (lnk (rx_put_ref ops i w))"
  using assms by (simp add: rx_put_ref_def Let_def recycle_inv link_inv_rxf)

lemma rx_deliver_inv:
  assumes "link_inv tf k (lnk w)" "rx_out (lnk w) i"
  shows "link_inv tf k (lnk (rx_deliver ops tf i len pdf takes w))"
  using assms
  by (auto simp: rx_deliver_def Let_def rx_set_frame_def intro!: rx_put_ref_inv link_inv_rxf
      split: option.split)

lemma rx_report_bad_sel:
  "lnk (rx_report_bad tf i len pdf w) = rx_set_frame i len pdf (lnk w)"
  by (simp add: rx_report_bad_def Let_def split: option.split)

lemma link_inv_account [simp]:
  "link_inv tf k (rx_account i len bad p l) = link_inv tf k l" "rx_out (rx_account i len bad p l) j = rx_out l j"
  "link_inv tf k (rx_supersede x l) = link_inv tf k l" "rx_out (rx_supersede x l) j = rx_out l j"
  by (rule link_inv_same; simp)+

lemma rx_finish_inv:
  assumes "link_inv tf k (lnk w)" "rx_out (lnk w) i" "rx_refs (rx_frames (lnk w) i) = 0"
  shows "link_inv tf k (lnk (rx_finish ops tf i len pdf bad takes cur pr ck w))"
  using assms
  by (simp add: rx_finish_def Let_def recycle_inv rx_deliver_inv rx_report_bad_sel rx_set_frame_def link_inv_rxf)

lemma rx_complete_inv:
  assumes "link_inv tf k (lnk w)" "rx_out (lnk w) i" "rx_refs (rx_frames (lnk w) i) = 0"
  shows "link_inv tf k (lnk (tbframe_core_rx_complete ops tf i c len pdf bad takes w))"
  using assms
  by (simp add: tbframe_core_rx_complete_def Let_def case_prod_beta putback_inv rx_finish_inv)

lemma session_view_rx [simp]:
  "session_view (tbframe_frame_putback_rx i l) = session_view l"
  "session_view (lnk (tbframe_frame_recycle_rx ops i w)) = session_view (lnk w)"
  by (simp_all add: tbframe_frame_putback_rx_def tbframe_frame_recycle_rx_def Let_def case_prod_beta
      split: sum.split)

lemma session_view_rx_put [simp]: "session_view (lnk (rx_put_ref ops i w)) = session_view (lnk w)"
  by (simp add: rx_put_ref_def Let_def)

lemma session_view_rx_finish [simp]:
  "session_view (lnk (rx_finish ops tf i len pdf bad takes cur pr ck w)) = session_view (lnk w)"
  by (simp add: rx_finish_def Let_def rx_report_bad_sel rx_set_frame_def rx_deliver_def split: option.split)

lemma session_view_rx_complete [simp]:
  "session_view (lnk (tbframe_core_rx_complete ops tf i c len pdf bad takes w)) = session_view (lnk w)"
  by (simp add: tbframe_core_rx_complete_def Let_def case_prod_beta)

lemma data_proven_rx [simp]:
  "data_proven (tbframe_frame_putback_rx i l) = data_proven l"
  "data_proven (lnk (tbframe_frame_recycle_rx ops i w)) = data_proven (lnk w)"
  by (simp_all add: tbframe_frame_putback_rx_def tbframe_frame_recycle_rx_def tbframe_link_put_def Let_def
      case_prod_beta split: sum.split)

lemma data_proven_rx_put [simp]: "data_proven (lnk (rx_put_ref ops i w)) = data_proven (lnk w)"
  by (simp add: rx_put_ref_def Let_def)

lemma data_proven_rx_finish [simp]:
  "data_proven (lnk (rx_finish ops tf i len pdf bad takes cur pr ck w)) = data_proven (lnk w)"
  by (simp add: rx_finish_def Let_def rx_report_bad_sel rx_set_frame_def rx_deliver_def split: option.split)

text \<open>C8: A completion can turn the data path proven only if it is a good keepalive received into a
  descriptor of the current session, over running rings and enabled paths, that carries the
  negotiated cookie of the peer; a directional peer must also number it and, unless the transmit
  direction was already proven, echo a sequence number this side has sent under its own cookie.\<close>

theorem rx_proof_authentic:
  assumes "\<not> data_proven (lnk w)"
    and "data_proven (lnk (tbframe_core_rx_complete ops tf i canceled len pdf bad takes w))"
    and "ka = tbframe_wire_parse_keepalive (fdata (rx_frames (lnk w) i))"
  shows "\<not> canceled \<and> \<not> bad \<and> pdf = TBFRAME_PDF_KEEPALIVE
    \<and> rx_generation (rx_frames (lnk w) i) = data_generation (lnk w)
    \<and> rings_up (lnk w) \<and> paths_enabled (lnk w)
    \<and> ka_session_cookie ka = remote_cookie (lnk w)
    \<and> (if rx_directional (lnk w)
       then len = 32 \<and> ka_sequence ka \<noteq> 0 \<and> (data_tx_proven (lnk w) \<or>
           ka_ack_cookie ka = local_cookie (lnk w) \<and> 0 < ka_ack_sequence ka
           \<and> ka_ack_sequence ka \<le> keepalive_tx_seq (lnk w))
       else len = 8)"
proof -
  obtain pr ck kk where p: "rx_parse_proof (lnk w) (fdata (rx_frames (lnk w) i)) len pdf bad = (pr, ck, kk)"
    by (metis prod_cases3)
  have c: "\<not> canceled" using assms(1,2) by (auto simp: tbframe_core_rx_complete_def)
  then have acc: "data_proven (rx_account i len bad (pr, ck, kk) (lnk w))"
    using assms(2) p by (simp add: tbframe_core_rx_complete_def)
  define l where "l = (lnk w)\<lparr>data_rx := data_rx (lnk w) + 1\<rparr>"
  have gates: "rx_generation (rx_frames (lnk w) i) = data_generation (lnk w)" "\<not> bad" "pr"
      "ck = remote_cookie (lnk w)" "rings_up (lnk w)" "paths_enabled (lnk w)"
      "data_proven (rx_authenticate (rx_directional (lnk w)) kk l)"
    using acc assms(1) by (auto simp: rx_account_def Let_def l_def rx_directional_def split: if_splits)
  have dir: "pdf = TBFRAME_PDF_KEEPALIVE" "ck = ka_session_cookie ka"
      "rx_directional (lnk w) \<Longrightarrow> len = 32 \<and> kk = ka \<and> ka_sequence ka \<noteq> 0" "\<not> rx_directional (lnk w) \<Longrightarrow> len = 8"
    using p gates(2,3) assms(3)
    by (auto simp: rx_parse_proof_def Let_def TBFRAME_KEEPALIVE_LEN_def TBFRAME_WIRE_KEEPALIVE_SIZE_def
        TBFRAME_WIRE_KEEPALIVE_LEGACY_SIZE_def tbframe_wire_parse_keepalive_def split: if_splits)
  have "rx_directional (lnk w) \<Longrightarrow> data_tx_proven (lnk w) \<or>
      ka_ack_cookie ka = local_cookie (lnk w) \<and> 0 < ka_ack_sequence ka \<and> ka_ack_sequence ka \<le> keepalive_tx_seq (lnk w)"
    using gates(7) dir(3) assms(1)
    by (auto simp: rx_authenticate_def Let_def l_def word_gt_0 split: if_splits)
  then show ?thesis using c gates dir by simp
qed

text \<open>The sample link probing its peer: one descriptor on the ring holds a directional keepalive that
  acknowledges the one this side has sent.\<close>

definition link_probe_sample :: tbframe_link where
  "link_probe_sample = link_up_sample\<lparr>lstate := TBFRAME_STATE_INIT, up_delivered := False,
     rx_free := [1], refcnt := 2, keepalive_tx_seq := 1,
     rx_frames := (\<lambda>_. frame_sample\<lparr>is_rx := True, fdata :=
       [3, 0, 0, 0, 0, 0, 0, 0, 1, 0, 0, 0, 0, 0, 0, 0, 7, 0, 0, 0, 0, 0, 0, 0, 1, 0, 0, 0, 0, 0, 0, 0]\<rparr>)\<rparr>"

lemma probe_parse:
  "tbframe_wire_parse_keepalive (fdata (rx_frames link_probe_sample 0))
   = \<lparr>ka_session_cookie = 3, ka_sequence = 1, ka_ack_cookie = 7, ka_ack_sequence = 1\<rparr>"
  by (simp add: link_probe_sample_def sample_defs tbframe_wire_parse_keepalive_def tbframe_wire_get_le64_def
      tbframe_wire_get_le32_def)

theorem rx_proof_authentic_witness:
  "data_proven (lnk (tbframe_core_rx_complete hw_accept tf_sample 0 False 32 5 False 0 (world_of link_probe_sample)))
   \<and> (5 :: u8) = TBFRAME_PDF_KEEPALIVE \<and> remote_cookie link_probe_sample = 3"
proof -
  let ?w = "world_of link_probe_sample"
  have l: "lnk ?w = link_probe_sample" by (simp add: world_of_def)
  have s: "\<not> data_proven link_probe_sample" "remote_caps link_probe_sample = 6" "rings_up link_probe_sample"
      "paths_enabled link_probe_sample" "rx_generation (rx_frames link_probe_sample 0) = data_generation link_probe_sample"
      "remote_cookie link_probe_sample = 3" "local_cookie link_probe_sample = 7" "keepalive_tx_seq link_probe_sample = 1"
    by (simp_all add: link_probe_sample_def sample_defs)
  have "rx_directional link_probe_sample" by (simp add: rx_directional_def s wire_caps)
  then have "data_proven (lnk (tbframe_core_rx_complete hw_accept tf_sample 0 False 32 5 False 0 ?w))"
    using s by (simp add: l tbframe_core_rx_complete_def rx_parse_proof_def Let_def probe_parse rx_account_def
        rx_authenticate_def rx_directional_def TBFRAME_KEEPALIVE_LEN_def TBFRAME_WIRE_KEEPALIVE_SIZE_def
        TBFRAME_PDF_KEEPALIVE_def TBFRAME_MAX_FRAME_def)
  then show ?thesis
    using rx_proof_authentic [of ?w hw_accept tf_sample 0 False 32 5 False 0, OF _ _ refl] s
    by (simp add: l probe_parse)
qed

lemma rx_account_lstate [simp]: "lstate (rx_account i len bad p l) = lstate l"
  using session_viewD(1) [OF rx_account_same(5)] .

fun is_rx_upcall :: "obs \<Rightarrow> bool" where
  "is_rx_upcall (ORx _) = True"
| "is_rx_upcall _ = False"

lemma rx_upcalls_recycle [simp]:
  "filter is_rx_upcall (trace (tbframe_frame_recycle_rx ops i w)) = filter is_rx_upcall (trace w)"
  by (simp add: tbframe_frame_recycle_rx_def Let_def case_prod_beta split: sum.split)

lemma rx_upcalls_put [simp]:
  "filter is_rx_upcall (trace (rx_put_ref ops i w)) = filter is_rx_upcall (trace w)"
  by (simp add: rx_put_ref_def Let_def)

lemma rx_upcalls_bad [simp]:
  "filter is_rx_upcall (trace (rx_report_bad tf i len pdf w)) = filter is_rx_upcall (trace w)"
  by (simp add: rx_report_bad_def Let_def split: option.split)

lemma rx_upcalls_deliver:
  "filter is_rx_upcall (trace (rx_deliver ops tf i len pdf takes w)) = filter is_rx_upcall (trace w)
    @ (case client_ops tf of None \<Rightarrow> [] | Some c \<Rightarrow> if has_rx c then [ORx i] else [])"
  by (simp add: rx_deliver_def Let_def split: option.split)

text \<open>C20: A completion reaches the client's receive upcall exactly once, and only when it is not
  cancelled, carries no error, is not longer than a frame, is not a keepalive, was received into a
  descriptor posted by the current session, and the session is established.\<close>

theorem rx_delivery_gate:
  assumes "w' = tbframe_core_rx_complete ops tf i canceled len pdf bad takes w"
  shows "filter is_rx_upcall (trace w') = filter is_rx_upcall (trace w) @
    (if \<not> canceled \<and> \<not> bad \<and> len \<le> 4096 \<and> pdf \<noteq> TBFRAME_PDF_KEEPALIVE
        \<and> rx_generation (rx_frames (lnk w) i) = data_generation (lnk w)
        \<and> lstate (lnk w) = TBFRAME_STATE_UP \<and> (\<exists>c. client_ops tf = Some c \<and> has_rx c)
     then [ORx i] else [])"
  by (auto simp: assms tbframe_core_rx_complete_def rx_finish_def Let_def case_prod_beta
      TBFRAME_MAX_FRAME_def rx_upcalls_deliver not_le split: option.split)

theorem rx_delivery_gate_witness:
  "filter is_rx_upcall (trace (tbframe_core_rx_complete hw_accept tf_sample 0 False 64 TBFRAME_PDF_DATA False 1
      (world_of (link_up_sample\<lparr>rx_free := [1]\<rparr>)))) = [ORx 0]"
  using rx_delivery_gate [OF refl, of hw_accept tf_sample 0 False 64 TBFRAME_PDF_DATA False 1
      "world_of (link_up_sample\<lparr>rx_free := [1]\<rparr>)"]
  by (simp add: sample_defs TBFRAME_PDF_DATA_def TBFRAME_PDF_KEEPALIVE_def)


text \<open>Where a descriptor is after a completion or a put.\<close>

lemma recycle_place:
  "(\<exists>r. trace (tbframe_frame_recycle_rx ops i w) = trace w @ r \<and>
     (r = [OPostRx i (Inr ())] \<and> rx_free (lnk (tbframe_frame_recycle_rx ops i w)) = rx_free (lnk w)
        \<and> rx_generation (rx_frames (lnk (tbframe_frame_recycle_rx ops i w)) i) = data_generation (lnk w)
        \<and> rings_up (lnk w) \<and> \<not> removing (lnk w)
      \<or> set r \<subseteq> {OPostRx i e | e. e \<noteq> Inr ()} \<and>
        rx_free (lnk (tbframe_frame_recycle_rx ops i w)) = rx_free (lnk w) @ [i]))"
proof (cases "rings_up (lnk w) \<and> \<not> removing (lnk w)")
  case True
  let ?w = "upd (\<lambda>l. rxf i (\<lambda>f. f\<lparr>rx_generation := data_generation l\<rparr>) l) (upd hw_active_inc w)"
  obtain r w1 where h: "hw_call (op_post_rx ops i) (OPostRx i) ?w = (r, w1)" by fastforce
  have w1: "lnk w1 = lnk ?w" "trace w1 = trace w @ [OPostRx i r]" using hw_call_sel [OF h] by simp_all
  show ?thesis
    using True h w1
    by (cases r) (auto simp: tbframe_frame_recycle_rx_def Let_def tbframe_frame_putback_rx_def tbframe_link_put_def
        hw_active_inc_def hw_active_dec_def)
next
  case False
  then show ?thesis
    by (auto simp: tbframe_frame_recycle_rx_def Let_def tbframe_frame_putback_rx_def tbframe_link_put_def
        hw_active_inc_def hw_active_dec_def)
qed

text \<open>C35: The client's last reference gives a received descriptor back: while references remain nothing
  but the count changes; when the last one is dropped the descriptor is posted to the running rings
  stamped with the current session, or returned to the pool; on every path the pools and the link's
  reference count stay exact.\<close>

theorem put_rx_returns_descriptor:
  assumes "link_inv tf k (lnk w)" and "rx_out (lnk w) i" and "0 < rx_refs (rx_frames (lnk w) i)"
    and "frame = \<lparr>fr_link = link_id (lnk w), fr_rx = True, fr_idx = i\<rparr>"
    and "w' = tbframe_frame_put_rx ops frame w"
  shows "link_inv tf k (lnk w') \<and>
    (if rx_refs (rx_frames (lnk w) i) = 1
     then trace w' = trace w @ [OPostRx i (Inr ())] \<and> rx_free (lnk w') = rx_free (lnk w)
            \<and> rx_generation (rx_frames (lnk w') i) = data_generation (lnk w) \<and> rings_up (lnk w)
        \<or> rx_free (lnk w') = rx_free (lnk w) @ [i]
     else trace w' = trace w \<and> rx_free (lnk w') = rx_free (lnk w)
        \<and> rx_refs (rx_frames (lnk w') i) = rx_refs (rx_frames (lnk w) i) - 1)"
proof -
  have e: "w' = rx_put_ref ops i w" using assms(4,5) by (simp add: tbframe_frame_put_rx_def)
  have "link_inv tf k (lnk w')" unfolding e by (rule rx_put_ref_inv [OF assms(1,2)])
  moreover have "if rx_refs (rx_frames (lnk w) i) = 1
     then trace w' = trace w @ [OPostRx i (Inr ())] \<and> rx_free (lnk w') = rx_free (lnk w)
            \<and> rx_generation (rx_frames (lnk w') i) = data_generation (lnk w) \<and> rings_up (lnk w)
        \<or> rx_free (lnk w') = rx_free (lnk w) @ [i]
     else trace w' = trace w \<and> rx_free (lnk w') = rx_free (lnk w)
        \<and> rx_refs (rx_frames (lnk w') i) = rx_refs (rx_frames (lnk w) i) - 1"
    using assms(3) recycle_place [of ops i "upd (rxf i (\<lambda>f. f\<lparr>rx_refs := rx_refs f - 1\<rparr>)) w"]
    unfolding e rx_put_ref_def Let_def by (auto simp: rxf_def)
  ultimately show ?thesis by blast
qed

theorem put_rx_returns_descriptor_witness:
  "rx_free (lnk (tbframe_frame_put_rx hw_reject \<lparr>fr_link = 1, fr_rx = True, fr_idx = 0\<rparr>
      (world_of (link_up_sample\<lparr>rx_free := [1], refcnt := 2,
         rx_frames := (\<lambda>i. frame_sample\<lparr>is_rx := True, rx_refs := of_bool (i = 0)\<rparr>)\<rparr>)))) = [1, 0]"
proof -
  let ?l = "link_up_sample\<lparr>rx_free := [1], refcnt := 2,
         rx_frames := (\<lambda>i. frame_sample\<lparr>is_rx := True, rx_refs := of_bool (i = 0)\<rparr>)\<rparr>"
  have inv: "link_inv tf_sample 1 ?l" "rx_out ?l 0" "rx_refs (rx_frames ?l 0) = 1" "rx_free ?l = [1]" "link_id ?l = 1"
    by (simp_all add: link_inv_def pool_inv_def ref_inv_def adm_defs rx_inv_def rx_out_def sample_defs cnt_2 all_less_2)
  have w: "lnk (world_of ?l) = ?l" "trace (world_of ?l) = []" by (simp_all add: world_of_def)
  have "trace (tbframe_frame_put_rx hw_reject \<lparr>fr_link = 1, fr_rx = True, fr_idx = 0\<rparr> (world_of ?l))
      \<noteq> [OPostRx 0 (Inr ())]"
    by (simp add: tbframe_frame_put_rx_def rx_put_ref_def tbframe_frame_recycle_rx_def Let_def hw_call_def
        hw_active_inc_def rxf_def sample_defs)
  then show ?thesis
    using put_rx_returns_descriptor [of tf_sample 1 "world_of ?l" 0, OF _ _ _ refl refl, of hw_reject] inv
    unfolding w by auto
qed

end
