(* ===== verification/Tbframe_Packet.thy ===== *)
theory Tbframe_Packet
  imports Tbframe_Rx
begin

text \<open>
  What runs on a link beside its session machine: the inbound control-plane handler
  (\<open>tbframe_link_handle_packet\<close> with the deferred READY response), and the periodic verify step
  with its timer and work item, of \<^verbatim>\<open>frame/core.c\<close>.

  Shown: what each acknowledgement certifies at the moment it is sent, that a packet never changes
  the negotiated session behind the session machine's back, and when a verify tick condemns an
  established session.
\<close>

section \<open>Inbound control packets\<close>

definition wire_buf :: "u8 list" where
  "wire_buf = replicate TBFRAME_WIRE_HELLO_MSG_SIZE 0"

text \<open>Build a reply from the local identity restricted to the peer's capabilities, and send it.\<close>

definition tbframe_link_reply ::
  "'h tbframe_hw_ops \<Rightarrow> tbframe \<Rightarrow> u16 \<Rightarrow> u32 \<Rightarrow> u32 \<Rightarrow> u8 \<Rightarrow> 'h world \<Rightarrow> rc \<times> 'h world" where
  "tbframe_link_reply ops tf op peer_caps seq xdomain_sequence w =
    (let local = tbframe_link_fill_local_hello tf (lnk w) peer_caps
     in case tbframe_wire_build_hello (Some wire_buf) (Some local) op seq (lroute (lnk w)) xdomain_sequence of
          Inl e \<Rightarrow> (Inl e, w)
        | Inr reply \<Rightarrow> hw_call (op_control_response ops reply) (OResponse reply) w)"

text \<open>\<open>tbframe_link_flush_ready_response\<close>: called by the packet handler and by the session machine.
  \<open>window\<close> is what other contexts do between its two critical sections.\<close>

definition ready_promote :: "tbframe_link \<Rightarrow> tbframe_link" where
  "ready_promote l =
    (if rr_state (ready_responder l) = TBFRAME_READY_RESPONDER_PENDING_PATHS \<and>
        paths_enabled l \<and> \<not> needs_down l
     then l\<lparr>ready_responder := (ready_responder l)\<lparr>rr_state := TBFRAME_READY_RESPONDER_PENDING_SEND\<rparr>\<rparr>
     else l)"

definition ready_blocked :: "tbframe_link \<Rightarrow> bool" where
  "ready_blocked l =
    (rr_state (ready_responder l) \<noteq> TBFRAME_READY_RESPONDER_PENDING_SEND \<or>
     needs_down l \<or> removing l \<or> parked l \<or>
     \<not> tbframe_link_remote_matches_locked l (rr_peer (ready_responder l)))"

definition ready_acked :: "u32 \<Rightarrow> u8 \<Rightarrow> tbframe_link \<Rightarrow> tbframe_link" where
  "ready_acked seq xdomain_sequence l =
    (if rr_state (ready_responder l) = TBFRAME_READY_RESPONDER_PENDING_SEND \<and>
        rr_seq (ready_responder l) = seq \<and> rr_xdomain_sequence (ready_responder l) = xdomain_sequence
     then l\<lparr>ready_responder := (ready_responder l)\<lparr>rr_state := TBFRAME_READY_RESPONDER_ACKED\<rparr>\<rparr>
     else l)"

definition tbframe_link_flush_ready_response ::
  "('h world \<Rightarrow> 'h world) \<Rightarrow> 'h tbframe_hw_ops \<Rightarrow> tbframe \<Rightarrow> 'h world \<Rightarrow> rc \<times> 'h world" where
  "tbframe_link_flush_ready_response window ops tf w =
    (let w = upd ready_promote w
     in if ready_blocked (lnk w) then (Inr (), w)
        else
         (let seq = rr_seq (ready_responder (lnk w));
              xdomain_sequence = rr_xdomain_sequence (ready_responder (lnk w));
              (ret, w) = tbframe_link_reply ops tf TBFRAME_WIRE_OP_READY_ACK
                           (tbframe_link_selected_peer_caps (lnk w)) seq xdomain_sequence w;
              w = window w
          in case ret of
               Inr u \<Rightarrow> (Inr u, upd (ready_acked seq xdomain_sequence) w)
             | Inl e \<Rightarrow> (Inl e, w)))"

text \<open>The fence at the entry of the packet handler.\<close>

definition packet_refused :: "u16 \<Rightarrow> tbframe_link \<Rightarrow> bool" where
  "packet_refused op l =
    (removing l \<or> lstate l = TBFRAME_STATE_DEAD \<or>
     (parked l \<or> needs_down l) \<and> (op = TBFRAME_WIRE_OP_HELLO \<or> op = TBFRAME_WIRE_OP_READY))"

definition request_down :: "tbframe_down_reason \<Rightarrow> tbframe_link \<Rightarrow> tbframe_link" where
  "request_down reason l = tbframe_link_kick_locked 0 (l\<lparr>needs_down := True, down_reason := reason\<rparr>)"

definition hs_supersede :: "tbframe_link \<Rightarrow> tbframe_link" where
  "hs_supersede l = l\<lparr>hs := snd (tb_xdomain_handshake_supersede (hs l))\<rparr>"

definition rearm_budgets :: "tbframe_link \<Rightarrow> tbframe_link" where
  "rearm_budgets l = l\<lparr>hello_attempts := 0, hs := (hs l)\<lparr>attempts := 0\<rparr>\<rparr>"

definition handle_hello ::
  "'h tbframe_hw_ops \<Rightarrow> tbframe \<Rightarrow> tbframe_wire_hello \<Rightarrow> tbframe_wire_info \<Rightarrow> 'h world \<Rightarrow> bool \<times> 'h world" where
  "handle_hello ops tf remote info w =
    (if proto_version remote \<noteq> TBFRAME_WIRE_VERSION then (True, w)
     else
      (let w = upd (\<lambda>l. l\<lparr>hello_responder := \<lparr>hr_seen = True, hr_peer = remote\<rparr>\<rparr>) w
       in if hello_done (lnk w) \<and> \<not> tbframe_link_remote_matches_locked (lnk w) remote \<and>
             lstate (lnk w) \<noteq> TBFRAME_STATE_UP
          then (True, upd (\<lambda>l. request_down TBFRAME_DOWN_SUPERSEDE (hs_supersede l)) w)
          else
           (let w = upd tbframe_ready_responder_reset w
            in if lstate (lnk w) = TBFRAME_STATE_UP \<and> \<not> needs_down (lnk w) \<and>
                  \<not> tbframe_link_remote_matches_locked (lnk w) remote
               then (True, upd (\<lambda>l. tbframe_link_kick_locked 0 (rearm_budgets
                      ((hs_supersede l)\<lparr>needs_down := True, down_reason := TBFRAME_DOWN_SUPERSEDE\<rparr>))) w)
               else
                (let w = upd (\<lambda>l. tbframe_link_kick_locked 0 (rearm_budgets l)) w
                 in (True, snd (tbframe_link_reply ops tf TBFRAME_WIRE_OP_HELLO_ACK (capabilities remote)
                                  (info_seq info) (info_xdomain_sequence info) w))))))"

definition ready_record :: "tbframe_wire_hello \<Rightarrow> tbframe_wire_info \<Rightarrow> tbframe_link \<Rightarrow> tbframe_link" where
  "ready_record remote info l =
    (let l = l\<lparr>hs := (hs l)\<lparr>peer_seen := True\<rparr>\<rparr>;
         enabled = (paths_enabled l \<and> \<not> needs_down l)
     in tbframe_link_kick_locked 0
          (l\<lparr>ready_responder :=
              \<lparr>rr_state = (if enabled then TBFRAME_READY_RESPONDER_PENDING_SEND
                           else TBFRAME_READY_RESPONDER_PENDING_PATHS),
               rr_seq = info_seq info, rr_xdomain_sequence = info_xdomain_sequence info,
               rr_peer = remote\<rparr>\<rparr>))"

definition handle_ready ::
  "'h tbframe_hw_ops \<Rightarrow> tbframe \<Rightarrow> tbframe_wire_hello \<Rightarrow> tbframe_wire_info \<Rightarrow> 'h world \<Rightarrow> bool \<times> 'h world" where
  "handle_ready ops tf remote info w =
    (if hello_done (lnk w) \<and> \<not> tbframe_link_remote_matches_locked (lnk w) remote then (True, w)
     else (True, snd (tbframe_link_flush_ready_response id ops tf (upd (ready_record remote info) w))))"

definition handle_bye ::
  "'h tbframe_hw_ops \<Rightarrow> tbframe \<Rightarrow> tbframe_wire_hello \<Rightarrow> tbframe_wire_info \<Rightarrow> 'h world \<Rightarrow> bool \<times> 'h world" where
  "handle_bye ops tf remote info w =
    (let active_session = (lstate (lnk w) = TBFRAME_STATE_UP \<or> rings_up (lnk w) \<and> paths_enabled (lnk w));
         w = (if active_session \<and> \<not> needs_down (lnk w) then upd (request_down TBFRAME_DOWN_LOGOUT) w else w);
         quiesced = (lstate (lnk w) \<noteq> TBFRAME_STATE_UP \<and> tx_quiesced (lnk w) \<and> ring_posted (lnk w) = 0)
     in if \<not> quiesced then (True, w)
        else (True, snd (tbframe_link_reply ops tf TBFRAME_WIRE_OP_BYE_ACK (capabilities remote)
                           (info_seq info) (info_xdomain_sequence info) w)))"

definition tbframe_link_handle_packet ::
  "'h tbframe_hw_ops \<Rightarrow> tbframe \<Rightarrow> u8 list \<Rightarrow> 'h world \<Rightarrow> bool \<times> 'h world" where
  "tbframe_link_handle_packet ops tf buf w =
    (case tbframe_wire_parse_hello (Some buf) of
       Inl _ \<Rightarrow> (False, w)
     | Inr (remote, info) \<Rightarrow>
         if info_route info \<noteq> lroute (lnk w) then (False, w)
         else if packet_refused (info_op info) (lnk w) then (False, w)
         else if info_op info = TBFRAME_WIRE_OP_HELLO then handle_hello ops tf remote info w
         else if info_op info = TBFRAME_WIRE_OP_READY then handle_ready ops tf remote info w
         else if info_op info = TBFRAME_WIRE_OP_BYE then handle_bye ops tf remote info w
         else (False, w))"

section \<open>The verify tick\<close>

definition verify_condemn :: "tbframe_link \<Rightarrow> tbframe_link" where
  "verify_condemn l =
    (if lstate l = TBFRAME_STATE_UP \<and> \<not> needs_down l then request_down TBFRAME_DOWN_VERIFY l else l)"

definition verify_rx_silent :: "tbframe_link \<Rightarrow> bool \<times> tbframe_link" where
  "verify_rx_silent l =
    (if data_rx l \<noteq> data_rx_tick_mark l
     then (False, l\<lparr>data_rx_tick_mark := data_rx l, silent_ticks := 0\<rparr>)
     else (let l = l\<lparr>silent_ticks := silent_ticks l + 1\<rparr>
           in (silent_ticks l \<ge> TBFRAME_DATA_SILENCE_TICKS, l)))"

definition verify_tx_silent :: "bool \<Rightarrow> tbframe_link \<Rightarrow> bool \<times> tbframe_link" where
  "verify_tx_silent directional l =
    (if \<not> directional then (False, l\<lparr>tx_silent_ticks := 0\<rparr>)
     else if keepalive_tx_acked l \<noteq> keepalive_tx_ack_mark l
     then (False, l\<lparr>keepalive_tx_ack_mark := keepalive_tx_acked l, tx_silent_ticks := 0\<rparr>)
     else (let l = l\<lparr>tx_silent_ticks := tx_silent_ticks l + 1\<rparr>
           in (tx_silent_ticks l \<ge> TBFRAME_DATA_SILENCE_TICKS, l)))"

text \<open>The silence detector: whether the session was condemned, and the link.\<close>

definition verify_silence :: "bool \<Rightarrow> tbframe_link \<Rightarrow> bool \<times> tbframe_link" where
  "verify_silence directional l =
    (let (rx_silent, l) = verify_rx_silent l;
         (tx_silent, l) = verify_tx_silent directional l
     in if (rx_silent \<or> tx_silent) \<and> lstate l = TBFRAME_STATE_UP \<and> \<not> needs_down l
        then (True, tbframe_link_kick_locked 0
               (l\<lparr>needs_down := True, down_reason := TBFRAME_DOWN_VERIFY, data_proven := False,
                  data_rx_proven := (if rx_silent then False else data_rx_proven l),
                  data_tx_proven := (if tx_silent then False else data_tx_proven l),
                  silent_ticks := 0, tx_silent_ticks := 0\<rparr>))
        else (False, l))"

definition rearm_verify_timer :: "tbframe \<Rightarrow> tbframe_link \<Rightarrow> tbframe_link" where
  "rearm_verify_timer tf l =
    (if \<not> removing l \<and> lstate l = TBFRAME_STATE_UP then l\<lparr>verify_timer := Some (verify_ms tf)\<rparr> else l)"

definition tbframe_link_verify_step :: "'h tbframe_hw_ops \<Rightarrow> tbframe \<Rightarrow> 'h world \<Rightarrow> 'h world" where
  "tbframe_link_verify_step ops tf w =
    (if removing (lnk w) \<or> parked (lnk w) \<or> lstate (lnk w) \<noteq> TBFRAME_STATE_UP then w
     else
      (let remote_hopid = remote_hopid (lnk w);
           remote_caps = remote_caps (lnk w);
           local_hopid = local_hopid (lnk w);
           (ret, w) = hw_call (op_paths_active ops local_hopid remote_hopid)
                        (OPathsActive local_hopid remote_hopid) w;
           zombie = tb_xdomain_session_zombie (hs (lnk w)) (ret \<noteq> Inr False)
       in if zombie then upd verify_condemn w
          else if keepalive tf \<and> remote_caps AND TBFRAME_WIRE_CAP_KEEPALIVE \<noteq> 0 then
            (let directional = (remote_caps AND TBFRAME_WIRE_CAP_KEEPALIVE_ACK \<noteq> 0);
                 w = snd (tbframe_link_send_keepalive ops tf False w);
                 (condemned, l) = verify_silence directional (lnk w);
                 w = w\<lparr>lnk := l\<rparr>
             in if condemned then w else upd (rearm_verify_timer tf) w)
          else upd (rearm_verify_timer tf) w))"

definition tbframe_verify_workfn :: "'h tbframe_hw_ops \<Rightarrow> tbframe \<Rightarrow> 'h world \<Rightarrow> 'h world" where
  "tbframe_verify_workfn ops tf w = tbframe_link_verify_step ops tf (upd (\<lambda>l. l\<lparr>verify_work := False\<rparr>) w)"

definition tbframe_verify_timer_fn :: "tbframe_link \<Rightarrow> tbframe_link" where
  "tbframe_verify_timer_fn l = (if \<not> removing l \<and> \<not> parked l then l\<lparr>verify_work := True\<rparr> else l)"

section \<open>What the handlers leave alone\<close>

text \<open>Neither pool, and nothing of the negotiated session.\<close>

lemma reply_keeps [simp]:
  "lnk (snd (tbframe_link_reply ops tf op caps seq xs w)) = lnk w"
  "sched (snd (tbframe_link_reply ops tf op caps seq xs w)) = sched w"
  by (simp_all add: tbframe_link_reply_def Let_def split: sum.split)

definition calm :: "(tbframe_link \<Rightarrow> tbframe_link) \<Rightarrow> bool" where
  "calm f = (\<forall>tf k l. link_inv tf k (f l) = link_inv tf k l \<and> session_view (f l) = session_view l)"

lemma calm_comp: "calm f \<Longrightarrow> calm g \<Longrightarrow> calm (\<lambda>l. f (g l))"
  by (simp add: calm_def)

lemma calm_if: "(b \<Longrightarrow> calm f) \<Longrightarrow> (\<not> b \<Longrightarrow> calm g) \<Longrightarrow> calm (if b then f else g)"
  by simp

lemma calmI:
  assumes "\<And>tf k l. rx_frames (f l) = rx_frames l \<and> rx_free (f l) = rx_free l
      \<and> rx_frame_count (f l) = rx_frame_count l \<and> pool_inv tf k (f l) = pool_inv tf k l
      \<and> session_view (f l) = session_view l"
  shows "calm f"
  unfolding calm_def using assms link_inv_same by metis

lemma calm_kick: "calm (tbframe_link_kick_locked d)"
  by (rule calmI) simp

lemma calm_ready: "calm ready_promote" "calm (ready_acked s x)" "calm tbframe_ready_responder_reset"
    "calm hs_supersede" "calm rearm_budgets"
  by (rule calmI; simp add: ready_promote_def ready_acked_def tbframe_ready_responder_reset_def
      hs_supersede_def rearm_budgets_def)+

lemma calm_down: "calm (request_down r)" "calm (ready_record remote info)"
  by (rule calmI; simp add: request_down_def ready_record_def Let_def)+

lemma calm_hello_seen: "calm (\<lambda>l. l\<lparr>hello_responder := h\<rparr>)"
  by (rule calmI) simp

lemma calm_verify: "calm verify_condemn" "calm (\<lambda>l. snd (verify_rx_silent l))"
    "calm (\<lambda>l. snd (verify_tx_silent d l))" "calm (rearm_verify_timer tf)"
    "calm (\<lambda>l. l\<lparr>verify_work := b\<rparr>)" "calm tbframe_verify_timer_fn"
  by (rule calmI; simp add: verify_condemn_def request_down_def verify_rx_silent_def verify_tx_silent_def
      rearm_verify_timer_def Let_def tbframe_verify_timer_fn_def)+

lemmas calm_facts = calm_kick calm_ready calm_down calm_hello_seen calm_verify

lemma calmD: "calm f \<Longrightarrow> link_inv tf k (f l) = link_inv tf k l" "calm f \<Longrightarrow> session_view (f l) = session_view l"
  by (simp_all add: calm_def)

lemmas calm_simps [simp] = calm_facts [THEN calmD(1)] calm_facts [THEN calmD(2)]

lemma flush_ready_keeps:
  assumes "\<And>w. link_inv tf' k (lnk (window w)) = link_inv tf' k (lnk w)"
    and "\<And>w. session_view (lnk (window w)) = session_view (lnk w)"
  shows "link_inv tf' k (lnk (snd (tbframe_link_flush_ready_response window ops tf w))) = link_inv tf' k (lnk w)"
    and "session_view (lnk (snd (tbframe_link_flush_ready_response window ops tf w))) = session_view (lnk w)"
  using assms by (simp_all add: tbframe_link_flush_ready_response_def Let_def case_prod_beta split: sum.split)

lemma handle_keeps:
  "link_inv tf' k (lnk (snd (handle_hello ops tf remote info w))) = link_inv tf' k (lnk w)"
  "session_view (lnk (snd (handle_hello ops tf remote info w))) = session_view (lnk w)"
  "link_inv tf' k (lnk (snd (handle_ready ops tf remote info w))) = link_inv tf' k (lnk w)"
  "session_view (lnk (snd (handle_ready ops tf remote info w))) = session_view (lnk w)"
  "link_inv tf' k (lnk (snd (handle_bye ops tf remote info w))) = link_inv tf' k (lnk w)"
  "session_view (lnk (snd (handle_bye ops tf remote info w))) = session_view (lnk w)"
  by (simp_all add: handle_hello_def handle_ready_def handle_bye_def Let_def flush_ready_keeps)

lemma handle_packet_keeps [simp]:
  "link_inv tf' k (lnk (snd (tbframe_link_handle_packet ops tf buf w))) = link_inv tf' k (lnk w)"
  "session_view (lnk (snd (tbframe_link_handle_packet ops tf buf w))) = session_view (lnk w)"
  by (simp_all add: tbframe_link_handle_packet_def handle_keeps split: sum.split)

lemma verify_silence_keeps [simp]:
  "link_inv tf' k (snd (verify_silence d l)) = link_inv tf' k l"
  "session_view (snd (verify_silence d l)) = session_view l"
  by (simp_all add: verify_silence_def Let_def case_prod_beta)

lemma rx_inv_view:
  assumes "rx_view l' = rx_view l"
  shows "rx_inv l' = rx_inv l" "rx_out l' i = rx_out l i"
  using assms by (simp_all add: rx_view_def rx_inv_def rx_out_def)

lemma send_keepalive_inv:
  "link_inv tf k (lnk w) \<Longrightarrow> link_inv tf k (lnk (snd (tbframe_link_send_keepalive ops tf pre_up w)))"
  using send_keepalive_held [of tf k w ops pre_up] rx_inv_view(1) [OF rx_tx.view_send, of ops tf pre_up w]
  by (simp add: link_inv_def prod_eq_iff)

lemma verify_step_inv:
  "link_inv tf k (lnk w) \<Longrightarrow> link_inv tf k (lnk (tbframe_link_verify_step ops tf w))"
  by (simp add: tbframe_link_verify_step_def Let_def case_prod_beta send_keepalive_inv)

lemma verify_step_view [simp]:
  "session_view (lnk (tbframe_link_verify_step ops tf w)) = session_view (lnk w)"
  by (simp add: tbframe_link_verify_step_def Let_def case_prod_beta)


section \<open>What an acknowledgement certifies\<close>

text \<open>A reply, when the hardware is asked to send one, parses as what was built.\<close>

definition reply_of :: "tbframe \<Rightarrow> tbframe_link \<Rightarrow> u16 \<Rightarrow> u32 \<Rightarrow> u32 \<Rightarrow> u8 \<Rightarrow> u8 list" where
  "reply_of tf l op caps seq xs =
    (case tbframe_wire_build_hello (Some wire_buf) (Some (tbframe_link_fill_local_hello tf l caps)) op seq
        (lroute l) xs of Inl _ \<Rightarrow> [] | Inr q \<Rightarrow> q)"

lemma wire_buf_length [simp]: "length wire_buf = 76"
  by (simp add: wire_buf_def HELLO_MSG_SIZE_76)

lemma build_ok: "wire_op_ok op \<Longrightarrow> \<exists>q. tbframe_wire_build_hello (Some wire_buf) (Some h) op sq route xs = Inr q"
  by (simp add: build_hello_ok)

lemma reply_trace:
  assumes "wire_op_ok op"
  shows "\<exists>r. tbframe_link_reply ops tf op caps seq xs w =
     (r, snd (hw_call (op_control_response ops (reply_of tf (lnk w) op caps seq xs))
                (OResponse (reply_of tf (lnk w) op caps seq xs)) w))
    \<and> trace (snd (tbframe_link_reply ops tf op caps seq xs w))
      = trace w @ [OResponse (reply_of tf (lnk w) op caps seq xs) r]"
proof -
  obtain q where q: "tbframe_wire_build_hello (Some wire_buf)
      (Some (tbframe_link_fill_local_hello tf (lnk w) caps)) op seq (lroute (lnk w)) xs = Inr q"
    using build_ok [OF assms] by blast
  then have "reply_of tf (lnk w) op caps seq xs = q" by (simp add: reply_of_def)
  then show ?thesis
    using q by (intro exI [of _ "fst (hw_call (op_control_response ops q) (OResponse q) w)"])
      (simp add: tbframe_link_reply_def)
qed

lemma reply_parse:
  assumes "wire_op_ok op"
  shows "\<exists>i. tbframe_wire_parse_hello (Some (reply_of tf l op caps seq xs)) =
      Inr (tbframe_link_fill_local_hello tf l caps, i)
    \<and> info_op i = op \<and> info_seq i = seq \<and> info_xdomain_sequence i = xs AND 3"
proof -
  obtain q where q: "tbframe_wire_build_hello (Some wire_buf) (Some (tbframe_link_fill_local_hello tf l caps))
      op seq (lroute l) xs = Inr q"
    using build_ok [OF assms] by blast
  show ?thesis
    using parse_build_hello(2) [OF assms _ q] by (simp add: reply_of_def q)
qed

text \<open>One reply with the given operation, echoing the request and naming the local session.\<close>

definition replies :: "'h world \<Rightarrow> 'h world \<Rightarrow> u16 \<Rightarrow> tbframe_wire_info \<Rightarrow> bool" where
  "replies w w' op info =
    (\<exists>q r h i. trace w' = trace w @ [OResponse q r] \<and> tbframe_wire_parse_hello (Some q) = Inr (h, i)
       \<and> info_op i = op \<and> info_seq i = info_seq info
       \<and> info_xdomain_sequence i = info_xdomain_sequence info AND 3
       \<and> session_cookie h = local_cookie (lnk w) \<and> transmit_hopid h = of_nat (local_hopid (lnk w)))"

lemma reply_replies:
  assumes "wire_op_ok op" "trace w1 = trace w" "local_cookie (lnk w1) = local_cookie (lnk w)"
    "local_hopid (lnk w1) = local_hopid (lnk w)"
  shows "replies w (snd (tbframe_link_reply ops tf op caps (info_seq info) (info_xdomain_sequence info) w1)) op info"
proof -
  let ?q = "reply_of tf (lnk w1) op caps (info_seq info) (info_xdomain_sequence info)"
  obtain r where "trace (snd (tbframe_link_reply ops tf op caps (info_seq info) (info_xdomain_sequence info) w1))
      = trace w @ [OResponse ?q r]"
    using reply_trace [OF assms(1)] assms(2) by metis
  moreover obtain i where "tbframe_wire_parse_hello (Some ?q) = Inr (tbframe_link_fill_local_hello tf (lnk w1) caps, i)"
      "info_op i = op" "info_seq i = info_seq info" "info_xdomain_sequence i = info_xdomain_sequence info AND 3"
    using reply_parse [OF assms(1)] by metis
  ultimately show ?thesis
    unfolding replies_def using assms(3,4) by (auto simp: tbframe_link_fill_local_hello_def)
qed

lemma matches_cong:
  assumes "session_view l' = session_view l"
  shows "tbframe_link_remote_matches_locked l' h = tbframe_link_remote_matches_locked l h"
  using session_viewD [OF assms] by (simp add: tbframe_link_remote_matches_locked_def)

lemma matches_hello [simp]:
  "tbframe_link_remote_matches_locked (l\<lparr>hello_responder := h\<rparr>) p = tbframe_link_remote_matches_locked l p"
  "tbframe_link_remote_matches_locked (tbframe_ready_responder_reset l) p = tbframe_link_remote_matches_locked l p"
  by (rule matches_cong; simp)+

lemma ready_reset_sel [simp]:
  "lstate (tbframe_ready_responder_reset l) = lstate l" "needs_down (tbframe_ready_responder_reset l) = needs_down l"
  by (simp_all add: tbframe_ready_responder_reset_def)

lemma handle_hello_reply:
  assumes "\<not> packet_refused TBFRAME_WIRE_OP_HELLO (lnk w)"
  shows "trace (snd (handle_hello ops tf remote info w)) = trace w \<or>
    replies w (snd (handle_hello ops tf remote info w)) TBFRAME_WIRE_OP_HELLO_ACK info \<and>
    (hello_done (lnk w) \<or> lstate (lnk w) = TBFRAME_STATE_UP \<longrightarrow> tbframe_link_remote_matches_locked (lnk w) remote)"
proof -
  have nd: "\<not> needs_down (lnk w)" using assms by (simp add: packet_refused_def)
  let ?f = "\<lambda>l. tbframe_link_kick_locked 0 (rearm_budgets (tbframe_ready_responder_reset
      (l\<lparr>hello_responder := \<lparr>hr_seen = True, hr_peer = remote\<rparr>\<rparr>)))"
  have sv: "session_view (?f (lnk w)) = session_view (lnk w)" by simp
  show ?thesis
  proof (cases "proto_version remote \<noteq> TBFRAME_WIRE_VERSION \<or>
      (hello_done (lnk w) \<or> lstate (lnk w) = TBFRAME_STATE_UP) \<and> \<not> tbframe_link_remote_matches_locked (lnk w) remote")
    case True
    then have "trace (snd (handle_hello ops tf remote info w)) = trace w"
      using nd by (simp add: handle_hello_def Let_def) blast
    then show ?thesis ..
  next
    case False
    have "snd (handle_hello ops tf remote info w) = snd (tbframe_link_reply ops tf TBFRAME_WIRE_OP_HELLO_ACK
        (capabilities remote) (info_seq info) (info_xdomain_sequence info) (upd ?f w))"
      using False by (auto simp: handle_hello_def Let_def)
    moreover have "replies w (snd (tbframe_link_reply ops tf TBFRAME_WIRE_OP_HELLO_ACK
        (capabilities remote) (info_seq info) (info_xdomain_sequence info) (upd ?f w))) TBFRAME_WIRE_OP_HELLO_ACK info"
      using session_viewD [OF sv] by (intro reply_replies) simp_all
    ultimately show ?thesis using False by auto
  qed
qed

lemma flush_id_reply:
  assumes "rr_seq (ready_responder (lnk w)) = info_seq info"
    "rr_xdomain_sequence (ready_responder (lnk w)) = info_xdomain_sequence info"
    and w'_def: "w' = snd (tbframe_link_flush_ready_response id ops tf w)"
  shows "trace w' = trace w \<or>
    replies w w' TBFRAME_WIRE_OP_READY_ACK info \<and> \<not> ready_blocked (ready_promote (lnk w))"
proof (cases "ready_blocked (ready_promote (lnk w))")
  case True
  then show ?thesis by (simp add: w'_def tbframe_link_flush_ready_response_def)
next
  case False
  have sv: "session_view (ready_promote (lnk w)) = session_view (lnk w)" by simp
  have rr: "rr_seq (ready_responder (ready_promote (lnk w))) = info_seq info"
      "rr_xdomain_sequence (ready_responder (ready_promote (lnk w))) = info_xdomain_sequence info"
    using assms by (simp_all add: ready_promote_def)
  have "trace w' = trace (snd (tbframe_link_reply ops tf TBFRAME_WIRE_OP_READY_ACK
      (tbframe_link_selected_peer_caps (ready_promote (lnk w))) (info_seq info) (info_xdomain_sequence info)
      (upd ready_promote w)))"
    using False rr by (simp add: w'_def tbframe_link_flush_ready_response_def Let_def case_prod_beta split: sum.split)
  moreover have "replies w (snd (tbframe_link_reply ops tf TBFRAME_WIRE_OP_READY_ACK
      (tbframe_link_selected_peer_caps (ready_promote (lnk w))) (info_seq info) (info_xdomain_sequence info)
      (upd ready_promote w))) TBFRAME_WIRE_OP_READY_ACK info"
    using session_viewD [OF sv] by (intro reply_replies) simp_all
  ultimately show ?thesis using False by (simp add: replies_def)
qed


lemma handle_ready_reply:
  assumes "\<not> packet_refused TBFRAME_WIRE_OP_READY (lnk w)"
  shows "trace (snd (handle_ready ops tf remote info w)) = trace w \<or>
    replies w (snd (handle_ready ops tf remote info w)) TBFRAME_WIRE_OP_READY_ACK info
    \<and> paths_enabled (lnk w) \<and> \<not> needs_down (lnk w) \<and> \<not> removing (lnk w) \<and> \<not> parked (lnk w)
    \<and> tbframe_link_remote_matches_locked (lnk w) remote"
proof (cases "hello_done (lnk w) \<and> \<not> tbframe_link_remote_matches_locked (lnk w) remote")
  case True
  then show ?thesis by (simp add: handle_ready_def)
next
  case False
  let ?w = "upd (ready_record remote info) w"
  let ?w' = "snd (tbframe_link_flush_ready_response id ops tf ?w)"
  have rr: "ready_responder (ready_record remote info (lnk w)) = \<lparr>rr_state = (if paths_enabled (lnk w) \<and> \<not> needs_down (lnk w)
        then TBFRAME_READY_RESPONDER_PENDING_SEND else TBFRAME_READY_RESPONDER_PENDING_PATHS),
      rr_seq = info_seq info, rr_xdomain_sequence = info_xdomain_sequence info, rr_peer = remote\<rparr>"
    by (simp add: ready_record_def Let_def tbframe_link_kick_locked_def split: option.split)
  have sv: "session_view (lnk ?w) = session_view (lnk w)" by simp
  have nd: "needs_down (lnk ?w) = needs_down (lnk w)"
    by (simp add: ready_record_def Let_def tbframe_link_kick_locked_def split: option.split)
  have "trace ?w' = trace ?w \<or> replies ?w ?w' TBFRAME_WIRE_OP_READY_ACK info \<and> \<not> ready_blocked (ready_promote (lnk ?w))"
    by (rule flush_id_reply) (simp_all add: rr)
  moreover have "paths_enabled (lnk w) \<and> \<not> needs_down (lnk w) \<and> tbframe_link_remote_matches_locked (lnk w) remote"
    if "\<not> ready_blocked (ready_promote (lnk ?w))"
  proof -
    have "rr_state (ready_responder (lnk ?w)) = TBFRAME_READY_RESPONDER_PENDING_SEND
        \<or> paths_enabled (lnk ?w) \<and> \<not> needs_down (lnk ?w)"
      using that by (auto simp: ready_blocked_def ready_promote_def split: if_splits)
    then have "paths_enabled (lnk w) \<and> \<not> needs_down (lnk w)"
      using rr nd session_viewD(7) [OF sv] by (auto split: if_splits)
    moreover have "rr_peer (ready_responder (ready_promote (lnk ?w))) = remote"
      by (simp add: ready_promote_def rr)
    then have "tbframe_link_remote_matches_locked (ready_promote (lnk ?w)) remote"
      using that by (simp add: ready_blocked_def)
    then have "tbframe_link_remote_matches_locked (lnk w) remote"
      using matches_cong [of "ready_promote (lnk ?w)" "lnk w" remote] by simp
    ultimately show ?thesis by simp
  qed
  moreover have "replies ?w ?w' op info = replies w ?w' op info" for op
    using session_viewD [OF sv] by (simp add: replies_def)
  ultimately show ?thesis
    using False assms by (auto simp: handle_ready_def packet_refused_def)
qed

lemma handle_bye_reply:
  "trace (snd (handle_bye ops tf remote info w)) = trace w \<or>
    replies w (snd (handle_bye ops tf remote info w)) TBFRAME_WIRE_OP_BYE_ACK info
    \<and> lstate (lnk w) \<noteq> TBFRAME_STATE_UP \<and> tx_quiesced (lnk w) \<and> ring_posted (lnk w) = 0"
proof -
  define b where "b = ((lstate (lnk w) = TBFRAME_STATE_UP \<or> rings_up (lnk w) \<and> paths_enabled (lnk w)) \<and> \<not> needs_down (lnk w))"
  define w1 where "w1 = (if b then upd (request_down TBFRAME_DOWN_LOGOUT) w else w)"
  have w1: "session_view (lnk w1) = session_view (lnk w)" "trace w1 = trace w" by (simp_all add: w1_def)
  have q: "tx_quiesced (lnk w1) = tx_quiesced (lnk w)" "ring_posted (lnk w1) = ring_posted (lnk w)"
    by (simp_all add: w1_def request_down_def tbframe_link_kick_locked_def split: option.split)
  have e: "snd (handle_bye ops tf remote info w) =
     (if lstate (lnk w) \<noteq> TBFRAME_STATE_UP \<and> tx_quiesced (lnk w) \<and> ring_posted (lnk w) = 0
      then snd (tbframe_link_reply ops tf TBFRAME_WIRE_OP_BYE_ACK (capabilities remote) (info_seq info)
             (info_xdomain_sequence info) w1) else w1)"
    unfolding handle_bye_def Let_def b_def [symmetric] w1_def [symmetric]
    using q session_viewD(1) [OF w1(1)] by simp
  have "replies w (snd (tbframe_link_reply ops tf TBFRAME_WIRE_OP_BYE_ACK (capabilities remote) (info_seq info)
             (info_xdomain_sequence info) w1)) TBFRAME_WIRE_OP_BYE_ACK info"
    using session_viewD [OF w1(1)] w1(2) by (intro reply_replies) simp_all
  then show ?thesis using w1(2) by (simp add: e)
qed

lemma handle_packet_cases:
  assumes "tbframe_wire_parse_hello (Some buf) = Inr (remote, info)"
  obtains (ignored) "tbframe_link_handle_packet ops tf buf w = (False, w)"
    | (hello) "info_op info = TBFRAME_WIRE_OP_HELLO" "\<not> packet_refused TBFRAME_WIRE_OP_HELLO (lnk w)"
      "tbframe_link_handle_packet ops tf buf w = (True, snd (handle_hello ops tf remote info w))"
    | (ready) "info_op info = TBFRAME_WIRE_OP_READY" "\<not> packet_refused TBFRAME_WIRE_OP_READY (lnk w)"
      "tbframe_link_handle_packet ops tf buf w = (True, snd (handle_ready ops tf remote info w))"
    | (bye) "info_op info = TBFRAME_WIRE_OP_BYE"
      "tbframe_link_handle_packet ops tf buf w = (True, snd (handle_bye ops tf remote info w))"
proof -
  have c: "fst (handle_hello ops tf remote info w)" "fst (handle_ready ops tf remote info w)"
    "fst (handle_bye ops tf remote info w)"
    by (simp_all add: handle_hello_def handle_ready_def handle_bye_def Let_def)
  have e: "tbframe_link_handle_packet ops tf buf w =
     (if info_route info \<noteq> lroute (lnk w) \<or> packet_refused (info_op info) (lnk w) then (False, w)
      else if info_op info = TBFRAME_WIRE_OP_HELLO then (True, snd (handle_hello ops tf remote info w))
      else if info_op info = TBFRAME_WIRE_OP_READY then (True, snd (handle_ready ops tf remote info w))
      else if info_op info = TBFRAME_WIRE_OP_BYE then (True, snd (handle_bye ops tf remote info w))
      else (False, w))"
    using assms c by (simp add: tbframe_link_handle_packet_def prod_eq_iff)
  show thesis
  proof (cases "info_route info \<noteq> lroute (lnk w) \<or> packet_refused (info_op info) (lnk w)")
    case True
    then have "tbframe_link_handle_packet ops tf buf w = (False, w)" using e by (simp only: if_True simp_thms)
    then show thesis by (rule ignored)
  next
    case False
    then have r: "\<not> packet_refused (info_op info) (lnk w)" by blast
    note e' = e [unfolded if_not_P [OF False]]
    show thesis
    proof (cases "info_op info = TBFRAME_WIRE_OP_HELLO")
      case True
      then show thesis using hello r e' by simp
    next
      case h: False
      show thesis
      proof (cases "info_op info = TBFRAME_WIRE_OP_READY")
        case True
        then show thesis using ready r e' [unfolded if_not_P [OF h]] by simp
      next
        case False
        note e'' = e' [unfolded if_not_P [OF h] if_not_P [OF False]]
        then show thesis
          using bye ignored by (cases "info_op info = TBFRAME_WIRE_OP_BYE") (simp_all only: if_True if_False simp_thms)
      qed
    qed
  qed
qed

text \<open>C7: An inbound packet causes at most one message, a reply that echoes its sequence numbers and
  names the local session, and each kind of reply certifies the state it is sent from: HELLO_ACK
  only for the peer lifetime already negotiated, if one is; READY_ACK only to the negotiated peer,
  with the paths enabled and no teardown pending, and never from a parked or removed link; BYE_ACK
  only once the session has left UP, its transmit side was quiesced and no frame is on the ring.
  The negotiated session itself and both frame pools are left as they were.\<close>

theorem packet_ack_certifies:
  assumes "tbframe_link_handle_packet ops tf buf w = (consumed, w')"
  shows "(trace w' = trace w \<or>
      (\<exists>remote info. tbframe_wire_parse_hello (Some buf) = Inr (remote, info) \<and> consumed \<and>
        (info_op info = TBFRAME_WIRE_OP_HELLO \<and> replies w w' TBFRAME_WIRE_OP_HELLO_ACK info
           \<and> (hello_done (lnk w) \<or> lstate (lnk w) = TBFRAME_STATE_UP
                \<longrightarrow> tbframe_link_remote_matches_locked (lnk w) remote)
         \<or> info_op info = TBFRAME_WIRE_OP_READY \<and> replies w w' TBFRAME_WIRE_OP_READY_ACK info
           \<and> paths_enabled (lnk w) \<and> \<not> needs_down (lnk w) \<and> \<not> removing (lnk w) \<and> \<not> parked (lnk w)
           \<and> tbframe_link_remote_matches_locked (lnk w) remote
         \<or> info_op info = TBFRAME_WIRE_OP_BYE \<and> replies w w' TBFRAME_WIRE_OP_BYE_ACK info
           \<and> lstate (lnk w) \<noteq> TBFRAME_STATE_UP \<and> tx_quiesced (lnk w) \<and> ring_posted (lnk w) = 0)))
    \<and> session_view (lnk w') = session_view (lnk w)
    \<and> (link_inv tf k (lnk w) \<longrightarrow> link_inv tf k (lnk w'))"
proof -
  have w': "w' = snd (tbframe_link_handle_packet ops tf buf w)" by (simp add: assms)
  have keeps: "session_view (lnk w') = session_view (lnk w)" "link_inv tf k (lnk w') = link_inv tf k (lnk w)"
    by (simp_all add: w')
  show ?thesis
  proof (cases "tbframe_wire_parse_hello (Some buf)")
    case (Inl e)
    then have "w' = w" using assms by (simp add: tbframe_link_handle_packet_def)
    then show ?thesis using keeps by simp
  next
    case (Inr p)
    obtain remote info where p: "p = (remote, info)" by fastforce
    from Inr [unfolded p] show ?thesis
    proof (cases rule: handle_packet_cases [where ops = ops and tf = tf and w = w])
      case ignored
      then show ?thesis using assms keeps by simp
    next
      case hello
      then show ?thesis
        using assms keeps handle_hello_reply [of w ops tf remote info] Inr p by auto
    next
      case ready
      then show ?thesis
        using assms keeps handle_ready_reply [of w ops tf remote info] Inr p by auto
    next
      case bye
      then show ?thesis
        using assms keeps handle_bye_reply [of ops tf remote info w] Inr p by auto
    qed
  qed
qed

text \<open>A BYE from the sample link's peer.\<close>

definition bye_info_sample :: tbframe_wire_info where
  "bye_info_sample = \<lparr>info_op = TBFRAME_WIRE_OP_BYE, info_seq = 4, info_xdomain_sequence = 0, info_route = 1\<rparr>"

definition bye_sample :: "u8 list" where
  "bye_sample = (case tbframe_wire_build_hello (Some wire_buf) (Some hello_zero) TBFRAME_WIRE_OP_BYE 4 1 0 of
     Inl _ \<Rightarrow> [] | Inr q \<Rightarrow> q)"

lemma bye_sample_parse: "tbframe_wire_parse_hello (Some bye_sample) = Inr (hello_zero, bye_info_sample)"
proof -
  obtain q where q: "tbframe_wire_build_hello (Some wire_buf) (Some hello_zero) TBFRAME_WIRE_OP_BYE 4 1 0 = Inr q"
    using build_ok by force
  have "(1 :: u64) AND NOT (push_bit 63 1) = 1" "(0 :: u8) AND 3 = 0" by simp_all
  then show ?thesis
    using parse_build_hello(2) [OF _ _ q] by (simp add: bye_sample_def bye_info_sample_def q)
qed

theorem packet_ack_certifies_witness:
  "replies (world_of link_sample)
     (snd (tbframe_link_handle_packet hw_accept tf_sample bye_sample (world_of link_sample)))
     TBFRAME_WIRE_OP_BYE_ACK bye_info_sample
   \<and> lstate link_sample \<noteq> TBFRAME_STATE_UP \<and> tx_quiesced link_sample"
proof -
  let ?w = "world_of link_sample" and ?p = "tbframe_link_handle_packet hw_accept tf_sample bye_sample (world_of link_sample)"
  have l: "lnk ?w = link_sample" "trace ?w = []" by (simp_all add: world_of_def)
  have s: "lroute link_sample = 1" "\<not> packet_refused TBFRAME_WIRE_OP_BYE link_sample"
      "lstate link_sample \<noteq> TBFRAME_STATE_UP" "tx_quiesced link_sample" "ring_posted link_sample = 0" "\<not> rings_up link_sample"
    by (simp_all add: link_sample_def packet_refused_def wire_ops)
  have op: "info_op bye_info_sample = TBFRAME_WIRE_OP_BYE" "info_route bye_info_sample = 1"
      "TBFRAME_WIRE_OP_BYE \<noteq> TBFRAME_WIRE_OP_HELLO" "TBFRAME_WIRE_OP_BYE \<noteq> TBFRAME_WIRE_OP_READY"
    by (simp_all add: bye_info_sample_def wire_ops)
  have "snd ?p = snd (tbframe_link_reply hw_accept tf_sample TBFRAME_WIRE_OP_BYE_ACK (capabilities hello_zero)
      (info_seq bye_info_sample) (info_xdomain_sequence bye_info_sample) ?w)"
    by (simp add: tbframe_link_handle_packet_def bye_sample_parse op s l handle_bye_def Let_def)
  then have "trace (snd ?p) \<noteq> trace ?w"
    using reply_trace [of TBFRAME_WIRE_OP_BYE_ACK hw_accept tf_sample] l(2) by (metis append_self_conv not_Cons_self2 wire_op_ok_ops(6))
  then show ?thesis
    using packet_ack_certifies [of hw_accept tf_sample bye_sample ?w "fst ?p" "snd ?p" 1] s op
    by (simp add: bye_sample_parse)
qed

section \<open>The verify tick\<close>

text \<open>What a keepalive sent by the tick does not change.\<close>

definition verify_view :: "tbframe_link \<Rightarrow> _" where
  "verify_view l = (data_rx l, data_rx_tick_mark l, silent_ticks l, tx_silent_ticks l, needs_down l, hs l,
     down_reason l, keepalive_tx_acked l, keepalive_tx_ack_mark l)"

interpretation verify_tx: tx_blind verify_view
  by unfold_locales (simp_all add: verify_view_def)

text \<open>An established session on which nothing has arrived since \<open>n\<close> ticks.\<close>

definition silent_since :: "u32 \<Rightarrow> tbframe_link \<Rightarrow> bool" where
  "silent_since n l =
    (lstate l = TBFRAME_STATE_UP \<and> \<not> removing l \<and> \<not> parked l \<and> \<not> needs_down l \<and>
     data_rx l = data_rx_tick_mark l \<and> silent_ticks l = n \<and> tx_silent_ticks l \<le> n)"

lemma silent_since_cong:
  "session_view l' = session_view l \<Longrightarrow> verify_view l' = verify_view l \<Longrightarrow> silent_since n l' = silent_since n l"
  using session_viewD(1,2,3) [of l' l] by (simp add: silent_since_def verify_view_def)

lemma silent_tick:
  assumes "silent_since n l" "n < 2"
  shows "\<not> fst (verify_silence d l) \<and> silent_since (n + 1) (snd (verify_silence d l))"
proof -
  have u: "unat n < 2" using assms(2) by (simp add: word_less_nat_alt)
  have inc: "unat (m + 1) = unat m + 1" if "m \<le> n" for m
    using that u by (simp add: word_le_nat_alt unat_word_ariths)
  have n: "n + 1 < 3" using u inc [of n] by (simp add: word_less_nat_alt)
  have t1: "m + 1 \<le> n + 1 \<and> m + 1 < 3" if "m \<le> n" for m
    using that u inc [OF that] inc [of n] by (simp add: word_le_nat_alt word_less_nat_alt)
  let ?l = "l\<lparr>silent_ticks := n + 1\<rparr>"
  have 1: "verify_rx_silent l = (False, ?l)"
    using assms n by (simp add: verify_rx_silent_def silent_since_def TBFRAME_DATA_SILENCE_TICKS_def Let_def not_le)
  obtain m a where 2: "verify_tx_silent d ?l = (False, ?l\<lparr>keepalive_tx_ack_mark := a, tx_silent_ticks := m\<rparr>)" "m \<le> n + 1"
  proof -
    have t: "tx_silent_ticks l \<le> n" using assms(1) by (simp add: silent_since_def)
    have "\<exists>a m. verify_tx_silent d ?l = (False, ?l\<lparr>keepalive_tx_ack_mark := a, tx_silent_ticks := m\<rparr>) \<and> m \<le> n + 1"
    proof (cases "\<not> d \<or> keepalive_tx_acked l \<noteq> keepalive_tx_ack_mark l")
      case True
      show ?thesis
      proof (cases d)
        assume d
        then show ?thesis using True
          by (intro exI [of _ "keepalive_tx_acked l"] exI [of _ 0]) (simp add: verify_tx_silent_def)
      next
        assume "\<not> d"
        then show ?thesis
          by (intro exI [of _ "keepalive_tx_ack_mark l"] exI [of _ 0]) (simp add: verify_tx_silent_def)
      qed
    next
      case False
      then show ?thesis
        using t1 [OF t]
        by (intro exI [of _ "keepalive_tx_ack_mark l"] exI [of _ "tx_silent_ticks l + 1"])
          (simp add: verify_tx_silent_def TBFRAME_DATA_SILENCE_TICKS_def Let_def not_le)
    qed
    then show thesis using that by blast
  qed
  then show ?thesis
    using assms(1) by (simp add: verify_silence_def 1 2(1) silent_since_def)
qed

lemma silent_third_tick:
  assumes "silent_since 2 l"
  shows "fst (verify_silence d l) \<and> needs_down (snd (verify_silence d l))
    \<and> down_reason (snd (verify_silence d l)) = TBFRAME_DOWN_VERIFY \<and> \<not> data_proven (snd (verify_silence d l))
    \<and> session_work (snd (verify_silence d l)) = Some 0"
proof -
  have 1: "verify_rx_silent l = (True, l\<lparr>silent_ticks := 3\<rparr>)"
    using assms by (simp add: verify_rx_silent_def silent_since_def TBFRAME_DATA_SILENCE_TICKS_def Let_def)
  have 2: "session_view (snd (verify_tx_silent d x)) = session_view x" "needs_down (snd (verify_tx_silent d x)) = needs_down x" for x
    by (simp_all add: verify_tx_silent_def Let_def)
  have "lstate (snd (verify_tx_silent d (l\<lparr>silent_ticks := 3\<rparr>))) = TBFRAME_STATE_UP"
    "\<not> removing (snd (verify_tx_silent d (l\<lparr>silent_ticks := 3\<rparr>)))" "\<not> parked (snd (verify_tx_silent d (l\<lparr>silent_ticks := 3\<rparr>)))"
    using session_viewD(1,2,3) [OF 2(1) [of "l\<lparr>silent_ticks := 3\<rparr>"]] assms by (simp_all add: silent_since_def)
  then show ?thesis
    using assms by (simp add: verify_silence_def 1 2 case_prod_beta Let_def tbframe_link_kick_locked_def silent_since_def)
qed

text \<open>A tick of the verify step on hardware that never reports the paths gone.\<close>

lemma verify_step_silent:
  assumes "silent_since n (lnk w)" "keepalive tf" "remote_caps (lnk w) AND TBFRAME_WIRE_CAP_KEEPALIVE \<noteq> 0"
    and "\<And>a b h. fst (op_paths_active ops a b h) \<noteq> Inr False"
  shows "\<exists>d l. silent_since n l \<and> remote_caps l = remote_caps (lnk w) \<and>
    lnk (tbframe_link_verify_step ops tf w) =
      (if fst (verify_silence d l) then snd (verify_silence d l)
       else rearm_verify_timer tf (snd (verify_silence d l)))"
proof -
  define d where "d = (remote_caps (lnk w) AND TBFRAME_WIRE_CAP_KEEPALIVE_ACK \<noteq> 0)"
  obtain r w1 where h: "hw_call (op_paths_active ops (local_hopid (lnk w)) (remote_hopid (lnk w)))
      (OPathsActive (local_hopid (lnk w)) (remote_hopid (lnk w))) w = (r, w1)" by fastforce
  have "r = fst (op_paths_active ops (local_hopid (lnk w)) (remote_hopid (lnk w)) (hw w))"
    using h by (auto simp: hw_call_def split: prod.splits)
  then have r: "r \<noteq> Inr False" using assms(4) by metis
  have w1: "lnk w1 = lnk w" using hw_call_sel(1) [OF h] .
  define l where "l = lnk (snd (tbframe_link_send_keepalive ops tf False w1))"
  have l: "session_view l = session_view (lnk w)" "verify_view l = verify_view (lnk w)"
    by (simp_all add: l_def w1)
  have "lnk (tbframe_link_verify_step ops tf w) =
      (if fst (verify_silence d l) then snd (verify_silence d l)
       else rearm_verify_timer tf (snd (verify_silence d l)))"
    using assms(1,2,3) r
    by (simp add: tbframe_link_verify_step_def silent_since_def h w1 Let_def tb_xdomain_session_zombie_def
        case_prod_beta d_def l_def)
  moreover have "silent_since n l" using silent_since_cong [OF l] assms(1) by simp
  ultimately show ?thesis using session_viewD(30) [OF l(1)] by (intro exI [of _ d] exI [of _ l]) simp
qed


lemma rearm_timer_silent [simp]:
  "silent_since n (rearm_verify_timer tf l) = silent_since n l"
  "needs_down (rearm_verify_timer tf l) = needs_down l" "remote_caps (rearm_verify_timer tf l) = remote_caps l"
  by (simp_all add: rearm_verify_timer_def silent_since_def)

lemma verify_step_silent_next:
  assumes "silent_since n (lnk w)" "n < 2" "keepalive tf" "remote_caps (lnk w) AND TBFRAME_WIRE_CAP_KEEPALIVE \<noteq> 0"
    and "\<And>a b h. fst (op_paths_active ops a b h) \<noteq> Inr False"
  shows "silent_since (n + 1) (lnk (tbframe_link_verify_step ops tf w))
    \<and> remote_caps (lnk (tbframe_link_verify_step ops tf w)) = remote_caps (lnk w)"
proof -
  obtain d l where l: "silent_since n l" "lnk (tbframe_link_verify_step ops tf w) =
      (if fst (verify_silence d l) then snd (verify_silence d l) else rearm_verify_timer tf (snd (verify_silence d l)))"
    using verify_step_silent [OF assms(1,3,4,5)] by blast
  then show ?thesis
    using silent_tick [OF l(1) assms(2), of d] session_viewD(30) [OF verify_step_view [of ops tf w]] by auto
qed

text \<open>C21: On an established session over hardware that keeps reporting the paths alive, with keepalives
  negotiated and nothing received, the first two verify ticks leave the session alone and the third
  condemns it: it requests a verify teardown, withdraws the data-path proof and queues the session
  work at once.\<close>

theorem verify_condemns_silent_path:
  assumes "silent_since 0 (lnk w)" and "keepalive tf" and "remote_caps (lnk w) AND TBFRAME_WIRE_CAP_KEEPALIVE \<noteq> 0"
    and "\<And>a b h. fst (op_paths_active ops a b h) \<noteq> Inr False"
    and "w1 = tbframe_link_verify_step ops tf w" and "w2 = tbframe_link_verify_step ops tf w1"
    and "w3 = tbframe_link_verify_step ops tf w2"
  shows "\<not> needs_down (lnk w1) \<and> \<not> needs_down (lnk w2) \<and> needs_down (lnk w3)
    \<and> down_reason (lnk w3) = TBFRAME_DOWN_VERIFY \<and> \<not> data_proven (lnk w3) \<and> session_work (lnk w3) = Some 0
    \<and> session_view (lnk w3) = session_view (lnk w)"
proof -
  have 1: "silent_since 1 (lnk w1)" "remote_caps (lnk w1) = remote_caps (lnk w)"
    using verify_step_silent_next [OF assms(1) _ assms(2,3,4)] by (simp_all add: assms(5))
  have 2: "silent_since 2 (lnk w2)" "remote_caps (lnk w2) = remote_caps (lnk w)"
    using verify_step_silent_next [OF 1(1) _ assms(2) _ assms(4)] assms(3) 1(2) by (simp_all add: assms(6))
  obtain d l where l: "silent_since 2 l" "lnk w3 =
      (if fst (verify_silence d l) then snd (verify_silence d l) else rearm_verify_timer tf (snd (verify_silence d l)))"
    using verify_step_silent [OF 2(1) assms(2) _ assms(4)] assms(3) 2(2) by (auto simp: assms(7))
  have 3: "session_view (lnk w3) = session_view (lnk w)"
    by (simp add: assms(5,6,7) verify_step_view)
  have "\<not> needs_down (lnk w1)" "\<not> needs_down (lnk w2)"
    using 1(1) 2(1) by (simp_all add: silent_since_def)
  then show ?thesis
    using silent_third_tick [OF l(1), of d] l(2) 3 by simp
qed

theorem verify_condemns_silent_path_witness:
  "needs_down (lnk (tbframe_link_verify_step hw_accept tf_sample (tbframe_link_verify_step hw_accept tf_sample
     (tbframe_link_verify_step hw_accept tf_sample (world_of link_up_sample)))))"
  using verify_condemns_silent_path [of "world_of link_up_sample" tf_sample hw_accept, OF _ _ _ _ refl refl refl]
  by (simp add: silent_since_def sample_defs TBFRAME_WIRE_CAP_KEEPALIVE_def)

end
