(* ===== verification/Tbframe_Events.thy ===== *)
theory Tbframe_Events
  imports Tbframe_Packet
begin

text \<open>
  What the other contexts of the driver do to a link while its session machine is outside its
  critical sections. An \<open>event\<close> is one such action, run as a whole on the operations of the
  preceding theories; it is skipped when its caller would break the interface (a completion for a
  frame that is not on the ring, a transmit of a frame the client does not hold). \<open>interfere\<close>
  runs the next batch of the schedule: the session machine calls it after every call it makes
  without its lock, so a property proved for every schedule holds for every interleaving at those
  points.

  Shown: an event keeps the pool and reference accounting, leaves the session machine's fields
  alone, and touches the rings only while they are up.
\<close>

section \<open>Events\<close>

text \<open>What the caller of each entry point promises.\<close>

definition frame_contract :: "tbframe_frame \<Rightarrow> tbframe_link \<Rightarrow> bool" where
  "frame_contract f l = (fr_link f = link_id l \<and> \<not> fr_rx f \<longrightarrow> tx_held l (fr_idx f))"

fun event_ok :: "event \<Rightarrow> tbframe_link \<Rightarrow> bool" where
  "event_ok (EvTxComplete i _) l = (i < tx_n l \<and> hw_posted (tx_frames l i))"
| "event_ok (EvRxComplete i _ _ _ _ _ _) l = (rx_out l i \<and> rx_refs (rx_frames l i) = 0)"
| "event_ok (EvXmit f) l = frame_contract f l"
| "event_ok (EvFrameFree f) l = frame_contract f l"
| "event_ok (EvFramePutRx f) l =
    (fr_link f = link_id l \<and> fr_rx f \<longrightarrow> rx_out l (fr_idx f) \<and> rx_refs (rx_frames l (fr_idx f)) \<noteq> 0)"
| "event_ok EvVerifyTimer l = (verify_timer l \<noteq> None)"
| "event_ok EvVerify l = verify_work l"
| "event_ok EvTxReleased l = tx_released_work l"
| "event_ok (EvPublisher enter) l = (enter \<or> hw_active l > 0)"
| "event_ok _ l = True"

fun run_event :: "'h tbframe_hw_ops \<Rightarrow> tbframe \<Rightarrow> event \<Rightarrow> 'h world \<Rightarrow> 'h world" where
  "run_event ops tf (EvPacket buf) w = snd (tbframe_link_handle_packet ops tf buf w)"
| "run_event ops tf (EvTxComplete i canceled) w = tbframe_core_tx_complete ops tf i canceled w"
| "run_event ops tf (EvRxComplete i canceled len pdf bad data takes) w =
    tbframe_core_rx_complete ops tf i canceled len pdf bad takes
      (upd (rxf i (\<lambda>f. f\<lparr>fdata := data\<rparr>)) w)"
| "run_event ops tf (EvAllocFrame len ctrl) w = upd (\<lambda>l. snd (tbframe_alloc_frame len ctrl l)) w"
| "run_event ops tf (EvXmit f) w = snd (tbframe_xmit ops tf f w)"
| "run_event ops tf (EvFrameFree f) w = upd (tbframe_frame_free f) w"
| "run_event ops tf (EvFramePutRx f) w = tbframe_frame_put_rx ops f w"
| "run_event ops tf EvVerifyTimer w = upd (\<lambda>l. tbframe_verify_timer_fn (l\<lparr>verify_timer := None\<rparr>)) w"
| "run_event ops tf EvVerify w = tbframe_verify_workfn ops tf w"
| "run_event ops tf EvTxReleased w =
    tbframe_tx_released_workfn tf (upd (\<lambda>l. l\<lparr>tx_released_work := False\<rparr>) w)"
| "run_event ops tf EvPark w = upd (\<lambda>l. l\<lparr>parked := True\<rparr>) w"
| "run_event ops tf EvRemoving w = upd (\<lambda>l. l\<lparr>removing := True\<rparr>) w"
| "run_event ops tf (EvPublisher enter) w = upd (if enter then hw_active_inc else hw_active_dec) w"
| "run_event ops tf (EvTime t) w = w\<lparr>jiffies_ms := jiffies_ms w + t\<rparr>"

definition event_step :: "'h tbframe_hw_ops \<Rightarrow> tbframe \<Rightarrow> event \<Rightarrow> 'h world \<Rightarrow> 'h world" where
  "event_step ops tf ev w = (if event_ok ev (lnk w) then run_event ops tf ev w else w)"

definition interfere :: "'h tbframe_hw_ops \<Rightarrow> tbframe \<Rightarrow> 'h world \<Rightarrow> 'h world" where
  "interfere ops tf w =
    (case sched w of
       [] \<Rightarrow> w
     | evs # rest \<Rightarrow> fold (event_step ops tf) evs (w\<lparr>sched := rest\<rparr>))"

text \<open>A hardware call made outside the critical sections: the others run before it is acted on.\<close>

definition hw_wait ::
  "'h tbframe_hw_ops \<Rightarrow> tbframe \<Rightarrow> ('h \<Rightarrow> 'r \<times> 'h) \<Rightarrow> ('r \<Rightarrow> obs) \<Rightarrow> 'h world \<Rightarrow> 'r \<times> 'h world" where
  "hw_wait ops tf f ob w = (let (r, w) = hw_call f ob w in (r, interfere ops tf w))"

definition hw_run ::
  "'h tbframe_hw_ops \<Rightarrow> tbframe \<Rightarrow> ('h \<Rightarrow> 'h) \<Rightarrow> obs \<Rightarrow> 'h world \<Rightarrow> 'h world" where
  "hw_run ops tf f ob w = interfere ops tf (hw_do f ob w)"

section \<open>The pools under interference\<close>

lemma rx_out_rx_inv: "link_inv tf k l \<Longrightarrow> pool_inv tf k l" "link_inv tf k l \<Longrightarrow> rx_inv l"
  by (simp_all add: link_inv_def)

lemma tx_op_inv:
  assumes "link_inv tf k l" "pool_inv tf k l'" "rx_view l' = rx_view l"
  shows "link_inv tf k l'"
  using assms rx_inv_view(1) [OF assms(3)] by (simp add: link_inv_def)

lemma event_frame:
  assumes "frame_contract f l" "fr_link f = link_id l" "\<not> fr_rx f"
  shows "f = tx_frame l (fr_idx f)" "tx_held l (fr_idx f)"
  using assms by (cases f; simp add: frame_contract_def tx_frame_def)+

lemma xmit_event_inv:
  assumes "pool_inv tf k (lnk w)" "frame_contract f (lnk w)"
  shows "pool_inv tf k (lnk (snd (tbframe_xmit ops tf f w)))"
proof (cases "fr_link f = link_id (lnk w) \<and> \<not> fr_rx f")
  case True
  then show ?thesis
    using xmit_held [OF assms(1) event_frame(2) [OF assms(2)], of ops False]
      event_frame(1) [OF assms(2)] by (metis prod.collapse tbframe_xmit_def)
next
  case False
  then show ?thesis using assms(1) by (auto simp: tbframe_xmit_def tbframe_xmit_int_def)
qed

lemma free_event_inv:
  assumes "pool_inv tf k l" "frame_contract f l"
  shows "pool_inv tf k (tbframe_frame_free f l)"
proof (cases "fr_link f = link_id l \<and> \<not> fr_rx f")
  case True
  then show ?thesis
    using free_held [OF assms(1) event_frame(2) [OF assms(2)]] event_frame(1) [OF assms(2)] by metis
next
  case False
  then show ?thesis using assms(1) by (auto simp: tbframe_frame_free_def)
qed

lemma alloc_event_inv: "pool_inv tf k l \<Longrightarrow> pool_inv tf k (snd (tbframe_alloc_frame len ctrl l))"
  using alloc_ok_held [of tf k l len ctrl False] alloc_err_held [of len ctrl False l _ _ tf k]
  by (cases "tbframe_alloc_frame_int len ctrl False l"; cases "fst (tbframe_alloc_frame_int len ctrl False l)")
    (auto simp: tbframe_alloc_frame_def)

lemma event_inv_tx:
  assumes "link_inv tf k (lnk w)" "event_ok ev (lnk w)"
    and "ev = EvTxComplete i c \<or> ev = EvAllocFrame len ctrl \<or> ev = EvXmit f \<or> ev = EvFrameFree f"
  shows "link_inv tf k (lnk (run_event ops tf ev w))"
proof (rule tx_op_inv [OF assms(1)])
  have p: "pool_inv tf k (lnk w)" by (rule rx_out_rx_inv(1) [OF assms(1)])
  have "tx_out (lnk w) i" if "ev = EvTxComplete i c"
    using p assms(2) that by (auto simp: pool_inv_def adm_defs list_all_iff tx_out_def)
  then show "pool_inv tf k (lnk (run_event ops tf ev w))"
    using assms(2,3) p tx_complete_inv [OF p, of i c ops] xmit_event_inv [OF p] free_event_inv [OF p]
      alloc_event_inv [OF p] by auto
  show "rx_view (lnk (run_event ops tf ev w)) = rx_view (lnk w)"
    using assms(3) by (auto simp: tbframe_xmit_def tbframe_alloc_frame_def)
qed

lemma event_inv_rx:
  assumes "link_inv tf k (lnk w)" "event_ok ev (lnk w)"
    and "ev = EvRxComplete i c len pdf bad data takes \<or> ev = EvFramePutRx f"
  shows "link_inv tf k (lnk (run_event ops tf ev w))"
  using assms by (auto simp: tbframe_frame_put_rx_def intro!: rx_complete_inv link_inv_rxf rx_put_ref_inv)

lemma run_event_inv:
  assumes "link_inv tf k (lnk w)" "event_ok ev (lnk w)"
  shows "link_inv tf k (lnk (run_event ops tf ev w))"
  using assms event_inv_tx [OF assms] event_inv_rx [OF assms]
  by (cases ev) (simp_all add: tbframe_verify_workfn_def verify_step_inv tbframe_tx_released_workfn_def split: option.split)

section \<open>What interference leaves alone\<close>

text \<open>The session machine's own fields: every field of the session view but the two gates that
  unregistration and removal close.\<close>

definition owner_view :: "tbframe_link \<Rightarrow> _" where
  "owner_view l = session_view (l\<lparr>removing := False, parked := False\<rparr>)"

lemma owner_viewI: "session_view l' = session_view l \<Longrightarrow> owner_view l' = owner_view l"
  by (simp add: owner_view_def session_view_def)

lemma owner_viewD:
  assumes "owner_view l' = owner_view l"
  shows "lstate l' = lstate l" "hello_done l' = hello_done l" "rings_allocated l' = rings_allocated l"
    "rings_up l' = rings_up l" "paths_enabled l' = paths_enabled l" "paths_owned l' = paths_owned l"
    "terminal_handoff l' = terminal_handoff l" "in_hopid_held l' = in_hopid_held l"
    "active_remote_hopid l' = active_remote_hopid l" "hello_selection_pending l' = hello_selection_pending l"
    "hello_selection_caps l' = hello_selection_caps l" "request_seq l' = request_seq l"
    "last_reannounce l' = last_reannounce l" "announce_pending l' = announce_pending l"
    "up_delivered l' = up_delivered l" "data_generation l' = data_generation l" "data_window l' = data_window l"
    "e2e_active l' = e2e_active l" "tx_frame_count l' = tx_frame_count l" "rx_frame_count l' = rx_frame_count l"
    "link_id l' = link_id l" "lroute l' = lroute l" "local_hopid l' = local_hopid l"
    "local_cookie l' = local_cookie l" "local_gid_eui64 l' = local_gid_eui64 l" "remote_hopid l' = remote_hopid l"
    "remote_rx_entries l' = remote_rx_entries l" "remote_caps l' = remote_caps l"
    "remote_cookie l' = remote_cookie l" "previous_remote_cookie l' = previous_remote_cookie l"
    "remote_gid_eui64 l' = remote_gid_eui64 l"
  using assms by (simp_all add: owner_view_def session_view_def)

text \<open>What another context can be seen doing: it touches a ring only while the rings are up, and
  otherwise answers control packets, reads the hop entries back and makes its upcalls.\<close>

fun env_obs :: "bool \<Rightarrow> obs \<Rightarrow> bool" where
  "env_obs r (ORingTx _ _) = r"
| "env_obs r (OPostRx _ _) = r"
| "env_obs r (OResponse _ _) = True"
| "env_obs r (OPathsActive _ _ _) = True"
| "env_obs r (ORx _) = True"
| "env_obs r (ORxBad _) = True"
| "env_obs r OTxReleased = True"
| "env_obs r _ = False"

definition env_run :: "bool \<Rightarrow> 'h world \<Rightarrow> 'h world \<Rightarrow> bool" where
  "env_run r w w' = (sched w' = sched w \<and> (\<exists>xs. trace w' = trace w @ xs \<and> list_all (env_obs r) xs))"

lemma env_run_refl [simp]: "env_run r w w"
  by (simp add: env_run_def)

lemma env_run_trans: "env_run r w w1 \<Longrightarrow> env_run r w1 w2 \<Longrightarrow> env_run r w w2"
  by (auto simp: env_run_def)

lemma env_run_same: "trace w' = trace w \<Longrightarrow> sched w' = sched w \<Longrightarrow> env_run r w w'"
  by (simp add: env_run_def)

lemma env_run_upd [simp]:
  "env_run r w (upd f w') = env_run r w w'" "env_run r (upd f w) w' = env_run r w w'"
  "env_run r w (w'\<lparr>lnk := l\<rparr>) = env_run r w w'" "env_run r (w\<lparr>lnk := l\<rparr>) w' = env_run r w w'"
  by (simp_all add: env_run_def)

lemma env_run_obs [simp]: "env_obs r x \<Longrightarrow> env_run r w w' \<Longrightarrow> env_run r w (obs x w')"
  by (auto simp: env_run_def)

lemma env_run_call [simp]: "env_run r w (snd (hw_call f ob w)) = env_obs r (ob (fst (hw_call f ob w)))"
  by (simp add: env_run_def)

lemma env_run_reply [simp]: "env_run r w (snd (tbframe_link_reply ops tf op caps sq xs w))"
  by (simp add: tbframe_link_reply_def Let_def split: sum.split)

lemma env_run_packet [simp]: "env_run r w (snd (tbframe_link_handle_packet ops tf buf w))"
proof -
  have up: "env_run r w (snd (tbframe_link_reply ops tf op caps sq xs (upd f w)))" for op caps sq xs f
    using env_run_reply [of r "upd f w"] unfolding env_run_upd .
  have "env_run r w (snd (tbframe_link_flush_ready_response id ops tf (upd f w)))" for f
    using up [of _ _ _ _ "\<lambda>l. ready_promote (f l)"]
    by (simp add: tbframe_link_flush_ready_response_def Let_def case_prod_beta upd_def split: sum.split)
  then show ?thesis
    using up by (simp add: tbframe_link_handle_packet_def handle_hello_def handle_ready_def handle_bye_def
        Let_def split: sum.split)
qed

lemma env_run_call_upd:
  "env_obs r (ob (fst (hw_call f ob (upd g w)))) \<Longrightarrow> env_run r w (snd (hw_call f ob (upd g w)))"
  "env_obs r (ob (fst (hw_call f ob (w\<lparr>lnk := l\<rparr>)))) \<Longrightarrow> env_run r w (snd (hw_call f ob (w\<lparr>lnk := l\<rparr>)))"
  using env_run_call [of r "upd g w" f ob] env_run_call [of r "w\<lparr>lnk := l\<rparr>" f ob] unfolding env_run_upd by blast+

lemma rings_up_tx [simp]:
  "rings_up (hw_active_inc l) = rings_up l" "rings_up (hw_active_dec l) = rings_up l"
  "rings_up (rxf i g l) = rings_up l"
  by (simp_all add: hw_active_inc_def hw_active_dec_def rxf_def)

lemma env_run_recycle: "rings_up (lnk w) \<longrightarrow> r \<Longrightarrow> env_run r w (tbframe_frame_recycle_rx ops i w)"
  by (auto simp: tbframe_frame_recycle_rx_def Let_def case_prod_beta intro!: env_run_call_upd split: sum.split)

lemma env_run_put_ref: "rings_up (lnk w) \<longrightarrow> r \<Longrightarrow> env_run r w (rx_put_ref ops i w)"
  using env_run_recycle [of "upd (rxf i g) w" r ops i for g] by (simp add: rx_put_ref_def Let_def)

lemma env_run_finish:
  assumes "rings_up (lnk w) \<longrightarrow> r"
  shows "env_run r w (rx_finish ops tf i len pdf bad takes cur pr ck w)"
proof -
  define w1 where "w1 = (if cur \<and> bad \<and> len \<le> TBFRAME_MAX_FRAME then rx_report_bad tf i len pdf w else w)"
  have 1: "env_run r w w1" "rings_up (lnk w1) \<longrightarrow> r"
    using assms by (simp_all add: w1_def rx_report_bad_def rx_set_frame_def Let_def split: option.split)
  have "rings_up (rx_supersede x l) = rings_up l" for x l
    by (rule session_viewD(6)) simp
  then have "env_run r (upd (rx_supersede ck) w1) (tbframe_frame_recycle_rx ops i (upd (rx_supersede ck) w1))"
    using 1(2) by (intro env_run_recycle) simp
  then have 2: "env_run r w1 (tbframe_frame_recycle_rx ops i (upd (rx_supersede ck) w1))" by simp
  have 3: "env_run r w1 (rx_deliver ops tf i len pdf takes w1)"
  proof -
    define w2 where "w2 = (case client_ops tf of None \<Rightarrow> w1 | Some c \<Rightarrow> if has_rx c then obs (ORx i) w1 else w1)"
    obtain g where g: "rx_deliver ops tf i len pdf takes w1 = rx_put_ref ops i (upd g w2)" "\<And>l. rings_up (g l) = rings_up l"
    proof
      let ?s = "\<lambda>l. rxf i (\<lambda>f. f\<lparr>rx_refs := 1\<rparr>) (rx_set_frame i len pdf l)"
      let ?g = "if (\<exists>c. client_ops tf = Some c \<and> has_rx c) then (tbframe_frame_get_rx i ^^ takes) \<circ> ?s else ?s"
      show "rx_deliver ops tf i len pdf takes w1 = rx_put_ref ops i (upd ?g w2)"
        by (simp add: rx_deliver_def w2_def upd_def obs_def Let_def split: option.split)
      show "rings_up (?g l) = rings_up l" for l by (simp add: rx_set_frame_def)
    qed
    have "env_run r (upd g w2) (rx_put_ref ops i (upd g w2))"
      using 1(2) g(2) by (intro env_run_put_ref) (simp add: w2_def split: option.split)
    moreover have "env_run r w1 w2" by (simp add: w2_def split: option.split)
    ultimately show ?thesis unfolding g(1) env_run_upd by (rule env_run_trans [rotated])
  qed
  show ?thesis
    using env_run_trans [OF 1(1) 2] env_run_trans [OF 1(1) 3] env_run_trans [OF 1(1) env_run_recycle [OF 1(2)]]
    by (simp add: rx_finish_def Let_def flip: w1_def)
qed

lemma env_run_rx:
  assumes "rings_up (lnk w) \<longrightarrow> r"
  shows "env_run r w (tbframe_core_rx_complete ops tf i c len pdf bad takes w)"
proof -
  have "rings_up (rx_account i len bad p l) = rings_up l" for p l by (rule session_viewD(6)) simp
  then have "env_run r (upd (rx_account i len bad p) w) (rx_finish ops tf i len pdf bad takes cur pr ck (upd (rx_account i len bad p) w))" for p cur pr ck
    using assms by (intro env_run_finish) simp
  then show ?thesis by (simp add: tbframe_core_rx_complete_def Let_def case_prod_beta)
qed

lemma env_run_xmit:
  assumes "rings_up (lnk w) \<longrightarrow> r"
  shows "env_run r w (snd (tbframe_xmit_int ops tf f pre_up w))"
proof -
  have p: "env_run r w (snd (xmit_publish ops tf i (upd g w)))" if "r" for i g
    using that env_run_call_upd(1) [of r "ORingTx i" _ "\<lambda>l. tx_mark_posted i (g l)" w]
    by (simp add: xmit_publish_def Let_def case_prod_beta upd_def split: sum.split)
  show ?thesis
    using p assms by (auto simp: tbframe_xmit_int_def Let_def case_prod_beta xmit_ok_def upd_def hw_active_inc_def)
qed

lemma env_run_send:
  assumes "rings_up (lnk w) \<longrightarrow> r"
  shows "env_run r w (snd (tbframe_link_send_keepalive ops tf pre_up w))"
proof -
  have "rings_up (lnk (upd (keepalive_fill d f) (w\<lparr>lnk := snd (tbframe_alloc_frame_int len True pre_up (lnk w))\<rparr>))) = rings_up (lnk w)"
    for d f len by (rule session_viewD(6)) simp
  then have "env_run r w (snd (tbframe_xmit_int ops tf fr pre_up
      (upd (keepalive_fill d f) (w\<lparr>lnk := snd (tbframe_alloc_frame_int len True pre_up (lnk w))\<rparr>))))" for d f fr len
    using env_run_xmit [of "upd (keepalive_fill d f) (w\<lparr>lnk := snd (tbframe_alloc_frame_int len True pre_up (lnk w))\<rparr>)" r] assms
    by simp
  then show ?thesis
    by (simp add: tbframe_link_send_keepalive_def Let_def case_prod_beta split: sum.split)
qed

lemma env_run_verify:
  assumes "rings_up (lnk w) \<longrightarrow> r"
  shows "env_run r w (tbframe_link_verify_step ops tf w)"
proof -
  define w1 where "w1 = snd (hw_call (op_paths_active ops (local_hopid (lnk w)) (remote_hopid (lnk w)))
      (OPathsActive (local_hopid (lnk w)) (remote_hopid (lnk w))) w)"
  have 1: "env_run r w w1" "rings_up (lnk w1) \<longrightarrow> r" using assms by (simp_all add: w1_def)
  then have "env_run r w (snd (tbframe_link_send_keepalive ops tf False w1))"
    using env_run_send env_run_trans by blast
  then show ?thesis
    using 1 by (simp add: tbframe_link_verify_step_def Let_def case_prod_beta flip: w1_def)
qed

lemma refill_ring: "fst (tx_refill tf c l) = Some n \<Longrightarrow> rings_up l"
  by (auto simp: tx_refill_def split: if_splits list.splits)

lemma env_run_tx:
  assumes "rings_up (lnk w) \<longrightarrow> r"
  shows "env_run r w (tbframe_core_tx_complete ops tf i c w)"
proof (cases c)
  case False
  define l where "l = snd (tbframe_tx_return_locked i (tx_complete_unpost i False (hw_active_inc (lnk w))))"
  have "rings_up l = rings_up (lnk w)" unfolding l_def by (rule session_viewD(6)) simp
  then have n: "fst (tx_refill tf False l) = Some n \<Longrightarrow> r" for n using refill_ring [of tf False l n] assms by simp
  have "fst (tx_refill tf False l) = Some n \<Longrightarrow> env_run r w (snd (hw_call f (ORingTx n) (w\<lparr>lnk := l'\<rparr>)))" for n f l'
    using n [of n] by (intro env_run_call_upd(2)) simp
  then show ?thesis
    using False by (simp add: tx_complete_done Let_def case_prod_beta flip: l_def split: option.split sum.split)
qed (simp add: tx_complete_canceled)

lemma run_event_env:
  assumes "rings_up (lnk w) \<longrightarrow> r"
  shows "env_run r w (run_event ops tf ev w)"
proof (cases ev)
  case (EvRxComplete i c len pdf bad data takes)
  then show ?thesis
    using env_run_rx [of "upd (rxf i (\<lambda>f. f\<lparr>fdata := data\<rparr>)) w" r] assms by simp
next
  case EvVerify
  then show ?thesis
    using env_run_verify [of "upd (\<lambda>l. l\<lparr>verify_work := False\<rparr>) w" r] assms by (simp add: tbframe_verify_workfn_def)
qed (use env_run_tx [OF assms] env_run_xmit [OF assms] env_run_put_ref [OF assms] in
      \<open>simp_all add: tbframe_xmit_def tbframe_frame_put_rx_def tbframe_tx_released_workfn_def env_run_same split: option.split\<close>)

lemma session_view_put_rx [simp]: "session_view (lnk (tbframe_frame_put_rx ops f w)) = session_view (lnk w)"
  by (simp add: tbframe_frame_put_rx_def)

lemma run_event_view: "owner_view (lnk (run_event ops tf ev w)) = owner_view (lnk w)"
proof (cases ev)
  case EvPark
  then show ?thesis by (simp add: owner_view_def session_view_def)
next
  case EvRemoving
  then show ?thesis by (simp add: owner_view_def session_view_def)
qed (rule owner_viewI, simp add: tbframe_xmit_def tbframe_alloc_frame_def tbframe_verify_workfn_def
       tbframe_tx_released_workfn_def split: option.split)+

text \<open>The gates only close.\<close>

lemma run_event_gates:
  "removing (lnk w) \<Longrightarrow> removing (lnk (run_event ops tf ev w))"
  "parked (lnk w) \<Longrightarrow> parked (lnk (run_event ops tf ev w))"
proof -
  have "ev \<noteq> EvPark \<Longrightarrow> ev \<noteq> EvRemoving \<Longrightarrow> session_view (lnk (run_event ops tf ev w)) = session_view (lnk w)"
    by (cases ev) (simp_all add: tbframe_xmit_def tbframe_alloc_frame_def tbframe_verify_workfn_def
       tbframe_tx_released_workfn_def split: option.split)
  then show "removing (lnk w) \<Longrightarrow> removing (lnk (run_event ops tf ev w))"
    "parked (lnk w) \<Longrightarrow> parked (lnk (run_event ops tf ev w))"
    by (cases "ev = EvPark"; cases "ev = EvRemoving"; auto dest: session_viewD(2,3))+
qed

section \<open>The contract of interference\<close>

text \<open>A property of the world that every permitted event keeps survives every window of the session
  machine.\<close>

locale event_closed =
  fixes ops :: "'h tbframe_hw_ops" and tf :: tbframe and P :: "'h world \<Rightarrow> bool"
  assumes event: "P w \<Longrightarrow> event_ok ev (lnk w) \<Longrightarrow> P (run_event ops tf ev w)"
    and schedule: "P w \<Longrightarrow> P (w\<lparr>sched := s\<rparr>)"
begin

lemma batch: "P w \<Longrightarrow> P (fold (event_step ops tf) evs w)"
  by (induction evs arbitrary: w) (simp_all add: event_step_def event)

lemma window: "P w \<Longrightarrow> P (interfere ops tf w)"
  by (simp add: interfere_def batch schedule split: list.split)

end

interpretation pools_closed: event_closed ops tf "\<lambda>w. link_inv tf k (lnk w)"
  by unfold_locales (simp_all add: run_event_inv)

interpretation owner_closed: event_closed ops tf "\<lambda>w. owner_view (lnk w) = v"
  by unfold_locales (simp_all add: run_event_view)

interpretation removing_closed: event_closed ops tf "\<lambda>w. removing (lnk w)"
  by unfold_locales (simp_all add: run_event_gates)

interpretation parked_closed: event_closed ops tf "\<lambda>w. parked (lnk w)"
  by unfold_locales (simp_all add: run_event_gates)

interpretation calls_closed: event_closed ops tf "\<lambda>w. owner_view (lnk w) = owner_view (lnk u)
    \<and> (\<exists>xs. trace w = trace u @ xs \<and> list_all (env_obs (rings_up (lnk u))) xs)"
proof unfold_locales
  fix w :: "'a world" and ev
  assume a: "owner_view (lnk w) = owner_view (lnk u) \<and> (\<exists>xs. trace w = trace u @ xs \<and> list_all (env_obs (rings_up (lnk u))) xs)"
  then have "env_run (rings_up (lnk u)) w (run_event ops tf ev w)"
    using run_event_env owner_viewD(4) by blast
  then show "owner_view (lnk (run_event ops tf ev w)) = owner_view (lnk u) \<and>
      (\<exists>xs. trace (run_event ops tf ev w) = trace u @ xs \<and> list_all (env_obs (rings_up (lnk u))) xs)"
    using a by (auto simp: env_run_def run_event_view)
qed simp

lemma interfere_owner [simp]: "owner_view (lnk (interfere ops tf w)) = owner_view (lnk w)"
  by (rule owner_closed.window) (rule refl)

lemmas interfere_sel [simp] = owner_viewD [OF interfere_owner]

lemma interfere_inv: "link_inv tf k (lnk w) \<Longrightarrow> link_inv tf k (lnk (interfere ops tf w))"
  by (rule pools_closed.window)

lemma interfere_trace:
  obtains xs where "trace (interfere ops tf w) = trace w @ xs" "list_all (env_obs (rings_up (lnk w))) xs"
  using calls_closed.window [of w w ops tf] by auto

text \<open>A window consumes one batch of the schedule.\<close>

lemma batch_sched: "sched (fold (event_step ops tf) evs w) = sched w"
proof (induction evs arbitrary: w)
  case (Cons ev evs)
  have "sched (event_step ops tf ev w) = sched w"
    using run_event_env [of w True ops tf ev] by (simp add: event_step_def env_run_def)
  then show ?case using Cons by simp
qed simp

lemma interfere_sched: "sched (interfere ops tf w) = tl (sched w)"
  by (simp add: interfere_def batch_sched split: list.split)

lemma interfere_none: "sched w = [] \<Longrightarrow> interfere ops tf w = w"
  by (simp add: interfere_def)

lemma hw_wait_sel [simp]:
  "fst (hw_wait ops tf f ob w) = fst (hw_call f ob w)"
  "snd (hw_wait ops tf f ob w) = interfere ops tf (snd (hw_call f ob w))"
  by (simp_all add: hw_wait_def case_prod_beta)

section \<open>Specifications over the trace of calls\<close>

text \<open>A specification automaton over the calls a link makes: the state after a list of calls, or
  none when a call is not allowed.\<close>

definition spec_run :: "('s \<Rightarrow> obs \<Rightarrow> 's option) \<Rightarrow> 's \<Rightarrow> obs list \<Rightarrow> 's option" where
  "spec_run step s xs = foldl (\<lambda>s x. Option.bind s (\<lambda>s. step s x)) (Some s) xs"

lemma spec_run_nil [simp]: "spec_run step s [] = Some s"
  by (simp add: spec_run_def)

lemma spec_run_snoc [simp]: "spec_run step s (xs @ [x]) = Option.bind (spec_run step s xs) (\<lambda>s. step s x)"
  by (simp add: spec_run_def)

lemma spec_run_append: "spec_run step s (xs @ ys) = Option.bind (spec_run step s xs) (\<lambda>s. spec_run step s ys)"
  by (induction ys rule: rev_induct) (simp_all flip: append_assoc add: Option.bind_assoc)

text \<open>The resources the session machine holds.\<close>

definition res_view :: "tbframe_link \<Rightarrow> _" where
  "res_view l = (lstate l, rings_allocated l, rings_up l, paths_enabled l, paths_owned l,
     terminal_handoff l, in_hopid_held l, active_remote_hopid l, local_hopid l)"

lemma res_view_upd [simp]:
  "res_view (l\<lparr>removing := v_removing\<rparr>) = res_view l"
  "res_view (l\<lparr>parked := v_parked\<rparr>) = res_view l"
  "res_view (l\<lparr>hello_done := v_hello_done\<rparr>) = res_view l"
  "res_view (l\<lparr>tx_quiesced := v_tx_quiesced\<rparr>) = res_view l"
  "res_view (l\<lparr>hs := v_hs\<rparr>) = res_view l"
  "res_view (l\<lparr>hello_responder := v_hello_responder\<rparr>) = res_view l"
  "res_view (l\<lparr>ready_responder := v_ready_responder\<rparr>) = res_view l"
  "res_view (l\<lparr>hello_selection_pending := v_hello_selection_pending\<rparr>) = res_view l"
  "res_view (l\<lparr>hello_selection_caps := v_hello_selection_caps\<rparr>) = res_view l"
  "res_view (l\<lparr>request_seq := v_request_seq\<rparr>) = res_view l"
  "res_view (l\<lparr>hello_attempts := v_hello_attempts\<rparr>) = res_view l"
  "res_view (l\<lparr>last_reannounce := v_last_reannounce\<rparr>) = res_view l"
  "res_view (l\<lparr>needs_down := v_needs_down\<rparr>) = res_view l"
  "res_view (l\<lparr>down_reason := v_down_reason\<rparr>) = res_view l"
  "res_view (l\<lparr>announce_pending := v_announce_pending\<rparr>) = res_view l"
  "res_view (l\<lparr>up_delivered := v_up_delivered\<rparr>) = res_view l"
  "res_view (l\<lparr>data_rx := v_data_rx\<rparr>) = res_view l"
  "res_view (l\<lparr>data_rx_tick_mark := v_data_rx_tick_mark\<rparr>) = res_view l"
  "res_view (l\<lparr>data_rx_proven := v_data_rx_proven\<rparr>) = res_view l"
  "res_view (l\<lparr>data_tx_proven := v_data_tx_proven\<rparr>) = res_view l"
  "res_view (l\<lparr>keepalive_tx_seq := v_keepalive_tx_seq\<rparr>) = res_view l"
  "res_view (l\<lparr>keepalive_tx_acked := v_keepalive_tx_acked\<rparr>) = res_view l"
  "res_view (l\<lparr>keepalive_tx_ack_mark := v_keepalive_tx_ack_mark\<rparr>) = res_view l"
  "res_view (l\<lparr>keepalive_peer_seq := v_keepalive_peer_seq\<rparr>) = res_view l"
  "res_view (l\<lparr>data_rx_bad := v_data_rx_bad\<rparr>) = res_view l"
  "res_view (l\<lparr>data_rx_oversize := v_data_rx_oversize\<rparr>) = res_view l"
  "res_view (l\<lparr>data_rx_stale := v_data_rx_stale\<rparr>) = res_view l"
  "res_view (l\<lparr>data_rx_bad_cookie := v_data_rx_bad_cookie\<rparr>) = res_view l"
  "res_view (l\<lparr>data_rx_prior_cookie := v_data_rx_prior_cookie\<rparr>) = res_view l"
  "res_view (l\<lparr>data_tx_done := v_data_tx_done\<rparr>) = res_view l"
  "res_view (l\<lparr>data_tx_submitted := v_data_tx_submitted\<rparr>) = res_view l"
  "res_view (l\<lparr>data_tx_refused := v_data_tx_refused\<rparr>) = res_view l"
  "res_view (l\<lparr>data_tx_ring_err := v_data_tx_ring_err\<rparr>) = res_view l"
  "res_view (l\<lparr>data_tx_canceled := v_data_tx_canceled\<rparr>) = res_view l"
  "res_view (l\<lparr>data_proven := v_data_proven\<rparr>) = res_view l"
  "res_view (l\<lparr>data_proof_unavailable_warned := v_data_proof_unavailable_warned\<rparr>) = res_view l"
  "res_view (l\<lparr>data_generation := v_data_generation\<rparr>) = res_view l"
  "res_view (l\<lparr>probe_attempts := v_probe_attempts\<rparr>) = res_view l"
  "res_view (l\<lparr>probe_failures := v_probe_failures\<rparr>) = res_view l"
  "res_view (l\<lparr>stale_drain_active := v_stale_drain_active\<rparr>) = res_view l"
  "res_view (l\<lparr>stale_drain_budget := v_stale_drain_budget\<rparr>) = res_view l"
  "res_view (l\<lparr>silent_ticks := v_silent_ticks\<rparr>) = res_view l"
  "res_view (l\<lparr>tx_silent_ticks := v_tx_silent_ticks\<rparr>) = res_view l"
  "res_view (l\<lparr>data_path_sample_valid := v_data_path_sample_valid\<rparr>) = res_view l"
  "res_view (l\<lparr>data_window := v_data_window\<rparr>) = res_view l"
  "res_view (l\<lparr>data_inflight := v_data_inflight\<rparr>) = res_view l"
  "res_view (l\<lparr>ctrl_inflight := v_ctrl_inflight\<rparr>) = res_view l"
  "res_view (l\<lparr>tx_blocked := v_tx_blocked\<rparr>) = res_view l"
  "res_view (l\<lparr>e2e_active := v_e2e_active\<rparr>) = res_view l"
  "res_view (l\<lparr>hw_active := v_hw_active\<rparr>) = res_view l"
  "res_view (l\<lparr>tx_frames := v_tx_frames\<rparr>) = res_view l"
  "res_view (l\<lparr>rx_frames := v_rx_frames\<rparr>) = res_view l"
  "res_view (l\<lparr>tx_frame_count := v_tx_frame_count\<rparr>) = res_view l"
  "res_view (l\<lparr>rx_frame_count := v_rx_frame_count\<rparr>) = res_view l"
  "res_view (l\<lparr>tx_free := v_tx_free\<rparr>) = res_view l"
  "res_view (l\<lparr>rx_free := v_rx_free\<rparr>) = res_view l"
  "res_view (l\<lparr>txq_ctrl := v_txq_ctrl\<rparr>) = res_view l"
  "res_view (l\<lparr>txq_data := v_txq_data\<rparr>) = res_view l"
  "res_view (l\<lparr>ring_posted := v_ring_posted\<rparr>) = res_view l"
  "res_view (l\<lparr>refcnt := v_refcnt\<rparr>) = res_view l"
  "res_view (l\<lparr>link_id := v_link_id\<rparr>) = res_view l"
  "res_view (l\<lparr>lroute := v_lroute\<rparr>) = res_view l"
  "res_view (l\<lparr>local_cookie := v_local_cookie\<rparr>) = res_view l"
  "res_view (l\<lparr>local_gid_eui64 := v_local_gid_eui64\<rparr>) = res_view l"
  "res_view (l\<lparr>remote_hopid := v_remote_hopid\<rparr>) = res_view l"
  "res_view (l\<lparr>remote_rx_entries := v_remote_rx_entries\<rparr>) = res_view l"
  "res_view (l\<lparr>remote_caps := v_remote_caps\<rparr>) = res_view l"
  "res_view (l\<lparr>remote_cookie := v_remote_cookie\<rparr>) = res_view l"
  "res_view (l\<lparr>previous_remote_cookie := v_previous_remote_cookie\<rparr>) = res_view l"
  "res_view (l\<lparr>remote_gid_eui64 := v_remote_gid_eui64\<rparr>) = res_view l"
  "res_view (l\<lparr>session_work := v_session_work\<rparr>) = res_view l"
  "res_view (l\<lparr>verify_timer := v_verify_timer\<rparr>) = res_view l"
  "res_view (l\<lparr>verify_work := v_verify_work\<rparr>) = res_view l"
  "res_view (l\<lparr>tx_released_work := v_tx_released_work\<rparr>) = res_view l"
  by (simp_all add: res_view_def)

lemma res_viewD:
  assumes "res_view l' = res_view l"
  shows "lstate l' = lstate l" "rings_allocated l' = rings_allocated l" "rings_up l' = rings_up l"
    "paths_enabled l' = paths_enabled l" "paths_owned l' = paths_owned l" "terminal_handoff l' = terminal_handoff l"
    "in_hopid_held l' = in_hopid_held l" "active_remote_hopid l' = active_remote_hopid l" "local_hopid l' = local_hopid l"
  using assms by (simp_all add: res_view_def)

lemma res_view_owner: "owner_view l' = owner_view l \<Longrightarrow> res_view l' = res_view l"
  using owner_viewD [of l' l] by (simp add: res_view_def)

lemma res_view_session: "session_view l' = session_view l \<Longrightarrow> res_view l' = res_view l"
  by (rule res_view_owner [OF owner_viewI])

lemma interfere_res [simp]: "res_view (lnk (interfere ops tf w)) = res_view (lnk w)"
  by (rule res_view_owner) simp

text \<open>A link update outside the pools and the resources.\<close>

definition soft :: "(tbframe_link \<Rightarrow> tbframe_link) \<Rightarrow> bool" where
  "soft f = (\<forall>tf k l. link_inv tf k (f l) = link_inv tf k l \<and> res_view (f l) = res_view l)"

lemma calm_soft: "calm f \<Longrightarrow> soft f"
  unfolding calm_def soft_def using res_view_session by blast

lemmas soft_calm [simp] = calm_facts [THEN calm_soft]

lemma soft_comp: "soft f \<Longrightarrow> soft g \<Longrightarrow> soft (\<lambda>l. f (g l))"
  by (simp add: soft_def)

text \<open>The pool accounting holds, the resources are \<open>v\<close>, and the specification is in state \<open>s\<close>,
  which allows ring accesses when the rings are up.\<close>

definition settled ::
  "('s \<Rightarrow> obs \<Rightarrow> 's option) \<Rightarrow> ('s \<Rightarrow> bool) \<Rightarrow> 's \<Rightarrow> tbframe \<Rightarrow> nat \<Rightarrow> 's \<Rightarrow> tbframe_link \<Rightarrow> 'h world \<Rightarrow> bool" where
  "settled step ring_ok s0 tf k s v w =
    (link_inv tf k (lnk w) \<and> res_view (lnk w) = res_view v \<and> spec_run step s0 (trace w) = Some s \<and>
     (rings_up v \<longrightarrow> ring_ok s))"

locale trace_spec =
  fixes step :: "'s \<Rightarrow> obs \<Rightarrow> 's option" and ring_ok :: "'s \<Rightarrow> bool" and s0 :: 's
  assumes env_step: "env_obs r x \<Longrightarrow> r \<longrightarrow> ring_ok s \<Longrightarrow> step s x = Some s"
    and request_step: "step s (ORequest q a) = Some s"
    and reannounce_step: "step s OReannounce = Some s"
begin

lemma env_run_spec: "list_all (env_obs r) xs \<Longrightarrow> r \<longrightarrow> ring_ok s \<Longrightarrow> spec_run step s xs = Some s"
  by (induction xs rule: rev_induct) (auto simp: env_step)

lemma settled_upd:
  "soft f \<Longrightarrow> settled step ring_ok s0 tf k s v (upd f w) = settled step ring_ok s0 tf k s v w"
  "soft f \<Longrightarrow> settled step ring_ok s0 tf k s v (w\<lparr>lnk := f l\<rparr>) = settled step ring_ok s0 tf k s v (w\<lparr>lnk := l\<rparr>)"
  by (simp_all add: settled_def soft_def)

lemma settled_env:
  assumes "settled step ring_ok s0 tf k s v w" "link_inv tf k (lnk w')" "res_view (lnk w') = res_view (lnk w)"
    "env_run (rings_up (lnk w)) w w'"
  shows "settled step ring_ok s0 tf k s v w'"
proof -
  obtain xs where xs: "trace w' = trace w @ xs" "list_all (env_obs (rings_up (lnk w))) xs"
    using assms(4) by (auto simp: env_run_def)
  have "rings_up (lnk w) \<longrightarrow> ring_ok s" "spec_run step s0 (trace w) = Some s"
    using assms(1) res_viewD(3) [of "lnk w" v] by (auto simp: settled_def)
  then show ?thesis
    using assms(1-3) env_run_spec [OF xs(2)] by (simp add: settled_def xs(1) spec_run_append)
qed

lemma settled_interfere:
  "settled step ring_ok s0 tf k s v w \<Longrightarrow> settled step ring_ok s0 tf k s v (interfere ops tf w)"
proof -
  assume a: "settled step ring_ok s0 tf k s v w"
  obtain xs where "trace (interfere ops tf w) = trace w @ xs" "list_all (env_obs (rings_up (lnk w))) xs"
    by (rule interfere_trace)
  then have "env_run (rings_up (lnk w)) w ((interfere ops tf w)\<lparr>sched := sched w\<rparr>)" by (simp add: env_run_def)
  then have "settled step ring_ok s0 tf k s v ((interfere ops tf w)\<lparr>sched := sched w\<rparr>)"
    using a by (intro settled_env [OF a]) (simp_all add: settled_def interfere_inv)
  then show ?thesis by (simp add: settled_def)
qed

text \<open>A call the specification follows.\<close>

lemma settled_call:
  assumes "settled step ring_ok s0 tf k s v w" "hw_call f ob w = (r, w')" "step s (ob r) = Some s'"
    "rings_up v \<longrightarrow> ring_ok s'"
  shows "settled step ring_ok s0 tf k s' v w'"
  using assms hw_call_sel(1,2) [OF assms(2)] by (simp add: settled_def)

lemma settled_wait:
  assumes "settled step ring_ok s0 tf k s v w" "hw_wait ops tf f ob w = (r, w')" "step s (ob r) = Some s'"
    "rings_up v \<longrightarrow> ring_ok s'"
  shows "settled step ring_ok s0 tf k s' v w'"
proof -
  obtain w1 where c: "hw_call f ob w = (r, w1)" "w' = interfere ops tf w1"
    using assms(2) by (cases "hw_call f ob w") (auto simp: hw_wait_def)
  show ?thesis
    unfolding c(2) by (rule settled_interfere [OF settled_call [OF assms(1) c(1) assms(3,4)]])
qed

lemma settled_run:
  assumes "settled step ring_ok s0 tf k s v w" "step s ob = Some s'" "rings_up v \<longrightarrow> ring_ok s'"
  shows "settled step ring_ok s0 tf k s' v (hw_run ops tf f ob w)"
  unfolding hw_run_def using assms by (intro settled_interfere) (simp add: settled_def)

lemma settled_obs:
  assumes "settled step ring_ok s0 tf k s v w" "step s ob = Some s'" "rings_up v \<longrightarrow> ring_ok s'"
  shows "settled step ring_ok s0 tf k s' v (obs ob w)"
  using assms by (simp add: settled_def)

end

end
