(* ===== verification/Tbframe_Handshake.thy ===== *)
theory Tbframe_Handshake
  imports Tbframe_Events
begin

text \<open>
  The requester side of a link's session, of \<^verbatim>\<open>frame/core.c\<close>: HELLO with its capability
  selection, the stale-data revalidation, READY, BYE, the data-path proof and the transition to
  UP with its upcall. The session work runs these with the session lock held; every call they make
  outside the link lock is a window for the events of \<open>Tbframe_Events\<close>.

  Shown: what a completed HELLO or READY exchange establishes about the peer, that capability
  selection takes at most two requests, that the gate to UP opens only on a proven data path, and
  that the requester leaves the pools and the hardware resources alone.
\<close>

section \<open>Requests\<close>

definition tbframe_link_kick :: "u32 \<Rightarrow> 'h world \<Rightarrow> 'h world" where
  "tbframe_link_kick delay w = upd (tbframe_link_kick_locked delay) w"

text \<open>The response buffer is cleared, then filled by the control channel.\<close>

definition resp_buf :: "u8 list \<Rightarrow> u8 list" where
  "resp_buf resp = take TBFRAME_WIRE_HELLO_MSG_SIZE (resp @ wire_buf)"

text \<open>One control request: the parsed answer.\<close>

definition control_exchange ::
  "'h tbframe_hw_ops \<Rightarrow> tbframe \<Rightarrow> u8 list \<Rightarrow> nat \<Rightarrow> 'h world
   \<Rightarrow> (errno + tbframe_wire_hello \<times> tbframe_wire_info) \<times> 'h world" where
  "control_exchange ops tf req timeout w =
    (case hw_wait ops tf (op_control_request ops req timeout) (ORequest req) w of
       (Inl e, w) \<Rightarrow> (Inl e, w)
     | (Inr resp, w) \<Rightarrow> (tbframe_wire_parse_hello (Some (resp_buf resp)), w))"

text \<open>The answer is to this request.\<close>

definition correlated :: "tbframe_wire_info \<Rightarrow> u16 \<Rightarrow> u32 \<Rightarrow> bool" where
  "correlated info op sq =
    (info_op info = op \<and> info_seq info = sq \<and> info_xdomain_sequence info = ucast (sq AND 3))"

definition tbframe_link_query_hello ::
  "'h tbframe_hw_ops \<Rightarrow> tbframe \<Rightarrow> 'h world \<Rightarrow> (errno + tbframe_wire_hello \<times> u32) \<times> 'h world" where
  "tbframe_link_query_hello ops tf w =
    (let local = tbframe_link_fill_local_hello tf (lnk w) (tbframe_link_hello_offer_mask (lnk w));
         offered_caps = capabilities local;
         (request_seq, l) = tbframe_link_next_request_seq (lnk w);
         w = w\<lparr>lnk := l\<rparr>
     in case tbframe_wire_build_hello (Some wire_buf) (Some local) TBFRAME_WIRE_OP_HELLO request_seq
               (lroute (lnk w)) (ucast (request_seq AND 3)) of
          Inl e \<Rightarrow> (Inl e, w)
        | Inr req \<Rightarrow>
           (case control_exchange ops tf req TBFRAME_HELLO_TIMEOUT_MS w of
              (Inl e, w) \<Rightarrow> (Inl e, w)
            | (Inr (remote, info), w) \<Rightarrow>
                if \<not> correlated info TBFRAME_WIRE_OP_HELLO_ACK request_seq then (Inl EPROTO, w)
                else if proto_version remote \<noteq> TBFRAME_WIRE_VERSION then (Inl EPROTO, w)
                else (Inr (remote, offered_caps), w)))"

text \<open>\<open>tbframe_link_hello_once\<close>: up to two rounds, the second confirming a strict downgrade.\<close>

fun hello_rounds ::
  "nat \<Rightarrow> 'h tbframe_hw_ops \<Rightarrow> tbframe \<Rightarrow> 'h world \<Rightarrow> (errno + tbframe_wire_hello) \<times> 'h world" where
  "hello_rounds 0 ops tf w = (Inl EPROTO, w)"
| "hello_rounds (Suc n) ops tf w =
    (case tbframe_link_query_hello ops tf w of
       (Inl e, w) \<Rightarrow> (Inl e, w)
     | (Inr (remote, offered_caps), w) \<Rightarrow>
         (let selected_caps = tbframe_link_supported_caps tf AND capabilities remote
          in if offered_caps = selected_caps then (Inr remote, w)
             else hello_rounds n ops tf
                    (upd (\<lambda>l. l\<lparr>hello_selection_pending := True, hello_selection_caps := selected_caps\<rparr>) w)))"

definition hello_accept :: "tbframe_wire_hello \<Rightarrow> tbframe_link \<Rightarrow> rc \<times> tbframe_link" where
  "hello_accept remote l =
    (if hr_seen (hello_responder l) \<and> \<not> tbframe_hello_matches remote (hr_peer (hello_responder l))
     then (Inl ESTALE, l)
     else
      (let l = tbframe_link_apply_remote_locked remote l;
           l = l\<lparr>hello_done := True, hello_selection_pending := False, hello_selection_caps := 0\<rparr>;
           l = (if rr_state (ready_responder l) \<noteq> TBFRAME_READY_RESPONDER_WAITING then
                  if tbframe_link_remote_matches_locked l (rr_peer (ready_responder l))
                  then l\<lparr>hs := (hs l)\<lparr>peer_seen := True\<rparr>\<rparr>
                  else (tbframe_ready_responder_reset l)\<lparr>hs := (hs l)\<lparr>peer_seen := False\<rparr>\<rparr>
                else l)
       in (Inr (), l)))"

definition tbframe_link_hello_once ::
  "'h tbframe_hw_ops \<Rightarrow> tbframe \<Rightarrow> 'h world \<Rightarrow> rc \<times> 'h world" where
  "tbframe_link_hello_once ops tf w =
    (case hello_rounds 2 ops tf w of
       (Inl e, w) \<Rightarrow> (Inl e, w)
     | (Inr remote, w) \<Rightarrow>
         (case hello_accept remote (lnk w) of (ret, l) \<Rightarrow> (ret, w\<lparr>lnk := l\<rparr>)))"

text \<open>Request a teardown unless one is already requested.\<close>

definition request_down_once :: "tbframe_down_reason \<Rightarrow> tbframe_link \<Rightarrow> tbframe_link" where
  "request_down_once reason l = (if \<not> needs_down l then request_down reason l else l)"

definition stale_recheck :: "errno + tbframe_wire_hello \<times> u32 \<Rightarrow> tbframe_link \<Rightarrow> tbframe_link" where
  "stale_recheck ret l =
    (case ret of
       Inl _ \<Rightarrow> request_down_once TBFRAME_DOWN_VERIFY l
     | Inr (remote, _) \<Rightarrow>
         if \<not> tbframe_link_remote_matches_locked l remote then request_down_once TBFRAME_DOWN_SUPERSEDE l
         else if \<not> needs_down l
         then tbframe_link_kick_locked TBFRAME_PROBE_INTERVAL_MS
                (l\<lparr>stale_drain_budget := TBFRAME_STALE_DRAIN_RETRIES, probe_attempts := 0\<rparr>)
         else l)"

definition tbframe_link_revalidate_stale_data ::
  "'h tbframe_hw_ops \<Rightarrow> tbframe \<Rightarrow> 'h world \<Rightarrow> 'h world" where
  "tbframe_link_revalidate_stale_data ops tf w =
    (let (ret, w) = tbframe_link_query_hello ops tf w in upd (stale_recheck ret) w)"

text \<open>READY keeps its correlation number in eight bits.\<close>

definition tbframe_link_ready_once ::
  "'h tbframe_hw_ops \<Rightarrow> tbframe \<Rightarrow> 'h world \<Rightarrow> rc \<times> 'h world" where
  "tbframe_link_ready_once ops tf w =
    (let local = tbframe_link_fill_local_hello tf (lnk w) (tbframe_link_selected_peer_caps (lnk w));
         (seq, l) = tbframe_link_next_request_seq (lnk w);
         request_seq = ucast (ucast seq :: u8);
         w = w\<lparr>lnk := l\<rparr>
     in case tbframe_wire_build_hello (Some wire_buf) (Some local) TBFRAME_WIRE_OP_READY request_seq
               (lroute (lnk w)) (ucast (request_seq AND 3)) of
          Inl e \<Rightarrow> (Inl e, w)
        | Inr req \<Rightarrow>
           (case control_exchange ops tf req TBFRAME_HELLO_TIMEOUT_MS w of
              (Inl e, w) \<Rightarrow> (Inl e, w)
            | (Inr (remote, info), w) \<Rightarrow>
                if \<not> correlated info TBFRAME_WIRE_OP_READY_ACK request_seq then (Inl EPROTO, w)
                else if \<not> tbframe_link_remote_matches_locked (lnk w) remote then (Inl ESTALE, w)
                else (Inr (), upd (\<lambda>l. l\<lparr>hs := (hs l)\<lparr>request_sent := True, peer_seen := True\<rparr>\<rparr>) w)))"

fun bye_loop ::
  "nat \<Rightarrow> 'h tbframe_hw_ops \<Rightarrow> tbframe \<Rightarrow> u8 list \<Rightarrow> u32 \<Rightarrow> 'h world \<Rightarrow> 'h world" where
  "bye_loop 0 ops tf req sq w = w"
| "bye_loop (Suc n) ops tf req sq w =
    (case control_exchange ops tf req TBFRAME_BYE_TIMEOUT_MS w of
       (Inl _, w) \<Rightarrow> bye_loop n ops tf req sq w
     | (Inr (_, info), w) \<Rightarrow>
         if correlated info TBFRAME_WIRE_OP_BYE_ACK sq then w
         else bye_loop n ops tf req sq w)"

definition tbframe_link_bye :: "'h tbframe_hw_ops \<Rightarrow> tbframe \<Rightarrow> 'h world \<Rightarrow> 'h world" where
  "tbframe_link_bye ops tf w =
    (let local = tbframe_link_fill_local_hello tf (lnk w) (tbframe_link_selected_peer_caps (lnk w));
         (request_seq, l) = tbframe_link_next_request_seq (lnk w);
         w = w\<lparr>lnk := l\<rparr>
     in case tbframe_wire_build_hello (Some wire_buf) (Some local) TBFRAME_WIRE_OP_BYE request_seq
               (lroute (lnk w)) (ucast (request_seq AND 3)) of
          Inl _ \<Rightarrow> w
        | Inr req \<Rightarrow> bye_loop TBFRAME_BYE_RETRIES ops tf req request_seq w)"

section \<open>The data-path proof\<close>

text \<open>The accounting of one probe: proven, whether stale data is draining, whether its budget just
  expired, and the number of fruitless probes.\<close>

definition probe_account :: "tbframe_link \<Rightarrow> (bool \<times> bool \<times> bool \<times> u32) \<times> tbframe_link" where
  "probe_account l =
    (let proven = data_proven l;
         stale_draining = (stale_drain_active l \<and> stale_drain_budget l \<noteq> 0);
         l = (if stale_draining
              then l\<lparr>stale_drain_budget := stale_drain_budget l - 1, probe_attempts := 0\<rparr> else l);
         stale_expired = (stale_draining \<and> stale_drain_budget l = 0);
         l = (if proven \<or> stale_draining then l else l\<lparr>probe_attempts := probe_attempts l + 1\<rparr>);
         attempts = (if proven \<or> stale_draining then 0 else probe_attempts l)
     in ((proven, stale_draining, stale_expired, attempts), l))"

definition probe_exhausted :: "tbframe_link \<Rightarrow> tbframe_link" where
  "probe_exhausted l =
    request_down_once TBFRAME_DOWN_VERIFY
      (l\<lparr>probe_attempts := 0, probe_failures := probe_failures l + 1,
         data_proof_unavailable_warned := False\<rparr>)"

definition tbframe_link_prove_data_path ::
  "'h tbframe_hw_ops \<Rightarrow> tbframe \<Rightarrow> 'h world \<Rightarrow> bool \<times> 'h world" where
  "tbframe_link_prove_data_path ops tf w =
    (if data_proven (lnk w) \<or> \<not> data_proof tf then (True, w)
     else if \<not> keepalive tf \<or> remote_caps (lnk w) AND TBFRAME_WIRE_CAP_KEEPALIVE = 0 then
       (False, tbframe_link_kick (verify_ms tf) (upd (\<lambda>l. l\<lparr>data_proof_unavailable_warned := True\<rparr>) w))
     else
      (let w = interfere ops tf (snd (tbframe_link_send_keepalive ops tf True w));
           ((proven, stale_draining, stale_expired, attempts), l) = probe_account (lnk w);
           w = w\<lparr>lnk := l\<rparr>
       in if proven then (True, w)
          else if stale_expired then (False, tbframe_link_revalidate_stale_data ops tf w)
          else if stale_draining \<or> attempts < TBFRAME_PROBE_RETRIES
          then (False, tbframe_link_kick TBFRAME_PROBE_INTERVAL_MS w)
          else (False, upd probe_exhausted w)))"

section \<open>Going UP\<close>

definition fill_attrs :: "'h tbframe_hw_ops \<Rightarrow> 'h \<Rightarrow> tbframe_link_info \<Rightarrow> tbframe_link_info" where
  "fill_attrs ops h info =
    (let info = (case op_link_attrs ops of
                   None \<Rightarrow> info
                 | Some f \<Rightarrow> info\<lparr>li_width := fst (f h), li_speed := snd (f h)\<rparr>)
     in case op_peer_identity ops of
          None \<Rightarrow> info
        | Some f \<Rightarrow> info\<lparr>li_remote_uuid := fst (f h), li_remote_name := snd (f h)\<rparr>)"

definition tbframe_link_deliver_up ::
  "'h tbframe_hw_ops \<Rightarrow> tbframe \<Rightarrow> tbframe_link_info \<Rightarrow> 'h world \<Rightarrow> 'h world" where
  "tbframe_link_deliver_up ops tf info w =
    (let info = fill_attrs ops (hw w) info
     in case client_ops tf of
          None \<Rightarrow> w
        | Some c \<Rightarrow> if has_link_up c then obs (OLinkUp info) w else w)"

definition up_ready :: "tbframe_link \<Rightarrow> bool" where
  "up_ready l =
    (lstate l = TBFRAME_STATE_INIT \<and> \<not> removing l \<and> \<not> needs_down l \<and>
     hello_done l \<and> rings_up l \<and> paths_enabled l \<and> tb_xdomain_handshake_complete (hs l))"

definition up_commit :: "tbframe_link \<Rightarrow> tbframe_link" where
  "up_commit l =
    l\<lparr>lstate := TBFRAME_STATE_UP, hs := (hs l)\<lparr>established := True\<rparr>, tx_quiesced := False,
      tx_blocked := False, announce_pending := False\<rparr>"

definition up_deliver :: "'h tbframe_hw_ops \<Rightarrow> tbframe \<Rightarrow> 'h world \<Rightarrow> 'h world" where
  "up_deliver ops tf w =
    (let w = interfere ops tf
               (tbframe_link_deliver_up ops tf (tbframe_link_fill_info_locked (lnk w)) w)
     in upd (\<lambda>l. rearm_verify_timer tf (l\<lparr>up_delivered := True\<rparr>)) w)"

definition tbframe_link_maybe_up :: "'h tbframe_hw_ops \<Rightarrow> tbframe \<Rightarrow> 'h world \<Rightarrow> 'h world" where
  "tbframe_link_maybe_up ops tf w =
    (if up_ready (lnk w) then up_deliver ops tf (upd up_commit w)
     else if lstate (lnk w) = TBFRAME_STATE_UP \<and> announce_pending (lnk w)
     then up_deliver ops tf (upd (\<lambda>l. l\<lparr>announce_pending := False\<rparr>) w)
     else w)"

text \<open>\<open>tbframe_link_info\<close>, the client's query.\<close>

definition tbframe_link_info_query :: "'h tbframe_hw_ops \<Rightarrow> 'h world \<Rightarrow> tbframe_link_info" where
  "tbframe_link_info_query ops w = fill_attrs ops (hw w) (tbframe_link_fill_info_locked (lnk w))"

section \<open>The requester keeps the pools and the resources\<close>

lemma softD: "soft f \<Longrightarrow> link_inv tf k (f l) = link_inv tf k l" "soft f \<Longrightarrow> res_view (f l) = res_view l"
  by (simp_all add: soft_def)

lemmas soft_res [simp] = calm_facts [THEN calm_soft, THEN softD(2)]

lemma soft_hello:
  "soft (\<lambda>l. snd (tbframe_link_next_request_seq l))"
  "soft (\<lambda>l. l\<lparr>hello_selection_pending := b, hello_selection_caps := c\<rparr>)"
  "soft (request_down_once r)" "soft (tbframe_link_apply_remote_locked h)"
  by (simp_all add: soft_def tbframe_link_next_request_seq_def request_down_once_def Let_def
      tbframe_link_apply_remote_locked_def)

lemmas soft_hello_simps [simp] = soft_hello soft_hello [THEN softD(1)] soft_hello [THEN softD(2)]

lemma soft_requester:
  "soft (\<lambda>l. snd (hello_accept remote l))" "soft (stale_recheck ret)"
  "soft (\<lambda>l. snd (probe_account l))" "soft probe_exhausted"
  "soft (\<lambda>l. l\<lparr>hs := g (hs l)\<rparr>)" "soft (\<lambda>l. l\<lparr>data_proof_unavailable_warned := b\<rparr>)"
  by (simp_all add: soft_def hello_accept_def stale_recheck_def probe_account_def probe_exhausted_def Let_def
      split: sum.split prod.split)

lemmas soft_requester_simps [simp] = soft_requester soft_requester [THEN softD(1)] soft_requester [THEN softD(2)]

context trace_spec begin

lemma settled_lnk:
  "soft f \<Longrightarrow> settled step ring_ok s0 tf k s v w \<Longrightarrow> settled step ring_ok s0 tf k s v (w\<lparr>lnk := f (lnk w)\<rparr>)"
  by (simp add: settled_def soft_def)

lemma settled_send:
  assumes "settled step ring_ok s0 tf k s v w"
  shows "settled step ring_ok s0 tf k s v (snd (tbframe_link_send_keepalive ops tf pre_up w))"
  by (rule settled_env [OF assms])
    (use assms in \<open>simp_all add: settled_def send_keepalive_inv env_run_send res_view_session [OF session_tx.view_send]\<close>)

lemma settled_reply:
  assumes "settled step ring_ok s0 tf k s v w"
  shows "settled step ring_ok s0 tf k s v (snd (tbframe_link_reply ops tf op caps seq xs w))"
  by (rule settled_env [OF assms]) (use assms in \<open>simp_all add: settled_def\<close>)

lemma settled_kick:
  "settled step ring_ok s0 tf k s v (tbframe_link_kick d w) = settled step ring_ok s0 tf k s v w"
  by (simp add: tbframe_link_kick_def settled_upd)

lemma settled_exchange:
  "settled step ring_ok s0 tf k s v w \<Longrightarrow>
    settled step ring_ok s0 tf k s v (snd (control_exchange ops tf req t w))"
  using settled_wait [of tf k s v w ops _ "ORequest req"]
  by (simp add: control_exchange_def request_step settled_def split: prod.split sum.split)

lemma settled_query:
  assumes "settled step ring_ok s0 tf k s v w"
  shows "settled step ring_ok s0 tf k s v (snd (tbframe_link_query_hello ops tf w))"
proof -
  let ?w = "w\<lparr>lnk := snd (tbframe_link_next_request_seq (lnk w))\<rparr>"
  have 1: "settled step ring_ok s0 tf k s v ?w" by (rule settled_lnk [OF _ assms]) simp
  then have "settled step ring_ok s0 tf k s v (snd (control_exchange ops tf req t ?w))" for req t
    by (rule settled_exchange)
  then show ?thesis
    using 1 by (simp add: tbframe_link_query_hello_def Let_def case_prod_beta split: sum.split)
qed

lemma settled_rounds:
  "settled step ring_ok s0 tf k s v w \<Longrightarrow> settled step ring_ok s0 tf k s v (snd (hello_rounds n ops tf w))"
proof (induction n arbitrary: w)
  case (Suc n)
  show ?case
    using settled_query [OF Suc.prems, of ops] Suc.IH
    by (auto simp: Let_def settled_upd split: prod.split sum.split)
qed simp

lemma settled_hello_once:
  "settled step ring_ok s0 tf k s v w \<Longrightarrow> settled step ring_ok s0 tf k s v (snd (tbframe_link_hello_once ops tf w))"
  using settled_rounds [of tf k s v w 2 ops]
  by (simp add: tbframe_link_hello_once_def case_prod_beta settled_lnk [OF soft_requester(1)] split: sum.split)

lemma settled_revalidate:
  "settled step ring_ok s0 tf k s v w \<Longrightarrow>
    settled step ring_ok s0 tf k s v (tbframe_link_revalidate_stale_data ops tf w)"
  by (simp add: tbframe_link_revalidate_stale_data_def case_prod_beta settled_upd settled_query)

lemma settled_ready_once:
  assumes "settled step ring_ok s0 tf k s v w"
  shows "settled step ring_ok s0 tf k s v (snd (tbframe_link_ready_once ops tf w))"
proof -
  let ?w = "w\<lparr>lnk := snd (tbframe_link_next_request_seq (lnk w))\<rparr>"
  have 1: "settled step ring_ok s0 tf k s v ?w" by (rule settled_lnk [OF _ assms]) simp
  then have "settled step ring_ok s0 tf k s v (snd (control_exchange ops tf req t ?w))" for req t
    by (rule settled_exchange)
  then show ?thesis
    using 1 by (simp add: tbframe_link_ready_once_def Let_def case_prod_beta settled_upd soft_def split: sum.split)
qed

lemma settled_bye_loop:
  "settled step ring_ok s0 tf k s v w \<Longrightarrow> settled step ring_ok s0 tf k s v (bye_loop n ops tf req sq w)"
proof (induction n arbitrary: w)
  case (Suc n)
  show ?case
    using settled_exchange [OF Suc.prems, of ops req TBFRAME_BYE_TIMEOUT_MS] Suc.IH
    by (auto split: prod.split sum.split)
qed simp

lemma settled_bye:
  assumes "settled step ring_ok s0 tf k s v w"
  shows "settled step ring_ok s0 tf k s v (tbframe_link_bye ops tf w)"
proof -
  have "settled step ring_ok s0 tf k s v (w\<lparr>lnk := snd (tbframe_link_next_request_seq (lnk w))\<rparr>)"
    by (rule settled_lnk [OF _ assms]) simp
  then show ?thesis
    by (simp add: tbframe_link_bye_def Let_def case_prod_beta settled_bye_loop split: sum.split)
qed

lemma settled_prove:
  assumes "settled step ring_ok s0 tf k s v w"
  shows "settled step ring_ok s0 tf k s v (snd (tbframe_link_prove_data_path ops tf w))"
proof -
  let ?w = "interfere ops tf (snd (tbframe_link_send_keepalive ops tf True w))"
  have "settled step ring_ok s0 tf k s v (?w\<lparr>lnk := snd (probe_account (lnk ?w))\<rparr>)"
    by (intro settled_lnk [where f = "\<lambda>l. snd (probe_account l)"] settled_interfere settled_send assms) simp
  then show ?thesis
    using assms
    by (simp add: tbframe_link_prove_data_path_def Let_def case_prod_beta settled_kick settled_upd settled_revalidate)
qed

lemma settled_flush_ready:
  "settled step ring_ok s0 tf k s v w \<Longrightarrow>
    settled step ring_ok s0 tf k s v (snd (tbframe_link_flush_ready_response (interfere ops tf) ops tf w))"
  by (simp add: tbframe_link_flush_ready_response_def Let_def case_prod_beta settled_upd settled_interfere
      settled_reply split: sum.split)

lemma settled_reannounce:
  "settled step ring_ok s0 tf k s v w \<Longrightarrow> settled step ring_ok s0 tf k s v (tbframe_link_reannounce ops w)"
  by (auto simp: tbframe_link_reannounce_def Let_def settled_upd soft_def reannounce_step settled_def
      split: option.split)

end

end
