(* ===== verification/Tbframe_Session.thy ===== *)
theory Tbframe_Session
  imports Tbframe_Handshake
begin

text \<open>
  The session machine of a link, of \<^verbatim>\<open>frame/core.c\<close>: bring-up of the data plane with its rollback,
  teardown, and the step the session work runs. \<open>tbframe_link_down_session\<close> is cut into its phases
  in the order of the C function; a value of type \<open>option\<close> is \<open>None\<close> when the code never
  returns, which only the publisher drain with a zero budget can do.

  Shown here: termination, the pool accounting along every step, and what bring-up and teardown do
  on each branch. The order of the hardware calls is the subject of \<open>Tbframe_Resource\<close>.
\<close>

section \<open>Terminal handoff and the down upcall\<close>

definition quarantine_commit :: "tbframe_link \<Rightarrow> tbframe_link" where
  "quarantine_commit l =
    l\<lparr>lstate := TBFRAME_STATE_DEAD, terminal_handoff := True, rings_allocated := False,
      rings_up := False, paths_enabled := False, paths_owned := False, in_hopid_held := False\<rparr>"

definition tbframe_link_quarantine_paths ::
  "'h tbframe_hw_ops \<Rightarrow> tbframe \<Rightarrow> u16 \<Rightarrow> 'h world \<Rightarrow> bool \<times> 'h world" where
  "tbframe_link_quarantine_paths ops tf hopid w =
    (case op_quarantine_paths ops of
       None \<Rightarrow> (False, w)
     | Some f \<Rightarrow>
         (case hw_wait ops tf (f (local_hopid (lnk w)) hopid)
                 (OQuarantinePaths (local_hopid (lnk w)) hopid) w of
            (Inl _, w) \<Rightarrow> (False, w)
          | (Inr _, w) \<Rightarrow> (True, upd quarantine_commit w)))"

definition tbframe_link_notify_down ::
  "'h tbframe_hw_ops \<Rightarrow> tbframe \<Rightarrow> tbframe_down_reason \<Rightarrow> bool \<Rightarrow> bool \<Rightarrow> 'h world \<Rightarrow> 'h world" where
  "tbframe_link_notify_down ops tf reason was_up terminal w =
    (let deliver = (was_up \<or> up_delivered (lnk w) \<and> terminal);
         w = (if terminal then upd (\<lambda>l. l\<lparr>up_delivered := False\<rparr>) w else w)
     in if \<not> deliver then w
        else case client_ops tf of
               None \<Rightarrow> w
             | Some c \<Rightarrow>
                 if has_link_down c then interfere ops tf (obs (OLinkDown reason) w) else w)"

section \<open>Bring-up\<close>

definition bring_up_reset :: "tbframe_link \<Rightarrow> tbframe_link" where
  "bring_up_reset l =
    l\<lparr>data_proven := False, data_proof_unavailable_warned := False,
      data_generation := data_generation l + 1, data_rx := 0, data_rx_tick_mark := 0,
      data_rx_proven := False, data_tx_proven := False, keepalive_tx_seq := 0,
      keepalive_tx_acked := 0, keepalive_tx_ack_mark := 0, keepalive_peer_seq := 0,
      stale_drain_active := False, stale_drain_budget := 0, silent_ticks := 0,
      tx_silent_ticks := 0\<rparr>"

text \<open>Prime every receive descriptor. The pool may grow while the loop runs, so it ends with the
  schedule: each round either consumes a batch or, with no batch left, a descriptor.\<close>

definition post_take :: "nat \<Rightarrow> nat list \<Rightarrow> tbframe_link \<Rightarrow> tbframe_link" where
  "post_take i rest l =
    rxf i (\<lambda>f. f\<lparr>rx_generation := data_generation l\<rparr>)
      (l\<lparr>rx_free := rest, refcnt := refcnt l + 1\<rparr>)"

function bring_up_post :: "'h tbframe_hw_ops \<Rightarrow> tbframe \<Rightarrow> 'h world \<Rightarrow> rc \<times> 'h world" where
  "bring_up_post ops tf w =
    (case rx_free (lnk w) of
       [] \<Rightarrow> (Inr (), w)
     | i # rest \<Rightarrow>
         (case hw_call (op_post_rx ops i) (OPostRx i) (upd (post_take i rest) w) of
            (Inl e, w) \<Rightarrow> (Inl e, upd (tbframe_frame_putback_rx i) w)
          | (Inr _, w) \<Rightarrow> bring_up_post ops tf (interfere ops tf w)))"
  by pat_completeness auto

termination
proof (relation "measures [\<lambda>(ops, tf, w). length (sched w), \<lambda>(ops, tf, w). length (rx_free (lnk w))]",
    goal_cases)
  case (2 ops tf w i rest r w' y)
  have l: "lnk w' = post_take i rest (lnk w)" and s: "sched w' = sched w"
    using hw_call_sel(1,3) [OF 2(2) [symmetric]] by simp_all
  show ?case
  proof (cases "sched w")
    case Nil
    then show ?thesis using 2 l s by (simp add: interfere_none post_take_def)
  next
    case (Cons a list)
    then show ?thesis using s by (simp add: interfere_sched)
  qed
qed simp

declare bring_up_post.simps [simp del]

definition bring_up_free ::
  "'h tbframe_hw_ops \<Rightarrow> tbframe \<Rightarrow> u16 \<Rightarrow> 'h world \<Rightarrow> 'h world" where
  "bring_up_free ops tf hopid w =
    (let w = hw_run ops tf (op_free_rings ops) OFreeRings w;
         held = in_hopid_held (lnk w);
         w = upd (\<lambda>l. l\<lparr>rings_allocated := False, in_hopid_held := False\<rparr>) w
     in if held then hw_run ops tf (op_release_in_hopid ops hopid) (OReleaseInHopid hopid) w else w)"

definition bring_up_stop ::
  "'h tbframe_hw_ops \<Rightarrow> tbframe \<Rightarrow> u16 \<Rightarrow> 'h world \<Rightarrow> 'h world" where
  "bring_up_stop ops tf hopid w =
    bring_up_free ops tf hopid (hw_run ops tf (op_stop_rings ops) OStopRings w)"

text \<open>Activation failed and left the route owned: disconnect once more, fence the callbacks, and
  hand everything to the core when the route cannot be resolved.\<close>

definition bring_up_rollback ::
  "'h tbframe_hw_ops \<Rightarrow> tbframe \<Rightarrow> u16 \<Rightarrow> 'h world \<Rightarrow> rc \<times> 'h world" where
  "bring_up_rollback ops tf hopid w =
    (let w = upd (\<lambda>l. l\<lparr>paths_owned := True\<rparr>) w;
         (disconnect_ret, w) = hw_wait ops tf (op_disable_paths ops (local_hopid (lnk w)) hopid)
                                 (ODisablePaths (local_hopid (lnk w)) hopid) w;
         w = hw_run ops tf (op_stop_rings ops) OStopRings w
     in case disconnect_ret of
          Inl e \<Rightarrow>
            (let (transferred, w) = tbframe_link_quarantine_paths ops tf hopid w;
                 w = (if transferred then w else upd (\<lambda>l. l\<lparr>lstate := TBFRAME_STATE_DEAD\<rparr>) w)
             in (Inl e, tbframe_link_notify_down ops tf TBFRAME_DOWN_DEAD_HW False True w))
        | Inr _ \<Rightarrow>
            (Inl EUCLEAN, bring_up_free ops tf hopid (upd (\<lambda>l. l\<lparr>paths_owned := False\<rparr>) w)))"

definition bring_up_commit :: "tbframe \<Rightarrow> bool \<Rightarrow> tbframe_link \<Rightarrow> tbframe_link" where
  "bring_up_commit tf mode_b l =
    (let l = l\<lparr>rings_up := True, paths_enabled := True, paths_owned := True, e2e_active := mode_b\<rparr>
     in l\<lparr>data_window := tbframe_link_window tf l\<rparr>)"

definition bring_up_enable ::
  "'h tbframe_hw_ops \<Rightarrow> tbframe \<Rightarrow> u16 \<Rightarrow> bool \<Rightarrow> 'h world \<Rightarrow> rc \<times> 'h world" where
  "bring_up_enable ops tf hopid mode_b w =
    (case hw_wait ops tf (op_enable_paths ops (local_hopid (lnk w)) hopid)
            (OEnablePaths (local_hopid (lnk w)) hopid) w of
       (Inr _, w) \<Rightarrow> (Inr (), upd (bring_up_commit tf mode_b) w)
     | (Inl e, w) \<Rightarrow>
         if e = EUCLEAN then bring_up_rollback ops tf hopid w
         else (Inl e, bring_up_stop ops tf hopid w))"

definition tbframe_link_bring_up ::
  "'h tbframe_hw_ops \<Rightarrow> tbframe \<Rightarrow> 'h world \<Rightarrow> rc \<times> 'h world" where
  "tbframe_link_bring_up ops tf w =
    (let hopid = remote_hopid (lnk w);
         mode_b = (e2e tf \<and> remote_caps (lnk w) AND TBFRAME_WIRE_CAP_E2E \<noteq> 0);
         w = upd bring_up_reset w
     in case hw_wait ops tf (op_alloc_rings ops (ring_entries tf) (ring_entries tf) mode_b) OAllocRings w of
          (Inl e, w) \<Rightarrow> (Inl e, w)
        | (Inr _, w) \<Rightarrow>
           (case hw_wait ops tf (op_alloc_in_hopid ops hopid) (OAllocInHopid hopid)
                   (upd (\<lambda>l. l\<lparr>rings_allocated := True\<rparr>) w) of
              (Inl e, w) \<Rightarrow> (Inl e, bring_up_free ops tf hopid w)
            | (Inr _, w) \<Rightarrow>
               (let w = upd (\<lambda>l. l\<lparr>active_remote_hopid := hopid, in_hopid_held := True\<rparr>) w;
                    w = hw_run ops tf (op_start_rings ops) OStartRings w
                in case bring_up_post ops tf w of
                     (Inl e, w) \<Rightarrow> (Inl e, bring_up_stop ops tf hopid w)
                   | (Inr _, w) \<Rightarrow> bring_up_enable ops tf hopid mode_b w)))"

section \<open>Teardown\<close>

datatype tbframe_session_owner = TBFRAME_SESSION_LOCAL | TBFRAME_SESSION_PEER

text \<open>The first critical section: admission closes and the session's evidence is forgotten.\<close>

definition down_close :: "tbframe_session_owner \<Rightarrow> u64 \<Rightarrow> tbframe_link \<Rightarrow> tbframe_link" where
  "down_close owner next_cookie l =
    (let l = (if lstate l \<noteq> TBFRAME_STATE_DEAD then l\<lparr>lstate := TBFRAME_STATE_INIT\<rparr> else l);
         l = l\<lparr>rings_up := False, hello_done := False, needs_down := False, tx_blocked := False,
               hello_attempts := 0, hello_selection_pending := False, hello_selection_caps := 0,
               data_proven := False, data_proof_unavailable_warned := False, data_rx := 0,
               data_rx_tick_mark := 0, data_rx_proven := False, data_tx_proven := False,
               keepalive_tx_seq := 0, keepalive_tx_acked := 0, keepalive_tx_ack_mark := 0,
               keepalive_peer_seq := 0, stale_drain_active := False, stale_drain_budget := 0,
               silent_ticks := 0, tx_silent_ticks := 0, probe_attempts := 0,
               data_path_sample_valid := False, hs := tb_xdomain_handshake_reset (hs l)\<rparr>;
         l = tbframe_ready_responder_reset (tbframe_hello_responder_reset l)
     in if owner = TBFRAME_SESSION_LOCAL then l\<lparr>local_cookie := next_cookie\<rparr> else l)"

definition drain_budget :: "tbframe \<Rightarrow> u32" where
  "drain_budget tf =
    (if shutdown_mode tf then min (xmit_drain_ms tf) TBFRAME_SHUTDOWN_DRAIN_MS else xmit_drain_ms tf)"

text \<open>\<open>read_poll_timeout\<close> on the publisher count: each sleep lets the others run. When they have
  nothing left to do the count cannot change, so the deadline passes; a zero timeout sets no
  deadline and the poll then never ends.\<close>

function publisher_drain ::
  "'h tbframe_hw_ops \<Rightarrow> tbframe \<Rightarrow> u32 \<Rightarrow> u64 \<Rightarrow> 'h world \<Rightarrow> (bool \<times> 'h world) option" where
  "publisher_drain ops tf timeout deadline w =
    (if hw_active (lnk w) = 0 then Some (True, w)
     else if timeout \<noteq> 0 \<and> time_before deadline (jiffies_ms w) then Some (False, w)
     else case sched w of
            [] \<Rightarrow> if timeout \<noteq> 0 then Some (False, w) else None
          | _ \<Rightarrow> publisher_drain ops tf timeout deadline (interfere ops tf w))"
  by pat_completeness auto

termination
  by (relation "measure (\<lambda>(ops, tf, timeout, deadline, w). length (sched w))") (simp_all add: interfere_sched)

declare publisher_drain.simps [simp del]

text \<open>The backlog goes back to the pool, data before control.\<close>

definition down_flush :: "'h tbframe_hw_ops \<Rightarrow> tbframe \<Rightarrow> 'h world \<Rightarrow> 'h world" where
  "down_flush ops tf w =
    (let txq_flush = txq_data (lnk w) @ txq_ctrl (lnk w);
         w = upd (\<lambda>l. l\<lparr>txq_ctrl := [], txq_data := []\<rparr>) w
     in interfere ops tf (fold (\<lambda>q. tbframe_core_tx_complete ops tf q True) txq_flush w))"

definition down_quiesce :: "'h tbframe_hw_ops \<Rightarrow> tbframe \<Rightarrow> bool \<Rightarrow> 'h world \<Rightarrow> 'h world" where
  "down_quiesce ops tf rings_running w =
    (let w = (case op_quiesce_tx ops of
                None \<Rightarrow> w
              | Some f \<Rightarrow> if rings_running then hw_run ops tf f OQuiesceTx w else w)
     in upd (\<lambda>l. l\<lparr>tx_quiesced := True\<rparr>) w)"

definition down_bye_due :: "tbframe \<Rightarrow> tbframe_down_reason \<Rightarrow> tbframe_link \<Rightarrow> bool" where
  "down_bye_due tf reason l =
    ((lstate l = TBFRAME_STATE_UP \<or> rings_up l \<and> paths_enabled l) \<and> \<not> shutdown_mode tf \<and>
     (reason = TBFRAME_DOWN_CLOSED \<or> reason = TBFRAME_DOWN_VERIFY))"

definition down_disconnect ::
  "'h tbframe_hw_ops \<Rightarrow> tbframe \<Rightarrow> tbframe_link \<Rightarrow> 'h world \<Rightarrow> rc \<times> 'h world" where
  "down_disconnect ops tf l0 w =
    (let (ret, w) =
           (if paths_owned l0
            then hw_wait ops tf (op_disable_paths ops (local_hopid (lnk w)) (active_remote_hopid l0))
                   (ODisablePaths (local_hopid (lnk w)) (active_remote_hopid l0)) w
            else (Inr (), w));
         w = (if rings_up l0 then hw_run ops tf (op_stop_rings ops) OStopRings w else w)
     in (ret, w))"

definition down_terminal :: "tbframe_down_reason \<Rightarrow> bool" where
  "down_terminal reason =
    (reason = TBFRAME_DOWN_CLOSED \<or> reason = TBFRAME_DOWN_UNPLUG \<or> reason = TBFRAME_DOWN_DEAD_HW)"

text \<open>The outcome of the disconnect: the reason and whether the teardown is terminal, and the
  result the caller sees.\<close>

definition down_settle ::
  "'h tbframe_hw_ops \<Rightarrow> tbframe \<Rightarrow> tbframe_link \<Rightarrow> rc \<Rightarrow> tbframe_down_reason \<Rightarrow> 'h world
   \<Rightarrow> (rc \<times> tbframe_down_reason \<times> bool) \<times> 'h world" where
  "down_settle ops tf l0 ret reason w =
    (case ret of
       Inl e \<Rightarrow>
         (let w = upd (\<lambda>l. l\<lparr>lstate := TBFRAME_STATE_DEAD\<rparr>) w;
              (transferred, w) = tbframe_link_quarantine_paths ops tf (active_remote_hopid l0) w
          in ((if transferred then Inr () else Inl e, TBFRAME_DOWN_DEAD_HW, True), w))
     | Inr _ \<Rightarrow>
         ((Inr (), reason, down_terminal reason),
          upd (\<lambda>l. l\<lparr>paths_enabled := False, paths_owned := False, in_hopid_held := False\<rparr>) w))"

definition down_release ::
  "'h tbframe_hw_ops \<Rightarrow> tbframe \<Rightarrow> tbframe_link \<Rightarrow> rc \<Rightarrow> bool \<Rightarrow> 'h world \<Rightarrow> 'h world" where
  "down_release ops tf l0 ret terminal w =
    (let w = (if ret = Inr () \<and> rings_allocated l0 \<and> terminal \<and> \<not> terminal_handoff (lnk w)
              then hw_run ops tf (op_free_rings ops) OFreeRings w else w);
         w = (if ret = Inr () \<and> in_hopid_held l0 \<and> \<not> terminal_handoff (lnk w)
              then hw_run ops tf (op_release_in_hopid ops (active_remote_hopid l0))
                     (OReleaseInHopid (active_remote_hopid l0)) w else w)
     in if ret = Inr () \<and> terminal then upd (\<lambda>l. l\<lparr>rings_allocated := False\<rparr>) w else w)"

text \<open>Consecutive proof failures back off exponentially to a cap.\<close>

definition retry_delay :: "u32 \<Rightarrow> u32" where
  "retry_delay fails =
    (if fails \<noteq> 0
     then min TBFRAME_PROBE_BACKOFF_MAX_MS (push_bit (unat (min fails 8)) TBFRAME_RETRY_DELAY_MS)
     else TBFRAME_RETRY_DELAY_MS)"

definition down_rekick :: "tbframe_down_reason \<Rightarrow> 'h world \<Rightarrow> 'h world" where
  "down_rekick reason w =
    (if reason = TBFRAME_DOWN_LOGOUT then tbframe_link_kick TBFRAME_BYE_SETTLE_MS w
     else if reason \<noteq> TBFRAME_DOWN_CLOSED \<and> reason \<noteq> TBFRAME_DOWN_DEAD_HW \<and> reason \<noteq> TBFRAME_DOWN_UNPLUG
     then tbframe_link_kick (retry_delay (probe_failures (lnk w))) w
     else w)"

text \<open>Everything after the publishers are drained; \<open>l0\<close> is the link as the first critical section
  found it.\<close>

definition down_rest ::
  "'h tbframe_hw_ops \<Rightarrow> tbframe \<Rightarrow> tbframe_link \<Rightarrow> tbframe_down_reason \<Rightarrow> bool \<Rightarrow> 'h world \<Rightarrow> rc \<times> 'h world"
where
  "down_rest ops tf l0 reason drained w =
    (let (reason, w) = (if drained then (reason, w)
                        else (TBFRAME_DOWN_DEAD_HW, upd (\<lambda>l. l\<lparr>lstate := TBFRAME_STATE_DEAD\<rparr>) w));
         w = down_quiesce ops tf (rings_up l0) (down_flush ops tf w);
         w = (if down_bye_due tf reason l0 then tbframe_link_bye ops tf w else w);
         (ret, w) = down_disconnect ops tf l0 w;
         ((ret, reason, terminal), w) = down_settle ops tf l0 ret reason w;
         w = down_release ops tf l0 ret terminal w;
         w = tbframe_link_notify_down ops tf reason (lstate l0 = TBFRAME_STATE_UP) terminal w
     in (ret, down_rekick reason w))"

definition tbframe_link_down_session ::
  "'h tbframe_hw_ops \<Rightarrow> tbframe \<Rightarrow> tbframe_down_reason \<Rightarrow> tbframe_session_owner \<Rightarrow> 'h world
   \<Rightarrow> (rc \<times> 'h world) option" where
  "tbframe_link_down_session ops tf reason owner w =
    (let l0 = lnk w;
         (random, w) = get_random_u64 w;
         next_cookie = tbframe_new_session_cookie random (local_cookie l0);
         w = interfere ops tf (upd (\<lambda>l. (down_close owner next_cookie l)\<lparr>verify_timer := None\<rparr>) w);
         deadline = jiffies_ms w + ucast (drain_budget tf)
     in case publisher_drain ops tf (drain_budget tf) deadline w of
          None \<Rightarrow> None
        | Some (drained, w) \<Rightarrow> Some (down_rest ops tf l0 reason drained w))"

section \<open>The session step\<close>

definition session_owner :: "tbframe_down_reason \<Rightarrow> tbframe_session_owner" where
  "session_owner reason =
    (if reason = TBFRAME_DOWN_SUPERSEDE \<or> reason = TBFRAME_DOWN_LOGOUT
     then TBFRAME_SESSION_PEER else TBFRAME_SESSION_LOCAL)"

definition hello_failed :: "'h tbframe_hw_ops \<Rightarrow> 'h world \<Rightarrow> 'h world" where
  "hello_failed ops w =
    (let attempts = hello_attempts (lnk w) + 1;
         w = upd (\<lambda>l. l\<lparr>hello_attempts := (if attempts \<ge> TBFRAME_HELLO_RETRIES then 0 else attempts)\<rparr>) w;
         w = (if attempts \<ge> TBFRAME_HELLO_RETRIES then tbframe_link_reannounce ops w else w)
     in tbframe_link_kick TBFRAME_RETRY_DELAY_MS w)"

definition ready_failed :: "'h tbframe_hw_ops \<Rightarrow> 'h world \<Rightarrow> 'h world" where
  "ready_failed ops w =
    (let n = attempts (hs (lnk w)) + 1;
         w = upd (\<lambda>l. l\<lparr>hs := (if n \<ge> TBFRAME_READY_RETRIES then tb_xdomain_handshake_reset (hs l)
                               else (hs l)\<lparr>attempts := n\<rparr>)\<rparr>) w;
         w = (if n \<ge> TBFRAME_READY_RETRIES then tbframe_link_reannounce ops w else w)
     in tbframe_link_kick TBFRAME_RETRY_DELAY_MS w)"

text \<open>From a confirmed READY on.\<close>

definition step_prove :: "'h tbframe_hw_ops \<Rightarrow> tbframe \<Rightarrow> 'h world \<Rightarrow> 'h world" where
  "step_prove ops tf w =
    (case tbframe_link_prove_data_path ops tf w of
       (False, w) \<Rightarrow> w
     | (True, w) \<Rightarrow> tbframe_link_maybe_up ops tf w)"

definition step_ready :: "'h tbframe_hw_ops \<Rightarrow> tbframe \<Rightarrow> bool \<Rightarrow> 'h world \<Rightarrow> 'h world" where
  "step_ready ops tf ready_sent w =
    (case tbframe_link_flush_ready_response (interfere ops tf) ops tf w of
       (Inl _, w) \<Rightarrow> tbframe_link_kick TBFRAME_RETRY_DELAY_MS w
     | (Inr _, w) \<Rightarrow>
         if ready_sent \<or> request_sent (hs (lnk w)) then step_prove ops tf w
         else case tbframe_link_ready_once ops tf w of
                (Inl _, w) \<Rightarrow> ready_failed ops w
              | (Inr _, w) \<Rightarrow> step_prove ops tf w)"

definition step_rings :: "'h tbframe_hw_ops \<Rightarrow> tbframe \<Rightarrow> bool \<Rightarrow> 'h world \<Rightarrow> 'h world" where
  "step_rings ops tf ready_sent w =
    (if rings_up (lnk w) then step_ready ops tf ready_sent w
     else case tbframe_link_bring_up ops tf w of
            (Inl _, w) \<Rightarrow> tbframe_link_kick TBFRAME_RETRY_DELAY_MS w
          | (Inr _, w) \<Rightarrow> step_ready ops tf ready_sent w)"

definition step_hello :: "'h tbframe_hw_ops \<Rightarrow> tbframe \<Rightarrow> 'h world \<Rightarrow> 'h world" where
  "step_hello ops tf w =
    (let ready_sent = request_sent (hs (lnk w))
     in if hello_done (lnk w) then step_rings ops tf ready_sent w
        else case tbframe_link_hello_once ops tf w of
               (Inl _, w) \<Rightarrow> hello_failed ops w
             | (Inr _, w) \<Rightarrow> step_rings ops tf ready_sent w)"

definition tbframe_link_session_step ::
  "'h tbframe_hw_ops \<Rightarrow> tbframe \<Rightarrow> 'h world \<Rightarrow> 'h world option" where
  "tbframe_link_session_step ops tf w =
    (if removing (lnk w) \<or> parked (lnk w) \<or> lstate (lnk w) = TBFRAME_STATE_DEAD then Some w
     else if needs_down (lnk w) then
       map_option snd (tbframe_link_down_session ops tf (down_reason (lnk w))
                         (session_owner (down_reason (lnk w))) w)
     else Some (step_hello ops tf w))"

definition tbframe_session_workfn ::
  "'h tbframe_hw_ops \<Rightarrow> tbframe \<Rightarrow> 'h world \<Rightarrow> 'h world option" where
  "tbframe_session_workfn ops tf w =
    tbframe_link_session_step ops tf (upd (\<lambda>l. l\<lparr>session_work := None\<rparr>) w)"

end
