(* ===== verification/Tbframe_Resource.thy ===== *)
theory Tbframe_Resource
  imports Tbframe_Session
begin

text \<open>
  The contract of the hardware resources of a link, as an automaton over the calls the driver makes,
  and the refinement that every run of the session machine implements it, for every hardware
  behaviour and every interleaving.

  The automaton allows a call only when the hardware may accept it: rings are started only once
  allocated with the ingress HopID registered, descriptors and frames go only to running rings,
  paths are enabled only over running rings, rings are stopped only after the paths are gone or
  their removal failed, and rings and HopIDs are given back only once no path names them.
\<close>

section \<open>The automaton\<close>

record rstate =
  r_alloc :: bool
  r_run :: bool
  r_hop :: "u16 option"
  r_path :: "(nat \<times> u16) option"
  r_stuck :: bool

definition rs_init :: rstate where
  "rs_init = \<lparr>r_alloc = False, r_run = False, r_hop = None, r_path = None, r_stuck = False\<rparr>"

definition guard :: "bool \<Rightarrow> rstate \<Rightarrow> rstate option" where
  "guard b s = (if b then Some s else None)"

fun rs_step :: "rstate \<Rightarrow> obs \<Rightarrow> rstate option" where
  "rs_step s (OAllocRings r) = guard (\<not> r_run s) (case r of Inl _ \<Rightarrow> s | Inr _ \<Rightarrow> s\<lparr>r_alloc := True\<rparr>)"
| "rs_step s (OAllocInHopid h r) = guard (r_alloc s \<and> \<not> r_run s \<and> r_hop s = None)
    (case r of Inl _ \<Rightarrow> s | Inr _ \<Rightarrow> s\<lparr>r_hop := Some h\<rparr>)"
| "rs_step s OStartRings = guard (r_alloc s \<and> \<not> r_run s \<and> r_hop s \<noteq> None \<and> r_path s = None) (s\<lparr>r_run := True\<rparr>)"
| "rs_step s (OPostRx _ _) = guard (r_run s) s"
| "rs_step s (ORingTx _ _) = guard (r_run s \<and> r_path s \<noteq> None) s"
| "rs_step s (OEnablePaths lh h r) = guard (r_run s \<and> r_hop s = Some h \<and> r_path s = None)
    (case r of
       Inr _ \<Rightarrow> s\<lparr>r_path := Some (lh, h)\<rparr>
     | Inl e \<Rightarrow> if e = EUCLEAN then s\<lparr>r_path := Some (lh, h)\<rparr> else s)"
| "rs_step s (ODisablePaths lh h r) = guard (r_path s = Some (lh, h) \<and> (r_run s \<or> r_stuck s))
    (case r of Inr _ \<Rightarrow> s\<lparr>r_path := None, r_stuck := False\<rparr> | Inl _ \<Rightarrow> s\<lparr>r_stuck := True\<rparr>)"
| "rs_step s OQuiesceTx = guard (r_run s \<and> r_path s \<noteq> None) s"
| "rs_step s OStopRings = guard (r_run s \<and> (r_path s = None \<or> r_stuck s)) (s\<lparr>r_run := False\<rparr>)"
| "rs_step s OFreeRings = guard (r_alloc s \<and> \<not> r_run s \<and> r_path s = None) (s\<lparr>r_alloc := False\<rparr>)"
| "rs_step s (OReleaseInHopid h) = guard (r_hop s = Some h \<and> \<not> r_run s \<and> r_path s = None) (s\<lparr>r_hop := None\<rparr>)"
| "rs_step s (OQuarantinePaths lh h r) = guard (r_path s = Some (lh, h) \<and> r_stuck s \<and> \<not> r_run s)
    (case r of Inr _ \<Rightarrow> rs_init | Inl _ \<Rightarrow> s)"
| "rs_step s _ = Some s"

definition rs_ring :: "rstate \<Rightarrow> bool" where
  "rs_ring s = (r_run s \<and> r_path s \<noteq> None)"

interpretation res: trace_spec rs_step rs_ring rs_init
proof unfold_locales
  show "env_obs r x \<Longrightarrow> r \<longrightarrow> rs_ring s \<Longrightarrow> rs_step s x = Some s" for r x s
    by (cases x) (auto simp: rs_ring_def guard_def)
qed simp_all

section \<open>The abstraction\<close>

definition rs_of :: "tbframe_link \<Rightarrow> rstate" where
  "rs_of l =
    \<lparr>r_alloc = rings_allocated l, r_run = rings_up l,
     r_hop = (if in_hopid_held l then Some (active_remote_hopid l) else None),
     r_path = (if paths_owned l then Some (local_hopid l, active_remote_hopid l) else None),
     r_stuck = (paths_owned l \<and> \<not> rings_up l)\<rparr>"

text \<open>What holds of the resource fields whenever the session lock is free.\<close>

definition res_inv :: "tbframe_link \<Rightarrow> bool" where
  "res_inv l =
    (in_hopid_held l = paths_owned l \<and>
     (rings_up l \<longrightarrow> paths_owned l \<and> paths_enabled l) \<and>
     (paths_enabled l \<longrightarrow> paths_owned l) \<and>
     (paths_owned l \<longrightarrow> rings_allocated l) \<and>
     (paths_owned l \<and> \<not> rings_up l \<longrightarrow> lstate l = TBFRAME_STATE_DEAD) \<and>
     (terminal_handoff l \<longrightarrow> lstate l = TBFRAME_STATE_DEAD \<and> \<not> rings_allocated l) \<and>
     (lstate l = TBFRAME_STATE_UP \<longrightarrow> rings_up l))"

definition res_ok :: "tbframe \<Rightarrow> nat \<Rightarrow> 'h world \<Rightarrow> bool" where
  "res_ok tf k w =
    (link_inv tf k (lnk w) \<and> res_inv (lnk w) \<and> spec_run rs_step rs_init (trace w) = Some (rs_of (lnk w)))"

abbreviation at :: "tbframe \<Rightarrow> nat \<Rightarrow> rstate \<Rightarrow> tbframe_link \<Rightarrow> 'h world \<Rightarrow> bool" where
  "at \<equiv> settled rs_step rs_ring rs_init"

lemma res_ok_at: "res_ok tf k w = (res_inv (lnk w) \<and> at tf k (rs_of (lnk w)) (lnk w) w)"
  by (auto simp: res_ok_def settled_def rs_ring_def rs_of_def res_inv_def)

lemma rs_of_cong: "res_view l' = res_view l \<Longrightarrow> rs_of l' = rs_of l"
  using res_viewD [of l' l] by (simp add: rs_of_def)

lemma res_inv_cong: "res_view l' = res_view l \<Longrightarrow> res_inv l' = res_inv l"
  using res_viewD [of l' l] by (simp add: res_inv_def)

lemma atI_ok: "at tf k (rs_of v) v w \<Longrightarrow> res_inv v \<Longrightarrow> res_ok tf k w"
  using rs_of_cong [of "lnk w" v] res_inv_cong [of "lnk w" v] by (simp add: res_ok_def settled_def)

text \<open>A link update that changes resources the same way wherever it is applied.\<close>

definition hard :: "(tbframe_link \<Rightarrow> tbframe_link) \<Rightarrow> bool" where
  "hard f = (\<forall>tf k l l'. link_inv tf k (f l) = link_inv tf k l \<and>
     (res_view l = res_view l' \<longrightarrow> res_view (f l) = res_view (f l')))"

lemma at_hard:
  assumes "at tf k s v w" "hard f" "rings_up (f v) \<longrightarrow> rs_ring s"
  shows "at tf k s (f v) (upd f w)"
proof -
  have "link_inv tf k (f (lnk w)) = link_inv tf k (lnk w)" "res_view (f (lnk w)) = res_view (f v)"
    using assms(1,2) unfolding hard_def settled_def by blast+
  then show ?thesis using assms(1,3) by (simp add: settled_def)
qed

lemma hard_fields:
  "hard (\<lambda>l. l\<lparr>lstate := a\<rparr>)" "hard (\<lambda>l. l\<lparr>rings_allocated := b\<rparr>)" "hard (\<lambda>l. l\<lparr>paths_owned := b\<rparr>)"
  "hard (\<lambda>l. l\<lparr>active_remote_hopid := h, in_hopid_held := b\<rparr>)"
  "hard (\<lambda>l. l\<lparr>rings_allocated := b, in_hopid_held := c\<rparr>)"
  "hard (\<lambda>l. l\<lparr>paths_enabled := b, paths_owned := c, in_hopid_held := d\<rparr>)"
  "hard quarantine_commit" "hard (bring_up_commit tf m)"
  by (simp_all add: hard_def quarantine_commit_def bring_up_commit_def Let_def) (simp_all add: res_view_def)

section \<open>Bring-up\<close>

lemma post_take_inv:
  assumes "link_inv tf k l" "rx_free l = i # rest"
  shows "link_inv tf k (post_take i rest l)" "rx_out (post_take i rest l) i"
    "rx_refs (rx_frames (post_take i rest l) i) = 0"
proof -
  let ?l = "l\<lparr>rx_free := rest, refcnt := refcnt l + 1\<rparr>"
  have rx: "rx_inv l" and pool: "adm_inv tf l" "ref_inv k l"
    using assms(1) by (simp_all add: link_inv_def pool_inv_def)
  have r: "distinct (i # rest)" "set (i # rest) \<subseteq> {..<rx_n l}" "rx_refs (rx_frames l i) = 0"
    using rx assms(2) by (auto simp: rx_inv_def list_all_iff)
  have "card (set (i # rest)) \<le> card {..<rx_n l}" by (rule card_mono [OF _ r(2)]) simp
  then have len: "Suc (length rest) \<le> rx_n l" using r(1) by (simp add: distinct_card)
  have "ref_inv k ?l" using pool(2) assms(2) len by (simp add: ref_inv_def)
  moreover have "adm_inv tf ?l" using pool(1) by simp
  moreover have "rx_inv ?l" using rx assms(2) by (simp add: rx_inv_def)
  ultimately have "link_inv tf k ?l" by (simp add: link_inv_def pool_inv_def)
  moreover have o: "rx_out ?l i" using r(1,2) by (simp add: rx_out_def)
  ultimately show "link_inv tf k (post_take i rest l)" by (simp add: post_take_def link_inv_rxf)
  show "rx_out (post_take i rest l) i" using o by (simp add: post_take_def)
  show "rx_refs (rx_frames (post_take i rest l) i) = 0" using r(3) by (simp add: post_take_def)
qed

lemma post_take_res [simp]: "res_view (post_take i rest l) = res_view l"
  by (simp add: post_take_def rxf_def)

lemma putback_res [simp]: "res_view (tbframe_frame_putback_rx i l) = res_view l"
  by (rule res_view_session) simp

lemma at_post:
  assumes "r_run s" "\<not> rings_up v"
  shows "at tf k s v w \<Longrightarrow> at tf k s v (snd (bring_up_post ops tf w))"
proof (induction ops tf w rule: bring_up_post.induct)
  case (1 ops tf w)
  show ?case
  proof (cases "rx_free (lnk w)")
    case Nil
    then show ?thesis using "1.prems" by (simp add: bring_up_post.simps)
  next
    case (Cons i rest)
    obtain r w' where c: "hw_call (op_post_rx ops i) (OPostRx i) (upd (post_take i rest) w) = (r, w')" by fastforce
    note sel = hw_call_sel(1,2) [OF c]
    have inv: "link_inv tf k (lnk w)" using "1.prems" by (simp add: settled_def)
    have a: "at tf k s v w'"
      using "1.prems" assms post_take_inv(1) [OF inv Cons] sel by (simp add: settled_def guard_def)
    show ?thesis
    proof (cases r)
      case (Inl e)
      have "at tf k s v (upd (tbframe_frame_putback_rx i) w')"
        using a putback_inv [OF post_take_inv [OF inv Cons]] sel by (simp add: settled_def)
      then show ?thesis using Cons c Inl by (simp add: bring_up_post.simps)
    next
      case (Inr u)
      show ?thesis
        using "1.IH" [OF Cons c [symmetric] Inr res.settled_interfere [OF a]] Cons c Inr
        by (simp add: bring_up_post.simps)
    qed
  qed
qed

lemma hw_wait_cases:
  obtains r w' where "hw_wait ops tf f ob w = (r, w')"
  by fastforce

text \<open>The rings are stopped and no path is left: everything allocated is given back.\<close>

lemma at_free:
  assumes "at tf k s v w" "r_alloc s" "\<not> r_run s" "r_path s = None" "\<not> r_stuck s"
    "\<not> rings_up v" "\<not> paths_owned v" "in_hopid_held v \<longrightarrow> r_hop s = Some hopid" "\<not> in_hopid_held v \<longrightarrow> r_hop s = None"
  shows "at tf k rs_init (v\<lparr>rings_allocated := False, in_hopid_held := False\<rparr>) (bring_up_free ops tf hopid w)"
proof -
  let ?w1 = "hw_run ops tf (op_free_rings ops) OFreeRings w"
  let ?f = "\<lambda>l. l\<lparr>rings_allocated := False, in_hopid_held := False\<rparr> :: tbframe_link"
  have 1: "at tf k (s\<lparr>r_alloc := False\<rparr>) v ?w1"
    using assms by (intro res.settled_run [OF assms(1)]) (simp_all add: guard_def)
  then have 2: "at tf k (s\<lparr>r_alloc := False\<rparr>) (?f v) (upd ?f ?w1)"
    using assms(6) by (intro at_hard hard_fields) simp_all
  have h: "in_hopid_held (lnk ?w1) = in_hopid_held v" using 1 res_viewD(7) [of "lnk ?w1" v] by (simp add: settled_def)
  show ?thesis
  proof (cases "in_hopid_held v")
    case True
    have "at tf k rs_init (?f v) (hw_run ops tf (op_release_in_hopid ops hopid) (OReleaseInHopid hopid) (upd ?f ?w1))"
      using assms True by (intro res.settled_run [OF 2]) (simp_all add: guard_def rs_init_def)
    then show ?thesis using True h by (simp add: bring_up_free_def Let_def)
  next
    case False
    then have "s\<lparr>r_alloc := False\<rparr> = rs_init" using assms by (simp add: rs_init_def)
    then show ?thesis using 2 False h by (simp add: bring_up_free_def Let_def)
  qed
qed

lemma at_stop:
  assumes "at tf k s v w" "r_alloc s" "r_run s" "r_path s = None" "\<not> r_stuck s"
    "\<not> rings_up v" "\<not> paths_owned v" "in_hopid_held v \<longrightarrow> r_hop s = Some hopid" "\<not> in_hopid_held v \<longrightarrow> r_hop s = None"
  shows "at tf k rs_init (v\<lparr>rings_allocated := False, in_hopid_held := False\<rparr>) (bring_up_stop ops tf hopid w)"
proof -
  have 1: "at tf k (s\<lparr>r_run := False\<rparr>) v (hw_run ops tf (op_stop_rings ops) OStopRings w)"
    using assms by (intro res.settled_run [OF assms(1)]) (simp_all add: guard_def)
  show ?thesis unfolding bring_up_stop_def by (rule at_free [OF 1]) (use assms in simp_all)
qed

lemma at_notify:
  assumes "at tf k s v w"
  shows "at tf k s v (tbframe_link_notify_down ops tf reason was_up terminal w)"
proof -
  define w1 where "w1 = (if terminal then upd (\<lambda>l. l\<lparr>up_delivered := False\<rparr>) w else w)"
  have 1: "at tf k s v w1" using assms by (simp add: w1_def res.settled_upd soft_def)
  have "at tf k s v (interfere ops tf (obs (OLinkDown reason) w1))"
    by (intro res.settled_interfere res.settled_obs [OF 1]) (use 1 in \<open>simp_all add: settled_def\<close>)
  then show ?thesis using 1 by (simp add: tbframe_link_notify_down_def Let_def flip: w1_def split: option.split)
qed

text \<open>The route could not be removed and its rings are stopped: the core takes everything, or
  nothing changes.\<close>

lemma at_quarantine:
  assumes "at tf k s v w" "r_path s = Some (local_hopid v, hopid)" "r_stuck s" "\<not> r_run s" "\<not> rings_up v"
    and "tbframe_link_quarantine_paths ops tf hopid w = (b, w')"
  shows "at tf k (if b then rs_init else s) (if b then quarantine_commit v else v) w'"
proof (cases "op_quarantine_paths ops")
  case None
  then show ?thesis using assms by (auto simp: tbframe_link_quarantine_paths_def)
next
  case (Some f)
  have h: "local_hopid (lnk w) = local_hopid v" using assms(1) res_viewD(9) [of "lnk w" v] by (simp add: settled_def)
  obtain r w1 where c: "hw_wait ops tf (f (local_hopid (lnk w)) hopid) (OQuarantinePaths (local_hopid (lnk w)) hopid) w = (r, w1)"
    by (rule hw_wait_cases)
  have 1: "at tf k (case r of Inl _ \<Rightarrow> s | Inr _ \<Rightarrow> rs_init) v w1"
    by (rule res.settled_wait [OF assms(1) c]) (use assms h in \<open>simp_all add: guard_def split: sum.split\<close>)
  then have "r = Inr u \<Longrightarrow> at tf k rs_init (quarantine_commit v) (upd quarantine_commit w1)" for u
    by (intro at_hard hard_fields) (simp_all add: quarantine_commit_def)
  then show ?thesis
    using assms(6) Some c 1 by (cases r) (auto simp: tbframe_link_quarantine_paths_def)
qed

text \<open>Before the paths are enabled: rings running, ingress HopID registered.\<close>

definition pre_path :: "rstate \<Rightarrow> tbframe_link \<Rightarrow> u16 \<Rightarrow> bool" where
  "pre_path s v hopid =
    (s = \<lparr>r_alloc = True, r_run = True, r_hop = Some hopid, r_path = None, r_stuck = False\<rparr> \<and>
     rings_allocated v \<and> \<not> rings_up v \<and> \<not> paths_enabled v \<and> \<not> paths_owned v \<and> \<not> terminal_handoff v \<and>
     in_hopid_held v \<and> active_remote_hopid v = hopid \<and> lstate v = TBFRAME_STATE_INIT)"

lemma res_ok_released:
  assumes "at tf k rs_init v w" "\<not> rings_allocated v" "\<not> rings_up v" "\<not> paths_enabled v" "\<not> paths_owned v"
    "\<not> in_hopid_held v" "terminal_handoff v \<longrightarrow> lstate v = TBFRAME_STATE_DEAD" "lstate v \<noteq> TBFRAME_STATE_UP"
  shows "res_ok tf k w" "\<not> rings_up (lnk w)"
proof -
  have "rs_of v = rs_init" using assms by (simp add: rs_of_def rs_init_def)
  then show "res_ok tf k w" using assms by (intro atI_ok [of tf k v w]) (simp_all add: res_inv_def)
  show "\<not> rings_up (lnk w)" using assms(1,3) res_viewD(3) [of "lnk w" v] by (simp add: settled_def)
qed

lemma rollback_ok:
  assumes "at tf k s v w" "s = \<lparr>r_alloc = True, r_run = True, r_hop = Some hopid, r_path = Some (local_hopid v, hopid), r_stuck = False\<rparr>"
    "pre_path (s\<lparr>r_path := None\<rparr>) v hopid" "bring_up_rollback ops tf hopid w = (r, w')"
  shows "res_ok tf k w' \<and> \<not> rings_up (lnk w') \<and> (\<exists>e. r = Inl e)"
proof -
  let ?v = "v\<lparr>paths_owned := True\<rparr>"
  let ?w1 = "upd (\<lambda>l. l\<lparr>paths_owned := True\<rparr>) w"
  have v: "rings_allocated v" "\<not> rings_up v" "\<not> paths_enabled v" "\<not> terminal_handoff v"
     "in_hopid_held v" "active_remote_hopid v = hopid" "lstate v = TBFRAME_STATE_INIT"
    using assms(3) by (simp_all add: pre_path_def)
  have 1: "at tf k s ?v ?w1" using v by (intro at_hard [OF assms(1)] hard_fields) simp
  have h: "local_hopid (lnk ?w1) = local_hopid v" using assms(1) res_viewD(9) [of "lnk w" v] by (simp add: settled_def)
  obtain d w2 where c: "hw_wait ops tf (op_disable_paths ops (local_hopid (lnk ?w1)) hopid)
      (ODisablePaths (local_hopid (lnk ?w1)) hopid) ?w1 = (d, w2)" by (rule hw_wait_cases)
  let ?s2 = "case d of Inr _ \<Rightarrow> s\<lparr>r_path := None, r_stuck := False\<rparr> | Inl _ \<Rightarrow> s\<lparr>r_stuck := True\<rparr>"
  have 2: "at tf k ?s2 ?v w2"
    by (rule res.settled_wait [OF 1 c]) (use assms(2) h v in \<open>simp_all add: guard_def split: sum.split\<close>)
  let ?w3 = "hw_run ops tf (op_stop_rings ops) OStopRings w2"
  have 3: "at tf k (?s2\<lparr>r_run := False\<rparr>) ?v ?w3"
    by (rule res.settled_run [OF 2]) (use assms(2) v in \<open>simp_all add: guard_def split: sum.split\<close>)
  show ?thesis
  proof (cases d)
    case (Inr u)
    let ?w4 = "upd (\<lambda>l. l\<lparr>paths_owned := False\<rparr>) ?w3"
    have 4: "at tf k (?s2\<lparr>r_run := False\<rparr>) (?v\<lparr>paths_owned := False\<rparr>) ?w4"
      using v by (intro at_hard [OF 3] hard_fields) simp
    have 5: "at tf k rs_init (?v\<lparr>paths_owned := False, rings_allocated := False, in_hopid_held := False\<rparr>)
        (bring_up_free ops tf hopid ?w4)"
      using at_free [OF 4, of hopid ops] assms(2) v Inr by simp
    show ?thesis
      using assms(4) Inr c res_ok_released [OF 5] v by (auto simp: bring_up_rollback_def Let_def)
  next
    case (Inl e)
    obtain b w4 where q: "tbframe_link_quarantine_paths ops tf hopid ?w3 = (b, w4)" by fastforce
    let ?v5 = "if b then quarantine_commit ?v else ?v\<lparr>lstate := TBFRAME_STATE_DEAD\<rparr>"
    let ?w5 = "if b then w4 else upd (\<lambda>l. l\<lparr>lstate := TBFRAME_STATE_DEAD\<rparr>) w4"
    have 4: "at tf k (if b then rs_init else s\<lparr>r_stuck := True, r_run := False\<rparr>) (if b then quarantine_commit ?v else ?v) w4"
      using at_quarantine [OF 3 _ _ _ _ q] assms(2) v Inl by (cases b) simp_all
    have 5: "at tf k (rs_of ?v5) ?v5 ?w5"
    proof (cases b)
      case True
      then show ?thesis using 4 by (simp add: rs_of_def rs_init_def quarantine_commit_def)
    next
      case False
      have "rs_of ?v5 = s\<lparr>r_stuck := True, r_run := False\<rparr>" using False assms(2) v by (simp add: rs_of_def)
      moreover have "at tf k (s\<lparr>r_stuck := True, r_run := False\<rparr>) (?v\<lparr>lstate := TBFRAME_STATE_DEAD\<rparr>)
          (upd (\<lambda>l. l\<lparr>lstate := TBFRAME_STATE_DEAD\<rparr>) w4)"
        using 4 False v by (intro at_hard hard_fields) simp_all
      ultimately show ?thesis using False by simp
    qed
    have inv: "res_inv ?v5" "\<not> rings_up ?v5" using v by (auto simp: res_inv_def quarantine_commit_def)
    have 6: "at tf k (rs_of ?v5) ?v5 w'" "r = Inl e"
      using assms(4) Inl c q at_notify [OF 5, of ops TBFRAME_DOWN_DEAD_HW False True]
      by (auto simp: bring_up_rollback_def Let_def)
    then show ?thesis using atI_ok [OF 6(1) inv(1)] inv(2) res_viewD(3) [of "lnk w'" ?v5] by (auto simp: settled_def)
  qed
qed

lemma enable_ok:
  assumes "at tf k s v w" "pre_path s v hopid" "bring_up_enable ops tf hopid m w = (r, w')"
  shows "res_ok tf k w' \<and> (r = Inr () \<longrightarrow> rings_up (lnk w') \<and> lstate (lnk w') = TBFRAME_STATE_INIT)
    \<and> (r \<noteq> Inr () \<longrightarrow> \<not> rings_up (lnk w'))"
proof -
  note s = assms(2) [unfolded pre_path_def]
  have h: "local_hopid (lnk w) = local_hopid v" using assms(1) res_viewD(9) [of "lnk w" v] by (simp add: settled_def)
  obtain d w1 where c: "hw_wait ops tf (op_enable_paths ops (local_hopid (lnk w)) hopid)
      (OEnablePaths (local_hopid (lnk w)) hopid) w = (d, w1)" by (rule hw_wait_cases)
  let ?p = "s\<lparr>r_path := Some (local_hopid v, hopid)\<rparr>"
  let ?s1 = "case d of Inr _ \<Rightarrow> ?p | Inl e \<Rightarrow> if e = EUCLEAN then ?p else s"
  have 1: "at tf k ?s1 v w1"
    by (rule res.settled_wait [OF assms(1) c]) (use s h in \<open>simp_all add: guard_def split: sum.split\<close>)
  show ?thesis
  proof (cases d)
    case (Inr u)
    have 2: "at tf k ?p (bring_up_commit tf m v) (upd (bring_up_commit tf m) w1)"
      using 1 Inr s by (intro at_hard hard_fields) (simp_all add: rs_ring_def)
    moreover have "rs_of (bring_up_commit tf m v) = ?p" using s by (simp add: bring_up_commit_def rs_of_def Let_def)
    moreover have inv: "res_inv (bring_up_commit tf m v)" "rings_up (bring_up_commit tf m v)"
        "lstate (bring_up_commit tf m v) = TBFRAME_STATE_INIT"
      using s by (simp_all add: bring_up_commit_def res_inv_def Let_def)
    ultimately have "res_ok tf k (upd (bring_up_commit tf m) w1)"
      using atI_ok [of tf k "bring_up_commit tf m v" "upd (bring_up_commit tf m) w1"] by simp
    moreover have "rings_up (lnk (upd (bring_up_commit tf m) w1))" "lstate (lnk (upd (bring_up_commit tf m) w1)) = TBFRAME_STATE_INIT"
      using 2 inv(2,3) res_viewD(1,3) [of "lnk (upd (bring_up_commit tf m) w1)" "bring_up_commit tf m v"]
      by (simp_all add: settled_def)
    ultimately show ?thesis using assms(3) c Inr by (auto simp: bring_up_enable_def)
  next
    case (Inl e)
    show ?thesis
    proof (cases "e = EUCLEAN")
      case True
      then have "at tf k ?p v w1" using 1 Inl by simp
      then show ?thesis
        using rollback_ok [of tf k ?p v w1 hopid ops r w'] assms(2,3) c Inl True
        by (auto simp: bring_up_enable_def pre_path_def)
    next
      case False
      then have a: "at tf k s v w1" using 1 Inl by simp
      have 2: "at tf k rs_init (v\<lparr>rings_allocated := False, in_hopid_held := False\<rparr>) (bring_up_stop ops tf hopid w1)"
        by (rule at_stop [OF a]) (use s in simp_all)
      show ?thesis
        using res_ok_released [OF 2] assms(3) c Inl False s
        by (auto simp: bring_up_enable_def)
    qed
  qed
qed

lemma bring_up_ok:
  assumes "res_ok tf k w" "lstate (lnk w) = TBFRAME_STATE_INIT" "\<not> rings_up (lnk w)"
    and "tbframe_link_bring_up ops tf w = (r, w')"
  shows "res_ok tf k w' \<and> (r = Inr () \<longrightarrow> rings_up (lnk w') \<and> lstate (lnk w') = TBFRAME_STATE_INIT)
    \<and> (r \<noteq> Inr () \<longrightarrow> \<not> rings_up (lnk w'))"
proof -
  define v where "v = lnk w"
  define hopid where "hopid = remote_hopid v"
  define m where "m = (e2e tf \<and> remote_caps v AND TBFRAME_WIRE_CAP_E2E \<noteq> 0)"
  have v: "\<not> rings_up v" "\<not> paths_owned v" "\<not> in_hopid_held v" "\<not> paths_enabled v" "\<not> terminal_handoff v"
     "lstate v = TBFRAME_STATE_INIT"
    using assms by (auto simp: res_ok_def res_inv_def v_def)
  define s where "s = rs_of v"
  have s: "s = \<lparr>r_alloc = rings_allocated v, r_run = False, r_hop = None, r_path = None, r_stuck = False\<rparr>"
    using v by (simp add: s_def rs_of_def)
  have "soft bring_up_reset" by (simp add: soft_def bring_up_reset_def)
  then have 0: "at tf k s v (upd bring_up_reset w)"
    using assms(1) by (simp add: res_ok_at res.settled_upd s_def v_def)
  obtain d1 w1 where c1: "hw_wait ops tf (op_alloc_rings ops (ring_entries tf) (ring_entries tf) m) OAllocRings
      (upd bring_up_reset w) = (d1, w1)" by (rule hw_wait_cases)
  let ?s1 = "case d1 of Inl _ \<Rightarrow> s | Inr _ \<Rightarrow> s\<lparr>r_alloc := True\<rparr>"
  have 1: "at tf k ?s1 v w1"
    by (rule res.settled_wait [OF 0 c1]) (use s v in \<open>simp_all add: guard_def split: sum.split\<close>)
  show ?thesis
  proof (cases d1)
    case (Inl e)
    then have "res_ok tf k w1" "\<not> rings_up (lnk w1)"
      using 1 atI_ok [of tf k v w1] assms(1) v(1) res_viewD(3) [of "lnk w1" v]
      by (simp_all add: s_def res_ok_def v_def settled_def)
    then show ?thesis using assms(4) c1 Inl by (auto simp: tbframe_link_bring_up_def Let_def m_def v_def)
  next
    case d1: (Inr u)
    let ?v2 = "v\<lparr>rings_allocated := True\<rparr>"
    let ?w2 = "upd (\<lambda>l. l\<lparr>rings_allocated := True\<rparr>) w1"
    have 2: "at tf k (s\<lparr>r_alloc := True\<rparr>) ?v2 ?w2" using 1 d1 v by (intro at_hard hard_fields) simp_all
    obtain d3 w3 where c3: "hw_wait ops tf (op_alloc_in_hopid ops hopid) (OAllocInHopid hopid) ?w2 = (d3, w3)"
      by (rule hw_wait_cases)
    let ?s3 = "case d3 of Inl _ \<Rightarrow> s\<lparr>r_alloc := True\<rparr> | Inr _ \<Rightarrow> s\<lparr>r_alloc := True, r_hop := Some hopid\<rparr>"
    have 3: "at tf k ?s3 ?v2 w3"
      by (rule res.settled_wait [OF 2 c3]) (use s v in \<open>simp_all add: guard_def split: sum.split\<close>)
    show ?thesis
    proof (cases d3)
      case (Inl e)
      have 4: "at tf k rs_init (?v2\<lparr>rings_allocated := False, in_hopid_held := False\<rparr>) (bring_up_free ops tf hopid w3)"
        by (rule at_free [OF 3]) (use s v Inl in simp_all)
      show ?thesis
        using res_ok_released [OF 4] assms(4) c1 c3 d1 Inl v
        by (auto simp: tbframe_link_bring_up_def Let_def m_def v_def hopid_def)
    next
      case (Inr u')
      let ?v4 = "?v2\<lparr>active_remote_hopid := hopid, in_hopid_held := True\<rparr>"
      let ?s4 = "\<lparr>r_alloc = True, r_run = True, r_hop = Some hopid, r_path = None, r_stuck = False\<rparr>"
      let ?w4 = "hw_run ops tf (op_start_rings ops) OStartRings
        (upd (\<lambda>l. l\<lparr>active_remote_hopid := hopid, in_hopid_held := True\<rparr>) w3)"
      have "at tf k (s\<lparr>r_alloc := True, r_hop := Some hopid\<rparr>) ?v4 (upd (\<lambda>l. l\<lparr>active_remote_hopid := hopid, in_hopid_held := True\<rparr>) w3)"
        using 3 Inr v by (intro at_hard hard_fields) simp_all
      then have 4: "at tf k ?s4 ?v4 ?w4"
        by (rule res.settled_run) (use s v in \<open>simp_all add: guard_def\<close>)
      obtain d5 w5 where c5: "bring_up_post ops tf ?w4 = (d5, w5)" by fastforce
      have 5: "at tf k ?s4 ?v4 w5" using at_post [OF _ _ 4, of ops] v c5 by simp
      have pre: "pre_path ?s4 ?v4 hopid" using v by (simp add: pre_path_def)
      show ?thesis
      proof (cases d5)
        case d5: (Inl e)
        have 6: "at tf k rs_init (?v4\<lparr>rings_allocated := False, in_hopid_held := False\<rparr>) (bring_up_stop ops tf hopid w5)"
          by (rule at_stop [OF 5]) (use v in simp_all)
        show ?thesis
          using res_ok_released [OF 6] assms(4) c1 c3 c5 d1 d5 Inr v
          by (auto simp: tbframe_link_bring_up_def Let_def m_def v_def hopid_def)
      next
        case d5: (Inr u5)
        have "bring_up_enable ops tf hopid m w5 = (r, w')"
          using assms(4) c1 c3 c5 d1 d5 Inr by (simp add: tbframe_link_bring_up_def Let_def m_def v_def hopid_def)
        then show ?thesis using enable_ok [OF 5 pre] by blast
      qed
    qed
  qed
qed

end
