(* ===== verification/Tbframe_Teardown.thy ===== *)
theory Tbframe_Teardown
  imports Tbframe_Resource
begin

text \<open>
  The resource contract of \<open>Tbframe_Resource\<close> for teardown and for the session step as a whole:
  whatever the hardware answers and whatever the other contexts do in between, the calls of a
  teardown follow the automaton and leave a link whose fields describe the resources still held.
\<close>

section \<open>Teardown\<close>

lemma flush_cancel_inv:
  assumes "pool_inv tf k l" "distinct qs" "\<forall>q \<in> set qs. tx_out l q" "txq_ctrl l = []" "txq_data l = []"
  shows "pool_inv tf k (fold (tx_cancel tf) qs l)"
  using assms
proof (induction qs arbitrary: l)
  case (Cons q qs)
  have "\<forall>p \<in> set qs. tx_out (tx_cancel tf q l) p"
    using Cons.prems by (auto simp: tx_out_def tx_listed_def)
  then show ?case using Cons.prems tx_cancel_inv [of tf k l q] by (auto intro!: Cons.IH)
qed simp

lemma fold_complete: "fold (\<lambda>q. tbframe_core_tx_complete ops tf q True) qs w = upd (fold (tx_cancel tf) qs) w"
  by (induction qs arbitrary: w) (simp_all add: tx_complete_canceled upd_def)

lemma session_view_cancels [simp]: "session_view (fold (tx_cancel tf) qs l) = session_view l"
  by (induction qs arbitrary: l) simp_all

lemma rx_view_cancels [simp]: "rx_view (fold (tx_cancel tf) qs l) = rx_view l"
  by (induction qs arbitrary: l) simp_all

lemma at_flush:
  assumes "at tf k s v w"
  shows "at tf k s v (down_flush ops tf w)"
proof -
  let ?f = "\<lambda>l. l\<lparr>txq_ctrl := [], txq_data := []\<rparr> :: tbframe_link"
  let ?l = "fold (tx_cancel tf) (txq_data (lnk w) @ txq_ctrl (lnk w)) (?f (lnk w))"
  have inv: "link_inv tf k (lnk w)" using assms by (simp add: settled_def)
  have "pool_inv tf k ?l"
    using flush_inv [OF rx_out_rx_inv(1) [OF inv]] by (intro flush_cancel_inv) simp_all
  moreover have "rx_view ?l = rx_view (lnk w)" by (simp only: rx_view_cancels) (simp add: rx_view_def)
  ultimately have 1: "link_inv tf k ?l" by (rule tx_op_inv [OF inv])
  have 2: "res_view ?l = res_view (lnk w)" by (rule res_view_session) simp
  have "at tf k s v (upd (fold (tx_cancel tf) (txq_data (lnk w) @ txq_ctrl (lnk w))) (upd ?f w))"
    using assms 1 2 by (simp add: settled_def)
  then show ?thesis by (simp add: down_flush_def Let_def fold_complete res.settled_interfere)
qed

lemma at_drain:
  "at tf k s v w \<Longrightarrow> publisher_drain ops tf t d w = Some (b, w') \<Longrightarrow> at tf k s v w'"
proof (induction ops tf t d w rule: publisher_drain.induct)
  case (1 ops tf t d w)
  show ?case
  proof (cases "hw_active (lnk w) = 0 \<or> t \<noteq> 0 \<and> time_before d (jiffies_ms w) \<or> sched w = []")
    case True
    then show ?thesis using "1.prems" by (subst (asm) publisher_drain.simps) (auto split: if_splits)
  next
    case False
    then obtain e es where es: "sched w = e # es" by (cases "sched w") auto
    have "publisher_drain ops tf t d (interfere ops tf w) = Some (b, w')"
      using "1.prems"(2) False es by (subst (asm) publisher_drain.simps) (auto split: if_splits)
    with False show ?thesis
      by (intro "1.IH" [OF _ _ es res.settled_interfere [OF "1.prems"(1)]]) simp_all
  qed
qed

lemma at_quiesce:
  assumes "at tf k s v w" "b \<longrightarrow> rs_ring s"
  shows "at tf k s v (down_quiesce ops tf b w)"
proof -
  have "at tf k s v (hw_run ops tf f OQuiesceTx w)" if b for f
    using assms that by (intro res.settled_run [OF assms(1)]) (simp_all add: guard_def rs_ring_def)
  then show ?thesis
    using assms(1) by (simp add: down_quiesce_def Let_def res.settled_upd soft_def split: option.split)
qed

lemma hard_close: "hard (down_close owner c)"
  by (simp add: hard_def down_close_def Let_def tbframe_hello_responder_reset_def) (simp add: res_view_def)

text \<open>After the disconnect and the fence: the paths are gone, or they are stuck.\<close>

definition fenced :: "rc \<Rightarrow> rstate \<Rightarrow> rstate" where
  "fenced ret s = (case ret of Inr _ \<Rightarrow> s\<lparr>r_path := None, r_stuck := False, r_run := False\<rparr>
     | Inl _ \<Rightarrow> s\<lparr>r_stuck := True, r_run := False\<rparr>)"

lemma disconnect_ok:
  assumes "at tf k (rs_of l0) v w" "res_inv l0" "\<not> rings_up v" "local_hopid v = local_hopid l0"
    and "down_disconnect ops tf l0 w = (ret, w')"
  shows "at tf k (fenced ret (rs_of l0)) v w' \<and> (ret \<noteq> Inr () \<longrightarrow> paths_owned l0)"
proof -
  have h: "local_hopid (lnk w) = local_hopid l0"
    using assms(1,4) res_viewD(9) [of "lnk w" v] by (simp add: settled_def)
  obtain d w1 where c: "(if paths_owned l0
            then hw_wait ops tf (op_disable_paths ops (local_hopid (lnk w)) (active_remote_hopid l0))
                   (ODisablePaths (local_hopid (lnk w)) (active_remote_hopid l0)) w
            else (Inr (), w)) = (d, w1)" by fastforce
  let ?s1 = "case d of Inr _ \<Rightarrow> (rs_of l0)\<lparr>r_path := None, r_stuck := False\<rparr> | Inl _ \<Rightarrow> (rs_of l0)\<lparr>r_stuck := True\<rparr>"
  have 1: "at tf k ?s1 v w1 \<and> (d \<noteq> Inr () \<longrightarrow> paths_owned l0)"
  proof (cases "paths_owned l0")
    case True
    then have c': "hw_wait ops tf (op_disable_paths ops (local_hopid (lnk w)) (active_remote_hopid l0))
                   (ODisablePaths (local_hopid (lnk w)) (active_remote_hopid l0)) w = (d, w1)" using c by simp
    have "at tf k ?s1 v w1"
      by (rule res.settled_wait [OF assms(1) c'])
        (use True h assms(3) in \<open>simp_all add: guard_def rs_of_def split: sum.split\<close>)
    then show ?thesis using True by simp
  next
    case False
    then have "d = Inr ()" "w1 = w" using c by auto
    moreover have "rs_of l0 = (rs_of l0)\<lparr>r_path := None, r_stuck := False\<rparr>" using False by (simp add: rs_of_def)
    ultimately show ?thesis using assms(1) by simp
  qed
  have r: "ret = d" "w' = (if rings_up l0 then hw_run ops tf (op_stop_rings ops) OStopRings w1 else w1)"
    using assms(5) c by (auto simp: down_disconnect_def)
  have "at tf k (fenced d (rs_of l0)) v w'"
  proof (cases "rings_up l0")
    case True
    have "at tf k (?s1\<lparr>r_run := False\<rparr>) v (hw_run ops tf (op_stop_rings ops) OStopRings w1)"
      using 1 by (intro res.settled_run [of tf k ?s1 v w1])
        (use True assms(3) in \<open>simp_all add: guard_def rs_of_def split: sum.split\<close>)
    moreover have "?s1\<lparr>r_run := False\<rparr> = fenced d (rs_of l0)" by (simp add: fenced_def split: sum.split)
    ultimately show ?thesis using True r by simp
  next
    case False
    have "?s1 = fenced d (rs_of l0)" using False by (simp add: fenced_def rs_of_def split: sum.split)
    then show ?thesis using 1 False r by simp
  qed
  then show ?thesis using 1 r by simp
qed

text \<open>The resources after the first critical section of a teardown that found \<open>l0\<close>.\<close>

definition closed_of :: "tbframe_link \<Rightarrow> tbframe_link \<Rightarrow> bool" where
  "closed_of l0 v =
    (res_view v = res_view (l0\<lparr>rings_up := False, lstate := lstate v\<rparr>) \<and> lstate v \<noteq> TBFRAME_STATE_UP \<and>
     (lstate l0 = TBFRAME_STATE_DEAD \<longrightarrow> lstate v = TBFRAME_STATE_DEAD))"

lemma closed_ofD:
  assumes "closed_of l0 v"
  shows "\<not> rings_up v" "rings_allocated v = rings_allocated l0" "paths_enabled v = paths_enabled l0"
    "paths_owned v = paths_owned l0" "terminal_handoff v = terminal_handoff l0" "in_hopid_held v = in_hopid_held l0"
    "active_remote_hopid v = active_remote_hopid l0" "local_hopid v = local_hopid l0"
    "lstate v \<noteq> TBFRAME_STATE_UP" "lstate l0 = TBFRAME_STATE_DEAD \<longrightarrow> lstate v = TBFRAME_STATE_DEAD"
  using assms by (auto simp: closed_of_def res_view_def)

lemma res_invD:
  assumes "res_inv l"
  shows "in_hopid_held l = paths_owned l" "rings_up l \<Longrightarrow> paths_owned l" "rings_up l \<Longrightarrow> paths_enabled l"
    "paths_enabled l \<Longrightarrow> paths_owned l" "paths_owned l \<Longrightarrow> rings_allocated l"
    "paths_owned l \<Longrightarrow> \<not> rings_up l \<Longrightarrow> lstate l = TBFRAME_STATE_DEAD"
    "terminal_handoff l \<Longrightarrow> lstate l = TBFRAME_STATE_DEAD" "terminal_handoff l \<Longrightarrow> \<not> rings_allocated l"
    "lstate l = TBFRAME_STATE_UP \<Longrightarrow> rings_up l"
  using assms unfolding res_inv_def by blast+

lemma at_release_hop:
  assumes "at tf k s v w" "\<not> rings_up v" "b \<longrightarrow> r_hop s = Some h \<and> \<not> r_run s \<and> r_path s = None" "\<not> b \<longrightarrow> r_hop s = None"
  shows "at tf k (s\<lparr>r_hop := None\<rparr>) v
    (if b then hw_run ops tf (op_release_in_hopid ops h) (OReleaseInHopid h) w else w)"
proof (cases b)
  case True
  then show ?thesis using assms by (auto intro!: res.settled_run [OF assms(1)] simp: guard_def)
next
  case False
  then have e: "s\<lparr>r_hop := None\<rparr> = s" using assms by simp
  show ?thesis unfolding e using assms False by simp
qed

lemma at_free_rings:
  assumes "at tf k s v w" "\<not> rings_up v" "b \<longrightarrow> r_alloc s \<and> \<not> r_run s \<and> r_path s = None"
  shows "at tf k (if b then s\<lparr>r_alloc := False\<rparr> else s) v
    (if b then hw_run ops tf (op_free_rings ops) OFreeRings w else w)"
  using assms by (auto intro!: res.settled_run [OF assms(1)] simp: guard_def)

text \<open>The route is resolved: the resources are released, the rings only by a terminal teardown.\<close>

lemma release_ok:
  assumes "at tf k (fenced (Inr ()) (rs_of l0)) v w" "closed_of l0 v" "res_inv l0"
    and "w' = down_release ops tf l0 (Inr ()) terminal
      (upd (\<lambda>l. l\<lparr>paths_enabled := False, paths_owned := False, in_hopid_held := False\<rparr>) w)"
  shows "res_ok tf k w' \<and> \<not> rings_up (lnk w') \<and> lstate (lnk w') = lstate v \<and> \<not> paths_owned (lnk w')
    \<and> (terminal \<longrightarrow> \<not> rings_allocated (lnk w'))"
proof -
  note v = closed_ofD [OF assms(2)]
  let ?f = "\<lambda>l. l\<lparr>paths_enabled := False, paths_owned := False, in_hopid_held := False\<rparr> :: tbframe_link"
  define s where "s = fenced (Inr ()) (rs_of l0)"
  define b1 where "b1 = (rings_allocated l0 \<and> terminal \<and> \<not> terminal_handoff l0)"
  define b2 where "b2 = (in_hopid_held l0 \<and> \<not> terminal_handoff l0)"
  have s: "r_alloc s = rings_allocated l0" "\<not> r_run s" "r_path s = None" "\<not> r_stuck s"
      "r_hop s = (if in_hopid_held l0 then Some (active_remote_hopid l0) else None)"
    by (simp_all add: s_def fenced_def rs_of_def)
  have 1: "at tf k s (?f v) (upd ?f w)" unfolding s_def using v by (intro at_hard [OF assms(1)] hard_fields) simp
  have th: "terminal_handoff (lnk x) = terminal_handoff l0" if "at tf k s' (?f v) x" for x :: "'a world" and s'
    using that v(5) res_viewD(6) [of "lnk x" "?f v"] by (simp add: settled_def)
  define w1 where "w1 = (if b1 then hw_run ops tf (op_free_rings ops) OFreeRings (upd ?f w) else upd ?f w)"
  have 2: "at tf k (if b1 then s\<lparr>r_alloc := False\<rparr> else s) (?f v) w1"
    unfolding w1_def using v s by (intro at_free_rings [OF 1]) (simp_all add: b1_def)
  define w2 where "w2 = (if b2 then hw_run ops tf (op_release_in_hopid ops (active_remote_hopid l0))
                     (OReleaseInHopid (active_remote_hopid l0)) w1 else w1)"
  have nt: "\<not> terminal_handoff l0" if "in_hopid_held l0 \<or> rings_allocated l0"
    using that res_invD(1,5,8) [OF assms(3)] by blast
  have h: "b2 = in_hopid_held l0" "b1 = (rings_allocated l0 \<and> terminal)"
    using nt by (auto simp: b2_def b1_def)
  have 3: "at tf k ((if b1 then s\<lparr>r_alloc := False\<rparr> else s)\<lparr>r_hop := None\<rparr>) (?f v) w2"
    unfolding w2_def by (rule at_release_hop [OF 2]) (use v(1) s h(1) in simp_all)
  let ?g = "\<lambda>l. if terminal then l\<lparr>rings_allocated := False\<rparr> else l :: tbframe_link"
  have e1: "w1 = (if rings_allocated l0 \<and> terminal \<and> \<not> terminal_handoff (lnk (upd ?f w))
      then hw_run ops tf (op_free_rings ops) OFreeRings (upd ?f w) else upd ?f w)"
    unfolding w1_def b1_def th [OF 1] ..
  have e2: "w2 = (if in_hopid_held l0 \<and> \<not> terminal_handoff (lnk w1)
      then hw_run ops tf (op_release_in_hopid ops (active_remote_hopid l0))
                     (OReleaseInHopid (active_remote_hopid l0)) w1 else w1)"
    unfolding w2_def b2_def th [OF 2] ..
  have w': "w' = (if terminal then upd (\<lambda>l. l\<lparr>rings_allocated := False\<rparr>) w2 else w2)"
    by (simp only: assms(4) down_release_def Let_def e1 [symmetric] e2 [symmetric] simp_thms)
  have 4: "at tf k ((if b1 then s\<lparr>r_alloc := False\<rparr> else s)\<lparr>r_hop := None\<rparr>) (?g (?f v)) w'"
  proof (cases terminal)
    case True
    have "at tf k ((if b1 then s\<lparr>r_alloc := False\<rparr> else s)\<lparr>r_hop := None\<rparr>) ((?f v)\<lparr>rings_allocated := False\<rparr>)
        (upd (\<lambda>l. l\<lparr>rings_allocated := False\<rparr>) w2)"
      using v(1) by (intro at_hard [OF 3] hard_fields) simp
    then show ?thesis using True w' by simp
  qed (use 3 w' in simp)
  have e: "(if b1 then s\<lparr>r_alloc := False\<rparr> else s)\<lparr>r_hop := None\<rparr> = rs_of (?g (?f v))"
    unfolding h(2) using s v(1,2) by (cases terminal) (simp_all add: rs_of_def)
  have "res_inv (?g (?f v))" using v(1,2,5,9,10) res_invD(7,8) [OF assms(3)] by (auto simp: res_inv_def)
  then have "res_ok tf k w'" using 4 e atI_ok [of tf k "?g (?f v)" w'] by simp
  moreover have "\<not> rings_up (?g (?f v))" "lstate (?g (?f v)) = lstate v" "\<not> paths_owned (?g (?f v))"
      "terminal \<longrightarrow> \<not> rings_allocated (?g (?f v))"
    using v by simp_all
  ultimately show ?thesis using 4 res_viewD(1,2,3,5) [of "lnk w'" "?g (?f v)"] by (simp add: settled_def)
qed

lemma settle_ok:
  assumes "at tf k (fenced ret (rs_of l0)) v w" "closed_of l0 v" "res_inv l0" "ret \<noteq> Inr () \<longrightarrow> paths_owned l0"
    and "down_settle ops tf l0 ret reason w = ((ret', reason', terminal), w1)"
    and "w' = down_release ops tf l0 ret' terminal w1"
  shows "res_ok tf k w' \<and> \<not> rings_up (lnk w') \<and> (lstate (lnk w') = lstate v \<or> lstate (lnk w') = TBFRAME_STATE_DEAD)
    \<and> (ret' = Inr () \<longrightarrow> \<not> paths_owned (lnk w')) \<and> (ret' = Inr () \<and> terminal \<longrightarrow> \<not> rings_allocated (lnk w'))
    \<and> (ret' \<noteq> Inr () \<longrightarrow> lstate (lnk w') = TBFRAME_STATE_DEAD)"
proof (cases ret)
  case (Inr u)
  then show ?thesis using release_ok [of tf k l0 v w w' ops terminal] assms by (auto simp: down_settle_def)
next
  case (Inl e)
  note v = closed_ofD [OF assms(2)]
  have o: "paths_owned l0" "in_hopid_held l0" "\<not> terminal_handoff l0" "rings_allocated l0"
    using assms(4) Inl res_invD(1,5,8) [OF assms(3)] by blast+
  let ?d = "\<lambda>l. l\<lparr>lstate := TBFRAME_STATE_DEAD\<rparr> :: tbframe_link"
  have 1: "at tf k (fenced ret (rs_of l0)) (?d v) (upd ?d w)" using v by (intro at_hard [OF assms(1)] hard_fields) simp
  obtain b w2 where q: "tbframe_link_quarantine_paths ops tf (active_remote_hopid l0) (upd ?d w) = (b, w2)" by fastforce
  have 2: "at tf k (if b then rs_init else fenced ret (rs_of l0)) (if b then quarantine_commit (?d v) else ?d v) w2"
    by (rule at_quarantine [OF 1 _ _ _ _ q]) (use v o Inl in \<open>simp_all add: fenced_def rs_of_def\<close>)
  have w1: "w1 = w2" "terminal" "ret' = (if b then Inr () else Inl e)" using assms(5) Inl q by (auto simp: down_settle_def)
  show ?thesis
  proof (cases b)
    case True
    have "terminal_handoff (lnk w2)" using 2 True res_viewD(6) [of "lnk w2" "quarantine_commit (?d v)"]
      by (simp add: settled_def quarantine_commit_def)
    then have w': "w' = upd (\<lambda>l. l\<lparr>rings_allocated := False\<rparr>) w2"
      using assms(6) w1 True by (simp add: down_release_def)
    have 3: "at tf k rs_init ((quarantine_commit (?d v))\<lparr>rings_allocated := False\<rparr>) w'"
      unfolding w' using 2 True by (intro at_hard hard_fields) (simp_all add: quarantine_commit_def)
    then show ?thesis
      using res_ok_released [OF 3] res_viewD(1,2,5) [of "lnk w'" "(quarantine_commit (?d v))\<lparr>rings_allocated := False\<rparr>"]
      by (auto simp: quarantine_commit_def settled_def)
  next
    case False
    then have w': "w' = w2" using assms(6) w1 by (simp add: down_release_def)
    have "fenced ret (rs_of l0) = rs_of (?d v)" using o v Inl by (simp add: fenced_def rs_of_def)
    moreover have "res_inv (?d v)" using o v by (simp add: res_inv_def)
    ultimately have "res_ok tf k w2" using 2 False atI_ok [of tf k "?d v" w2] by simp
    then show ?thesis using 2 False w' w1 v(1) res_viewD(1,3) [of "lnk w2" "?d v"] by (auto simp: settled_def)
  qed
qed

lemma res_ok_notify: "res_ok tf k w \<Longrightarrow> res_ok tf k (tbframe_link_notify_down ops tf reason was_up terminal w)"
  using atI_ok [OF at_notify, of tf k "lnk w" w] by (simp add: res_ok_at)

lemma res_ok_kick: "res_ok tf k (tbframe_link_kick d w) = res_ok tf k w"
  by (simp add: res_ok_def tbframe_link_kick_def rs_of_cong [OF soft_res(1)] res_inv_cong [OF soft_res(1)])

lemma res_ok_rekick: "res_ok tf k (down_rekick reason w) = res_ok tf k w"
  by (simp add: down_rekick_def res_ok_kick)

lemma notify_res [simp]: "res_view (lnk (tbframe_link_notify_down ops tf reason was_up terminal w)) = res_view (lnk w)"
  by (simp add: tbframe_link_notify_down_def Let_def split: option.split)

lemma rekick_res [simp]: "res_view (lnk (down_rekick reason w)) = res_view (lnk w)"
  by (simp add: down_rekick_def tbframe_link_kick_def)

text \<open>What a teardown leaves: the contract, no running rings, the state at the negotiation floor or
  poisoned, no path after a success and nothing at all after a terminal one.\<close>

definition down_done :: "tbframe \<Rightarrow> nat \<Rightarrow> tbframe_link \<Rightarrow> tbframe_down_reason \<Rightarrow> rc \<Rightarrow> 'h world \<Rightarrow> bool" where
  "down_done tf k l0 reason ret w' =
    (res_ok tf k w' \<and> \<not> rings_up (lnk w') \<and> lstate (lnk w') \<noteq> TBFRAME_STATE_UP \<and>
     (lstate l0 = TBFRAME_STATE_DEAD \<longrightarrow> lstate (lnk w') = TBFRAME_STATE_DEAD) \<and>
     (ret \<noteq> Inr () \<longrightarrow> lstate (lnk w') = TBFRAME_STATE_DEAD) \<and>
     (ret = Inr () \<longrightarrow> \<not> paths_owned (lnk w')) \<and>
     (ret = Inr () \<and> down_terminal reason \<longrightarrow> \<not> rings_allocated (lnk w')))"

lemma settle_terminal:
  assumes "down_settle ops tf l0 ret reason w = ((ret', reason', terminal), w1)" "down_terminal reason"
  shows "terminal"
  using assms by (auto simp: down_settle_def split: sum.splits prod.splits)

lemma down_rest_ok:
  assumes "at tf k (rs_of l0) v w" "closed_of l0 v" "res_inv l0" "down_rest ops tf l0 reason drained w = (ret, w')"
  shows "down_done tf k l0 reason ret w'"
proof -
  define v1 where "v1 = (if drained then v else v\<lparr>lstate := TBFRAME_STATE_DEAD\<rparr>)"
  define r1 where "r1 = (if drained then reason else TBFRAME_DOWN_DEAD_HW)"
  define w1 where "w1 = (if drained then w else upd (\<lambda>l. l\<lparr>lstate := TBFRAME_STATE_DEAD\<rparr>) w)"
  have v1: "closed_of l0 v1"
    using assms(2) closed_ofD [OF assms(2)] by (simp add: v1_def closed_of_def res_view_def)
  have 1: "at tf k (rs_of l0) v1 w1"
    using assms(1) closed_ofD(1) [OF assms(2)] by (auto simp: v1_def w1_def intro!: at_hard hard_fields)
  have ring: "rings_up l0 \<longrightarrow> rs_ring (rs_of l0)" using res_invD(2) [OF assms(3)] by (simp add: rs_ring_def rs_of_def)
  define w2 where "w2 = down_quiesce ops tf (rings_up l0) (down_flush ops tf w1)"
  have 2: "at tf k (rs_of l0) v1 w2" unfolding w2_def by (rule at_quiesce [OF at_flush [OF 1] ring])
  define w3 where "w3 = (if down_bye_due tf r1 l0 then tbframe_link_bye ops tf w2 else w2)"
  have 3: "at tf k (rs_of l0) v1 w3" using 2 res.settled_bye [OF 2] by (simp add: w3_def)
  obtain d w4 where c4: "down_disconnect ops tf l0 w3 = (d, w4)" by fastforce
  have 4: "at tf k (fenced d (rs_of l0)) v1 w4 \<and> (d \<noteq> Inr () \<longrightarrow> paths_owned l0)"
    using disconnect_ok [OF 3 assms(3) _ _ c4] closed_ofD(1,8) [OF v1] by blast
  obtain ret' r5 t w5 where c5: "down_settle ops tf l0 d r1 w4 = ((ret', r5, t), w5)" by (metis prod.exhaust)
  define w6 where "w6 = down_release ops tf l0 ret' t w5"
  have 6: "res_ok tf k w6 \<and> \<not> rings_up (lnk w6) \<and> (lstate (lnk w6) = lstate v1 \<or> lstate (lnk w6) = TBFRAME_STATE_DEAD)
      \<and> (ret' = Inr () \<longrightarrow> \<not> paths_owned (lnk w6)) \<and> (ret' = Inr () \<and> t \<longrightarrow> \<not> rings_allocated (lnk w6))
      \<and> (ret' \<noteq> Inr () \<longrightarrow> lstate (lnk w6) = TBFRAME_STATE_DEAD)"
    using settle_ok [OF _ v1 assms(3) _ c5 w6_def] 4 by blast
  have t: "down_terminal reason \<longrightarrow> t"
    using settle_terminal [OF c5] by (auto simp: r1_def down_terminal_def)
  define w7 where "w7 = down_rekick r5 (tbframe_link_notify_down ops tf r5 (lstate l0 = TBFRAME_STATE_UP) t w6)"
  have "res_ok tf k w7" unfolding w7_def res_ok_rekick using 6 res_ok_notify by blast
  moreover have "res_view (lnk w7) = res_view (lnk w6)" by (simp add: w7_def)
  moreover have e: "(if drained then (reason, w) else (TBFRAME_DOWN_DEAD_HW, upd (\<lambda>l. l\<lparr>lstate := TBFRAME_STATE_DEAD\<rparr>) w))
      = (r1, w1)" by (simp add: r1_def w1_def)
  have "down_rest ops tf l0 reason drained w = (ret', w7)"
    by (simp only: down_rest_def Let_def e prod.case w2_def [symmetric] w3_def [symmetric] c4 c5
        w6_def [symmetric] w7_def [symmetric])
  then have "ret = ret'" "w' = w7" using assms(4) by simp_all
  ultimately show ?thesis
    using 6 t res_viewD(1,2,3,5) [of "lnk w7" "lnk w6"] closed_ofD(9,10) [OF v1] by (auto simp: down_done_def)
qed

lemma down_session_ok:
  assumes "res_ok tf k w" "tbframe_link_down_session ops tf reason owner w = Some (ret, w')"
  shows "down_done tf k (lnk w) reason ret w'"
proof -
  define c where "c = tbframe_new_session_cookie (fst (get_random_u64 w)) (local_cookie (lnk w))"
  define w1 where "w1 = upd (\<lambda>l. (down_close owner c l)\<lparr>verify_timer := None\<rparr>) (snd (get_random_u64 w))"
  define v where "v = (down_close owner c (lnk w))\<lparr>verify_timer := None\<rparr>"
  have rv: "res_view v = res_view ((lnk w)\<lparr>rings_up := False, lstate := lstate v\<rparr>)" "lstate v \<noteq> TBFRAME_STATE_UP"
      "lstate (lnk w) = TBFRAME_STATE_DEAD \<longrightarrow> lstate v = TBFRAME_STATE_DEAD"
    by (auto simp: v_def down_close_def tbframe_ready_responder_reset_def tbframe_hello_responder_reset_def Let_def res_view_def)
  then have cl: "closed_of (lnk w) v" by (simp add: closed_of_def)
  have g: "lnk (snd (get_random_u64 w)) = lnk w" "trace (snd (get_random_u64 w)) = trace w"
    by (simp_all add: get_random_u64_def split: list.split)
  have i: "link_inv tf k (lnk w1) = link_inv tf k (lnk w)"
    using hard_close [of owner c] by (simp add: w1_def g hard_def)
  have 1: "at tf k (rs_of (lnk w)) v w1"
    using assms(1) closed_ofD(1) [OF cl] i by (simp add: res_ok_def settled_def w1_def v_def g)
  obtain b w2 where d: "publisher_drain ops tf (drain_budget tf)
      (jiffies_ms (interfere ops tf w1) + ucast (drain_budget tf)) (interfere ops tf w1) = Some (b, w2)"
      "down_rest ops tf (lnk w) reason b w2 = (ret, w')"
    using assms(2) by (auto simp: tbframe_link_down_session_def Let_def case_prod_beta w1_def c_def split: option.splits)
  have "at tf k (rs_of (lnk w)) v w2" by (rule at_drain [OF res.settled_interfere [OF 1] d(1)])
  then show ?thesis using down_rest_ok [OF _ cl _ d(2)] assms(1) by (simp add: res_ok_def)
qed

section \<open>The session step\<close>

lemma res_ok_settled:
  assumes "res_ok tf k w" "\<And>s v. at tf k s v w \<Longrightarrow> at tf k s v w'"
  shows "res_ok tf k w' \<and> res_view (lnk w') = res_view (lnk w)"
  using assms(2) [of "rs_of (lnk w)" "lnk w"] assms(1) atI_ok [of tf k "lnk w" w']
  by (auto simp: res_ok_at settled_def)

lemma res_ok_upd:
  assumes "soft f"
  shows "res_ok tf k (upd f w) = res_ok tf k w"
  using rs_of_cong [OF softD(2) [OF assms], of "lnk w"] res_inv_cong [OF softD(2) [OF assms], of "lnk w"]
    softD(1) [OF assms, of tf k "lnk w"] by (simp add: res_ok_def)

lemma requester_ok:
  assumes "res_ok tf k w"
  shows "res_ok tf k (snd (tbframe_link_prove_data_path ops tf w))"
    "res_ok tf k (snd (tbframe_link_flush_ready_response (interfere ops tf) ops tf w))"
    "res_ok tf k (snd (tbframe_link_ready_once ops tf w))"
    "res_ok tf k (snd (tbframe_link_hello_once ops tf w))"
    "res_view (lnk (snd (tbframe_link_hello_once ops tf w))) = res_view (lnk w)"
    "res_ok tf k (tbframe_link_reannounce ops w)"
  using res_ok_settled [OF assms res.settled_prove] res_ok_settled [OF assms res.settled_flush_ready]
    res_ok_settled [OF assms res.settled_ready_once] res_ok_settled [OF assms res.settled_hello_once]
    res_ok_settled [OF assms res.settled_reannounce] by blast+

lemma failed_ok:
  "res_ok tf k w \<Longrightarrow> res_ok tf k (hello_failed ops w)" "res_ok tf k w \<Longrightarrow> res_ok tf k (ready_failed ops w)"
proof -
  have s: "soft (\<lambda>l. l\<lparr>hello_attempts := n\<rparr>)" "soft (\<lambda>l. l\<lparr>hs := f l\<rparr>)" for n f by (simp_all add: soft_def)
  show "res_ok tf k w \<Longrightarrow> res_ok tf k (hello_failed ops w)"
    by (simp add: hello_failed_def Let_def res_ok_kick requester_ok(6) res_ok_upd s)
  show "res_ok tf k w \<Longrightarrow> res_ok tf k (ready_failed ops w)"
    by (simp add: ready_failed_def Let_def res_ok_kick requester_ok(6) res_ok_upd s)
qed

text \<open>The only step that changes the state of a running session is the commit to UP.\<close>

lemma up_commit_ok:
  assumes "res_ok tf k w" "up_ready (lnk w)"
  shows "res_ok tf k (upd up_commit w)"
proof -
  have "rs_of (up_commit (lnk w)) = rs_of (lnk w)" by (simp add: rs_of_def up_commit_def)
  moreover have "res_inv (up_commit (lnk w))"
  proof -
    have i: "res_inv (lnk w)" using assms(1) by (simp add: res_ok_def)
    have u: "rings_up (lnk w)" "lstate (lnk w) = TBFRAME_STATE_INIT" using assms(2) by (simp_all add: up_ready_def)
    have "paths_owned (lnk w)" "paths_enabled (lnk w)" "\<not> terminal_handoff (lnk w)"
      using res_invD(2,3,7) [OF i] u by auto
    then show ?thesis using res_invD(1,5) [OF i] u by (simp add: res_inv_def up_commit_def)
  qed
  moreover have "link_inv tf k (up_commit l) = link_inv tf k l" for l by (simp add: up_commit_def)
  ultimately show ?thesis using assms(1) by (simp add: res_ok_def)
qed

lemma up_deliver_ok:
  assumes "res_ok tf k w"
  shows "res_ok tf k (up_deliver ops tf w)"
proof -
  have s: "soft (\<lambda>l. rearm_verify_timer tf (l\<lparr>up_delivered := True\<rparr>))" by (simp add: soft_def rearm_verify_timer_def)
  have "at tf k s v w \<Longrightarrow> at tf k s v (interfere ops tf (tbframe_link_deliver_up ops tf i w))" for s v i
    by (intro res.settled_interfere) (simp add: tbframe_link_deliver_up_def settled_def Let_def split: option.split)
  then have "res_ok tf k (interfere ops tf (tbframe_link_deliver_up ops tf i w))" for i
    using res_ok_settled [OF assms] by blast
  then show ?thesis by (simp add: up_deliver_def res_ok_upd [OF s])
qed

lemma step_prove_ok:
  assumes "res_ok tf k w"
  shows "res_ok tf k (step_prove ops tf w)"
proof -
  obtain b w1 where p: "tbframe_link_prove_data_path ops tf w = (b, w1)" by fastforce
  have 1: "res_ok tf k w1" using requester_ok(1) [OF assms, of ops] p by simp
  have s: "soft (\<lambda>l. l\<lparr>announce_pending := False\<rparr>)" by (simp add: soft_def)
  show ?thesis
    using 1 by (simp add: step_prove_def p tbframe_link_maybe_up_def up_deliver_ok up_commit_ok res_ok_upd [OF s] split: bool.split)
qed

lemma step_ready_ok:
  assumes "res_ok tf k w"
  shows "res_ok tf k (step_ready ops tf sent w)"
proof -
  obtain r w1 where f: "tbframe_link_flush_ready_response (interfere ops tf) ops tf w = (r, w1)" by fastforce
  have 1: "res_ok tf k w1" using requester_ok(2) [OF assms, of ops] f by simp
  obtain r2 w2 where g: "tbframe_link_ready_once ops tf w1 = (r2, w2)" by fastforce
  have 2: "res_ok tf k w2" using requester_ok(3) [OF 1, of ops] g by simp
  show ?thesis
    using 1 2 by (simp add: step_ready_def f g step_prove_ok failed_ok res_ok_kick split: sum.split)
qed

lemma step_rings_ok:
  assumes "res_ok tf k w" "lstate (lnk w) = TBFRAME_STATE_INIT \<or> rings_up (lnk w)"
  shows "res_ok tf k (step_rings ops tf sent w)"
proof -
  obtain r w1 where b: "tbframe_link_bring_up ops tf w = (r, w1)" by fastforce
  have "\<not> rings_up (lnk w) \<Longrightarrow> res_ok tf k w1" using bring_up_ok [OF assms(1) _ _ b] assms(2) by blast
  then show ?thesis
    using assms(1) by (simp add: step_rings_def b step_ready_ok res_ok_kick split: sum.split)
qed

lemma step_hello_ok:
  assumes "res_ok tf k w" "lstate (lnk w) \<noteq> TBFRAME_STATE_DEAD"
  shows "res_ok tf k (step_hello ops tf w)"
proof -
  have st: "lstate (lnk w) = TBFRAME_STATE_INIT \<or> rings_up (lnk w)"
    using assms res_invD(9) [of "lnk w"] by (cases "lstate (lnk w)") (auto simp: res_ok_def)
  obtain r w1 where h: "tbframe_link_hello_once ops tf w = (r, w1)" by fastforce
  have 1: "res_ok tf k w1" "res_view (lnk w1) = res_view (lnk w)"
    using requester_ok(4,5) [OF assms(1), of ops] h by simp_all
  show ?thesis
    using assms(1) 1(1) st res_viewD(1,3) [OF 1(2)]
    by (simp add: step_hello_def h step_rings_ok failed_ok Let_def split: sum.split)
qed

lemma session_step_ok:
  assumes "res_ok tf k w" "tbframe_link_session_step ops tf w = Some w'"
  shows "res_ok tf k w'"
  using assms down_session_ok [OF assms(1)] step_hello_ok [OF assms(1)]
  by (auto simp: tbframe_link_session_step_def down_done_def split: if_splits)

end
