(* ===== verification/Tbframe_Lifecycle.thy ===== *)
theory Tbframe_Lifecycle
  imports Tbframe_Teardown
begin

text \<open>
  The life of a link, of \<^verbatim>\<open>frame/core.c\<close>: frame pools, creation with its rollback, shutdown and
  destruction with the bounded wait for outstanding frames. Memory allocation is the kernel's: the
  functions take what it answers as an argument.

  Shown: a created link starts with every invariant of the development, a failed creation gives
  back everything it took, a destruction frees the pools only when nobody holds a frame and nothing
  of the hardware is left, and when the bounded wait ends.
\<close>

section \<open>Frame pools\<close>

record allocator =
  link_ok :: bool
  array_ok :: "bool \<Rightarrow> bool"
  data_ok :: "bool \<Rightarrow> nat \<Rightarrow> bool"

definition frame_fresh :: "bool \<Rightarrow> tbframe_frame_priv" where
  "frame_fresh tx = \<lparr>fdata = replicate (unat TBFRAME_MAX_FRAME) 0, flen = 0, fpdf = 0, is_ctrl = False,
     is_rx = \<not> tx, charged_ctrl = False, charged_data = False, hw_posted = False, rx_generation = 0,
     rx_refs = 0\<rparr>"

text \<open>The loop over the frames: \<open>Some i\<close> when frame \<open>i\<close> could not be set up.\<close>

fun alloc_frames ::
  "'h tbframe_hw_ops \<Rightarrow> allocator \<Rightarrow> bool \<Rightarrow> nat list \<Rightarrow> 'h world \<Rightarrow> nat option \<times> 'h world" where
  "alloc_frames ops mem tx [] w = (None, w)"
| "alloc_frames ops mem tx (i # is) w =
    (if \<not> data_ok mem tx i then (Some i, w)
     else case op_map_frame ops of
            None \<Rightarrow> alloc_frames ops mem tx is w
          | Some f \<Rightarrow>
              (case hw_call (f i tx) (OMapFrame i tx) w of
                 (Inl _, w) \<Rightarrow> (Some i, w)
               | (Inr _, w) \<Rightarrow> alloc_frames ops mem tx is w))"

definition unmap_frames :: "'h tbframe_hw_ops \<Rightarrow> bool \<Rightarrow> nat list \<Rightarrow> 'h world \<Rightarrow> 'h world" where
  "unmap_frames ops tx is w =
    (case op_unmap_frame ops of
       None \<Rightarrow> w
     | Some f \<Rightarrow> fold (\<lambda>i. hw_do (f i tx) (OUnmapFrame i tx)) is w)"

definition pool_install :: "bool \<Rightarrow> u16 \<Rightarrow> tbframe_link \<Rightarrow> tbframe_link" where
  "pool_install tx count l =
    (if tx then l\<lparr>tx_frames := (\<lambda>_. frame_fresh True), tx_frame_count := count, tx_free := [0..<unat count]\<rparr>
     else l\<lparr>rx_frames := (\<lambda>_. frame_fresh False), rx_frame_count := count, rx_free := [0..<unat count]\<rparr>)"

definition tbframe_link_alloc_pool ::
  "'h tbframe_hw_ops \<Rightarrow> tbframe \<Rightarrow> allocator \<Rightarrow> bool \<Rightarrow> 'h world \<Rightarrow> rc \<times> 'h world" where
  "tbframe_link_alloc_pool ops tf mem tx w =
    (let count = ring_entries tf
     in if \<not> array_ok mem tx then (Inl ENOMEM, w)
        else case alloc_frames ops mem tx [0..<unat count] w of
               (None, w) \<Rightarrow> (Inr (), upd (pool_install tx count) w)
             | (Some i, w) \<Rightarrow> (Inl ENOMEM, unmap_frames ops tx (rev [0..<i]) w))"

definition tbframe_link_free_pools :: "'h tbframe_hw_ops \<Rightarrow> 'h world \<Rightarrow> 'h world" where
  "tbframe_link_free_pools ops w =
    (let w = unmap_frames ops True [0..<unat (tx_frame_count (lnk w))] w
     in unmap_frames ops False [0..<unat (rx_frame_count (lnk w))] w)"

section \<open>Creation\<close>

definition get_random_u32 :: "'h world \<Rightarrow> u32 \<times> 'h world" where
  "get_random_u32 w = (let (r, w) = get_random_u64 w in (ucast r, w))"

text \<open>The zeroed structure after the assignments of \<open>tbframe_link_create\<close>, before any resource.\<close>

definition hs_zero :: tb_xdomain_handshake where
  "hs_zero = \<lparr>request_sent = False, peer_seen = False, established = False, attempts = 0\<rparr>"

definition link_zero :: "nat \<Rightarrow> tbframe_link" where
  "link_zero i = \<lparr>lstate = TBFRAME_STATE_INIT, removing = False, parked = False, hello_done = False,
     rings_allocated = False, rings_up = False, paths_enabled = False, paths_owned = False,
     terminal_handoff = False, in_hopid_held = False, tx_quiesced = False, active_remote_hopid = 0,
     hs = hs_zero, hello_responder = \<lparr>hr_seen = False, hr_peer = hello_zero\<rparr>,
     ready_responder = \<lparr>rr_state = TBFRAME_READY_RESPONDER_WAITING, rr_seq = 0,
        rr_xdomain_sequence = 0, rr_peer = hello_zero\<rparr>,
     hello_selection_pending = False, hello_selection_caps = 0, request_seq = 0, hello_attempts = 0,
     last_reannounce = 0, needs_down = False, down_reason = TBFRAME_DOWN_UNPLUG,
     announce_pending = False, up_delivered = False,
     data_rx = 0, data_rx_tick_mark = 0, data_rx_proven = False, data_tx_proven = False,
     keepalive_tx_seq = 0, keepalive_tx_acked = 0, keepalive_tx_ack_mark = 0, keepalive_peer_seq = 0,
     data_rx_bad = 0, data_rx_oversize = 0, data_rx_stale = 0, data_rx_bad_cookie = 0,
     data_rx_prior_cookie = 0, data_tx_done = 0, data_tx_submitted = 0, data_tx_refused = 0,
     data_tx_ring_err = 0, data_tx_canceled = 0, data_proven = False,
     data_proof_unavailable_warned = False, data_generation = 0, probe_attempts = 0,
     probe_failures = 0, stale_drain_active = False, stale_drain_budget = 0, silent_ticks = 0,
     tx_silent_ticks = 0, data_path_sample_valid = False,
     data_window = 0, data_inflight = 0, ctrl_inflight = 0, tx_blocked = False, e2e_active = False,
     hw_active = 0, tx_frames = (\<lambda>_. frame_fresh True), rx_frames = (\<lambda>_. frame_fresh False),
     tx_frame_count = 0, rx_frame_count = 0, tx_free = [], rx_free = [], txq_ctrl = [],
     txq_data = [], ring_posted = 0, refcnt = 0,
     link_id = i, lroute = 0, local_hopid = 0, local_cookie = 0, local_gid_eui64 = 0,
     remote_hopid = 0, remote_rx_entries = 0, remote_caps = 0, remote_cookie = 0,
     previous_remote_cookie = 0, remote_gid_eui64 = 0, session_work = None, verify_timer = None,
     verify_work = False, tx_released_work = False\<rparr>"

definition link_setup :: "u64 \<Rightarrow> u64 \<Rightarrow> u64 \<Rightarrow> u32 \<Rightarrow> tbframe_link \<Rightarrow> tbframe_link" where
  "link_setup route gid cookie seq l =
    (let l = l\<lparr>lroute := route, local_gid_eui64 := gid, local_cookie := cookie, request_seq := seq,
               refcnt := 1, hw_active := 0, lstate := TBFRAME_STATE_INIT, tx_quiesced := True,
               hs := tb_xdomain_handshake_reset (hs l)\<rparr>
     in tbframe_ready_responder_reset (tbframe_hello_responder_reset l))"

text \<open>\<open>w\<close> holds the hardware and the random source; its link is the new structure.\<close>

definition create_pools ::
  "'h tbframe_hw_ops \<Rightarrow> tbframe \<Rightarrow> allocator \<Rightarrow> 'h world \<Rightarrow> rc \<times> 'h world" where
  "create_pools ops tf mem w =
    (case tbframe_link_alloc_pool ops tf mem True w of
       (Inl e, w) \<Rightarrow> (Inl e, w)
     | (Inr _, w) \<Rightarrow>
         (case tbframe_link_alloc_pool ops tf mem False w of
            (Inl e, w) \<Rightarrow> (Inl e, tbframe_link_free_pools ops w)
          | (Inr u, w) \<Rightarrow> (Inr u, w)))"

definition tbframe_link_create ::
  "'h tbframe_hw_ops \<Rightarrow> tbframe \<Rightarrow> allocator \<Rightarrow> nat \<Rightarrow> u64 \<Rightarrow> u64 \<Rightarrow> bool \<Rightarrow> 'h world \<Rightarrow> rc \<times> 'h world" where
  "tbframe_link_create ops tf mem i route gid autostart w =
    (if \<not> link_ok mem then (Inl ENOMEM, w)
     else
      (let (random, w) = get_random_u64 w;
           (seq, w) = get_random_u32 w;
           w = w\<lparr>lnk := link_setup route gid (tbframe_new_session_cookie random 0) seq (link_zero i)\<rparr>
       in case hw_call (op_alloc_out_hopid ops) OAllocOutHopid w of
            (Inl e, w) \<Rightarrow> (Inl e, w)
          | (Inr h, w) \<Rightarrow>
             (case create_pools ops tf mem (upd (\<lambda>l. l\<lparr>local_hopid := h\<rparr>) w) of
                (Inl e, w) \<Rightarrow>
                  (Inl e, hw_do (op_release_out_hopid ops h) (OReleaseOutHopid h) w)
              | (Inr u, w) \<Rightarrow>
                  (Inr u, if autostart then tbframe_link_kick 0 w else w))))"

section \<open>Parking, shutdown and destruction\<close>

definition tbframe_link_mark_parked :: "tbframe_link \<Rightarrow> tbframe_link" where
  "tbframe_link_mark_parked l = l\<lparr>parked := True\<rparr>"

text \<open>Cancel the timer and every work item, waiting for a running one: nothing runs on the link's
  behalf afterwards, and the others have had their chance to run before.\<close>

definition tbframe_link_cancel_activity :: "'h tbframe_hw_ops \<Rightarrow> tbframe \<Rightarrow> 'h world \<Rightarrow> 'h world" where
  "tbframe_link_cancel_activity ops tf w =
    upd (\<lambda>l. l\<lparr>verify_timer := None, session_work := None, verify_work := False, tx_released_work := False\<rparr>)
      (interfere ops tf w)"

definition tbframe_link_down_parked ::
  "'h tbframe_hw_ops \<Rightarrow> tbframe \<Rightarrow> 'h world \<Rightarrow> 'h world option" where
  "tbframe_link_down_parked ops tf w =
    map_option snd (tbframe_link_down_session ops tf TBFRAME_DOWN_CLOSED TBFRAME_SESSION_LOCAL w)"

definition cancel_session :: "'h tbframe_hw_ops \<Rightarrow> tbframe \<Rightarrow> 'h world \<Rightarrow> 'h world" where
  "cancel_session ops tf w =
    upd (\<lambda>l. l\<lparr>verify_timer := None, session_work := None, verify_work := False\<rparr>) (interfere ops tf w)"

definition cancel_released :: "'h world \<Rightarrow> 'h world" where
  "cancel_released w = upd (\<lambda>l. l\<lparr>tx_released_work := False\<rparr>) w"

definition tbframe_link_shutdown :: "'h tbframe_hw_ops \<Rightarrow> tbframe \<Rightarrow> 'h world \<Rightarrow> 'h world option" where
  "tbframe_link_shutdown ops tf w =
    (let w = cancel_session ops tf (upd (\<lambda>l. l\<lparr>parked := True\<rparr>) w)
     in map_option (\<lambda>(_, w). cancel_released w)
          (tbframe_link_down_session ops tf TBFRAME_DOWN_CLOSED TBFRAME_SESSION_LOCAL w))"

text \<open>The bounded wait: each round waits one interval, in which the others run. The 32-bit sum of the
  intervals can wrap around, so the loop need not end.\<close>

partial_function (option) wait_refs ::
  "'h tbframe_hw_ops \<Rightarrow> tbframe \<Rightarrow> u32 \<Rightarrow> u32 \<Rightarrow> u32 \<Rightarrow> 'h world \<Rightarrow> (bool \<times> 'h world) option" where
  "wait_refs ops tf warn cap waited w =
    (let w = (if refcnt (lnk w) = 0 then w else interfere ops tf w)
     in if refcnt (lnk w) = 0 then Some (True, w)
        else if waited + warn \<ge> cap then Some (False, w)
        else wait_refs ops tf warn cap (waited + warn) w)"

definition wait_cap :: "tbframe \<Rightarrow> u32" where
  "wait_cap tf =
    (let cap = (if teardown_force_ms tf \<noteq> 0 then teardown_force_ms tf else TBFRAME_TEARDOWN_FORCE_MAX_MS)
     in if shutdown_mode tf then min cap TBFRAME_SHUTDOWN_FORCE_MS else cap)"

definition wait_warn :: "tbframe \<Rightarrow> u32" where
  "wait_warn tf =
    (let warn = (if teardown_warn_ms tf \<noteq> 0 then teardown_warn_ms tf else 2000)
     in if shutdown_mode tf then min warn (wait_cap tf) else warn)"

definition tbframe_link_wait_refs_zero ::
  "'h tbframe_hw_ops \<Rightarrow> tbframe \<Rightarrow> 'h world \<Rightarrow> (bool \<times> 'h world) option" where
  "tbframe_link_wait_refs_zero ops tf w = wait_refs ops tf (wait_warn tf) (wait_cap tf) 0 w"

text \<open>After a successful teardown: give back the egress HopID, drop the base reference, wait, free.\<close>

definition destroy_finish ::
  "'h tbframe_hw_ops \<Rightarrow> tbframe \<Rightarrow> 'h world \<Rightarrow> (rc \<times> 'h world) option" where
  "destroy_finish ops tf w =
    (let w = (if \<not> terminal_handoff (lnk w)
              then hw_run ops tf (op_release_out_hopid ops (local_hopid (lnk w)))
                     (OReleaseOutHopid (local_hopid (lnk w))) w
              else w);
         w = upd tbframe_link_put w
     in case tbframe_link_wait_refs_zero ops tf w of
          None \<Rightarrow> None
        | Some (False, w) \<Rightarrow> Some (Inl EBUSY, upd (\<lambda>l. l\<lparr>lstate := TBFRAME_STATE_DEAD\<rparr>) w)
        | Some (True, w) \<Rightarrow> Some (Inr (), tbframe_link_free_pools ops w))"

definition tbframe_link_destroy ::
  "'h tbframe_hw_ops \<Rightarrow> tbframe \<Rightarrow> tbframe_down_reason \<Rightarrow> 'h world \<Rightarrow> (rc \<times> 'h world) option" where
  "tbframe_link_destroy ops tf reason w =
    (let w = cancel_session ops tf (upd (\<lambda>l. l\<lparr>removing := True\<rparr>) w)
     in case tbframe_link_down_session ops tf reason TBFRAME_SESSION_LOCAL w of
          None \<Rightarrow> None
        | Some (Inl e, w) \<Rightarrow> Some (Inl e, cancel_released w)
        | Some (Inr _, w) \<Rightarrow> destroy_finish ops tf (cancel_released w))"

section \<open>Ownership of mappings and of the egress HopID\<close>

text \<open>What a link holds of the hardware between its creation and its destruction: the frames mapped
  for DMA and the egress HopID, as an automaton that rejects a double or unmatched release.\<close>

record ostate =
  o_maps :: "(bool \<times> nat) set"
  o_hop :: "nat option"

definition own_init :: ostate where
  "own_init = \<lparr>o_maps = {}, o_hop = None\<rparr>"

fun own_step :: "ostate \<Rightarrow> obs \<Rightarrow> ostate option" where
  "own_step s (OMapFrame i tx r) =
    (if (tx, i) \<in> o_maps s then None
     else Some (case r of Inl _ \<Rightarrow> s | Inr _ \<Rightarrow> s\<lparr>o_maps := insert (tx, i) (o_maps s)\<rparr>))"
| "own_step s (OUnmapFrame i tx) =
    (if (tx, i) \<notin> o_maps s then None else Some (s\<lparr>o_maps := o_maps s - {(tx, i)}\<rparr>))"
| "own_step s (OAllocOutHopid r) =
    (if o_hop s \<noteq> None then None else Some (case r of Inl _ \<Rightarrow> s | Inr h \<Rightarrow> s\<lparr>o_hop := Some h\<rparr>))"
| "own_step s (OReleaseOutHopid h) = (if o_hop s \<noteq> Some h then None else Some (s\<lparr>o_hop := None\<rparr>))"
| "own_step s _ = Some s"

definition owns :: "ostate \<Rightarrow> 'h world \<Rightarrow> bool" where
  "owns s w = (spec_run own_step own_init (trace w) = Some s)"

text \<open>A hardware that maps frames also unmaps them.\<close>

definition maps_paired :: "'h tbframe_hw_ops \<Rightarrow> bool" where
  "maps_paired ops = (op_map_frame ops = None \<longleftrightarrow> op_unmap_frame ops = None)"

definition mapped :: "'h tbframe_hw_ops \<Rightarrow> bool \<Rightarrow> nat set \<Rightarrow> (bool \<times> nat) set" where
  "mapped ops tx A = (if op_map_frame ops = None then {} else Pair tx ` A)"

lemma owns_call:
  "owns s w \<Longrightarrow> hw_call f ob w = (r, w') \<Longrightarrow> own_step s (ob r) = Some s' \<Longrightarrow> owns s' w'"
  using hw_call_sel(2) [of f ob w r w'] by (simp add: owns_def)

lemma owns_do: "owns s w \<Longrightarrow> own_step s ob = Some s' \<Longrightarrow> owns s' (hw_do f ob w)"
  by (simp add: owns_def)

lemma owns_upd [simp]: "owns s (upd f w) = owns s w" "owns s (w\<lparr>lnk := l\<rparr>) = owns s w"
  by (simp_all add: owns_def)

lemma alloc_frames_lnk: "lnk (snd (alloc_frames ops mem tx is w)) = lnk w"
proof (induction "is" arbitrary: w)
  case (Cons i "is")
  then show ?case by (simp split: option.split prod.split sum.split) (metis hw_call_sel(1))
qed simp

lemma alloc_frames_owns:
  assumes "owns s w" "\<forall>j \<in> {a..<b}. (tx, j) \<notin> o_maps s"
  shows "owns (s\<lparr>o_maps := o_maps s \<union> mapped ops tx (case fst (alloc_frames ops mem tx [a..<b] w) of
      None \<Rightarrow> {a..<b} | Some i \<Rightarrow> {a..<i})\<rparr>) (snd (alloc_frames ops mem tx [a..<b] w))
    \<and> (\<forall>i. fst (alloc_frames ops mem tx [a..<b] w) = Some i \<longrightarrow> a \<le> i \<and> i < b)"
  using assms
proof (induction "b - a" arbitrary: a s w)
  case 0
  then show ?case by (simp add: mapped_def)
next
  case (Suc n)
  then have ab: "a < b" "[a..<b] = a # [Suc a..<b]" by (simp_all add: upt_conv_Cons)
  have ins: "{a..<c} = insert a {Suc a..<c}" if "Suc a \<le> c" for c using that by auto
  show ?case
  proof (cases "data_ok mem tx a")
    case False
    then show ?thesis using Suc.prems ab by (simp add: mapped_def)
  next
    case True
    show ?thesis
    proof (cases "op_map_frame ops")
      case None
      have n: "n = b - Suc a" using Suc.hyps(2) by simp
      have "\<forall>j \<in> {Suc a..<b}. (tx, j) \<notin> o_maps s" using Suc.prems(2) by auto
      from Suc.hyps(1) [OF n Suc.prems(1) this] show ?thesis
        using ab True None by (auto simp: mapped_def dest: Suc_leD)
    next
      case (Some f)
      obtain r w1 where c: "hw_call (f a tx) (OMapFrame a tx) w = (r, w1)" by fastforce
      show ?thesis
      proof (cases r)
        case (Inl e)
        have "owns s w1" using owns_call [OF Suc.prems(1) c] Inl Suc.prems(2) ab by simp
        then show ?thesis using ab True Some c Inl by (simp add: mapped_def)
      next
        case (Inr u)
        let ?s = "s\<lparr>o_maps := insert (tx, a) (o_maps s)\<rparr>"
        have 1: "owns ?s w1" using owns_call [OF Suc.prems(1) c] Inr Suc.prems(2) ab by simp
        have 2: "alloc_frames ops mem tx [a..<b] w = alloc_frames ops mem tx [Suc a..<b] w1"
          using ab True Some c Inr by simp
        have 3: "owns (?s\<lparr>o_maps := o_maps ?s \<union> mapped ops tx (case fst (alloc_frames ops mem tx [Suc a..<b] w1) of
            None \<Rightarrow> {Suc a..<b} | Some i \<Rightarrow> {Suc a..<i})\<rparr>) (snd (alloc_frames ops mem tx [Suc a..<b] w1))
          \<and> (\<forall>i. fst (alloc_frames ops mem tx [Suc a..<b] w1) = Some i \<longrightarrow> Suc a \<le> i \<and> i < b)"
          using Suc.hyps(1) [OF _ 1, of "Suc a"] Suc.hyps(2) Suc.prems(2) by auto
        show ?thesis
        proof (cases "fst (alloc_frames ops mem tx [Suc a..<b] w1)")
          case None
          then show ?thesis using 2 3 ins [of b] ab Some by (simp add: mapped_def)
        next
          case (Some i)
          then show ?thesis using 2 3 ins [of i] \<open>op_map_frame ops = Some f\<close> by (auto simp: mapped_def)
        qed
      qed
    qed
  qed
qed

lemma unmap_owns:
  assumes "owns s w" "distinct is" "mapped ops tx (set is) \<subseteq> o_maps s" "maps_paired ops"
  shows "owns (s\<lparr>o_maps := o_maps s - mapped ops tx (set is)\<rparr>) (unmap_frames ops tx is w)"
proof (cases "op_unmap_frame ops")
  case None
  then show ?thesis using assms by (simp add: unmap_frames_def mapped_def maps_paired_def)
next
  case (Some f)
  then have m: "mapped ops tx A = Pair tx ` A" for A using assms(4) by (auto simp: mapped_def maps_paired_def)
  have "owns (s\<lparr>o_maps := o_maps s - Pair tx ` set is\<rparr>) (fold (\<lambda>i. hw_do (f i tx) (OUnmapFrame i tx)) is w)"
    using assms(1-3) unfolding m
  proof (induction "is" arbitrary: s w)
    case (Cons i "is")
    let ?s = "s\<lparr>o_maps := o_maps s - {(tx, i)}\<rparr>"
    have "owns ?s (hw_do (f i tx) (OUnmapFrame i tx) w)" using Cons.prems by (intro owns_do) auto
    moreover have "Pair tx ` set is \<subseteq> o_maps ?s" using Cons.prems by auto
    moreover have "distinct is" using Cons.prems(2) by simp
    ultimately have "owns (?s\<lparr>o_maps := o_maps ?s - Pair tx ` set is\<rparr>)
        (fold (\<lambda>i. hw_do (f i tx) (OUnmapFrame i tx)) is (hw_do (f i tx) (OUnmapFrame i tx) w))"
      by (intro Cons.IH)
    moreover have "o_maps s - {(tx, i)} - Pair tx ` set is = o_maps s - Pair tx ` set (i # is)" by auto
    ultimately show ?case by simp
  qed simp
  then show ?thesis using Some m by (simp add: unmap_frames_def)
qed

fun life_obs :: "obs \<Rightarrow> bool" where
  "life_obs (OMapFrame _ _ _) = True"
| "life_obs (OUnmapFrame _ _) = True"
| "life_obs (OAllocOutHopid _) = True"
| "life_obs (OReleaseOutHopid _) = True"
| "life_obs _ = False"

text \<open>Only such calls were made so far: the session contract is still in its initial state.\<close>

definition unborn :: "'h world \<Rightarrow> bool" where
  "unborn w = list_all life_obs (trace w)"

lemma life_spec: "list_all life_obs xs \<Longrightarrow> spec_run rs_step s xs = Some s"
proof (induction xs rule: rev_induct)
  case (snoc x xs)
  then show ?case by (cases x) simp_all
qed simp

lemma unborn_call: "unborn w \<Longrightarrow> hw_call f ob w = (r, w') \<Longrightarrow> (\<And>r. life_obs (ob r)) \<Longrightarrow> unborn w'"
  using hw_call_sel(2) [of f ob w r w'] by (simp add: unborn_def)

lemma unborn_upd [simp]: "unborn (upd f w) = unborn w" "unborn (w\<lparr>lnk := l\<rparr>) = unborn w"
  by (simp_all add: unborn_def)

lemma unborn_alloc: "unborn w \<Longrightarrow> unborn (snd (alloc_frames ops mem tx is w))"
proof (induction "is" arbitrary: w)
  case (Cons i "is")
  then show ?case by (simp split: option.split prod.split sum.split) (metis life_obs.simps(1) unborn_call)
qed simp

lemma unmap_keeps: "unborn w \<Longrightarrow> unborn (unmap_frames ops tx is w)" "lnk (unmap_frames ops tx is w) = lnk w"
proof -
  have "unborn w \<Longrightarrow> unborn (fold (\<lambda>i. hw_do (f i tx) (OUnmapFrame i tx)) is w)
      \<and> lnk (fold (\<lambda>i. hw_do (f i tx) (OUnmapFrame i tx)) is w) = lnk w" for f
    by (induction "is" arbitrary: w) (simp_all add: unborn_def)
  moreover have "lnk (fold (\<lambda>i. hw_do (f i tx) (OUnmapFrame i tx)) is w) = lnk w" for f
    by (induction "is" arbitrary: w) simp_all
  ultimately show "unborn w \<Longrightarrow> unborn (unmap_frames ops tx is w)" "lnk (unmap_frames ops tx is w) = lnk w"
    by (simp_all add: unmap_frames_def split: option.split)
qed

lemma alloc_pool_owns:
  assumes "owns s w" "unborn w" "\<forall>j. (tx, j) \<notin> o_maps s" "maps_paired ops"
    "tbframe_link_alloc_pool ops tf mem tx w = (r, w')"
  shows "(case r of
      Inr _ \<Rightarrow> owns (s\<lparr>o_maps := o_maps s \<union> mapped ops tx {0..<unat (ring_entries tf)}\<rparr>) w'
        \<and> lnk w' = pool_install tx (ring_entries tf) (lnk w)
    | Inl _ \<Rightarrow> owns s w' \<and> lnk w' = lnk w) \<and> unborn w'"
proof (cases "array_ok mem tx")
  case False
  then show ?thesis using assms by (auto simp: tbframe_link_alloc_pool_def)
next
  case True
  let ?n = "unat (ring_entries tf)"
  obtain d w1 where c: "alloc_frames ops mem tx [0..<?n] w = (d, w1)" by fastforce
  have o: "owns (s\<lparr>o_maps := o_maps s \<union> mapped ops tx (case d of None \<Rightarrow> {0..<?n} | Some i \<Rightarrow> {0..<i})\<rparr>) w1"
    using alloc_frames_owns [OF assms(1), of 0 ?n tx ops mem] assms(3) c by simp
  have l: "lnk w1 = lnk w" "unborn w1"
    using alloc_frames_lnk [of ops mem tx "[0..<?n]" w] unborn_alloc [OF assms(2), of ops mem tx "[0..<?n]"] c by simp_all
  show ?thesis
  proof (cases d)
    case None
    then show ?thesis using assms(5) True c o l by (auto simp: tbframe_link_alloc_pool_def)
  next
    case (Some i)
    let ?s = "s\<lparr>o_maps := o_maps s \<union> mapped ops tx {0..<i}\<rparr>"
    have 1: "owns ?s w1" using o Some by simp
    have "owns (?s\<lparr>o_maps := o_maps ?s - mapped ops tx (set (rev [0..<i]))\<rparr>) (unmap_frames ops tx (rev [0..<i]) w1)"
      by (rule unmap_owns [OF 1 _ _ assms(4)]) simp_all
    moreover have "o_maps s \<inter> mapped ops tx {0..<i} = {}" using assms(3) by (auto simp: mapped_def)
    then have "o_maps s \<union> mapped ops tx {0..<i} - mapped ops tx {0..<i} = o_maps s" by blast
    ultimately have "owns s (unmap_frames ops tx (rev [0..<i]) w1)" by simp
    then show ?thesis
      using assms(5) True c l Some unmap_keeps(1) [OF l(2)]
      by (auto simp: tbframe_link_alloc_pool_def unmap_keeps(2))
  qed
qed

lemma create_pools_owns:
  assumes "owns s w" "unborn w" "o_maps s = {}" "maps_paired ops" "create_pools ops tf mem w = (r, w')"
    "rx_frame_count (lnk w) = 0"
  shows "(case r of
      Inr _ \<Rightarrow> owns (s\<lparr>o_maps := mapped ops True {0..<unat (ring_entries tf)} \<union> mapped ops False {0..<unat (ring_entries tf)}\<rparr>) w'
        \<and> lnk w' = pool_install False (ring_entries tf) (pool_install True (ring_entries tf) (lnk w))
    | Inl _ \<Rightarrow> owns s w') \<and> unborn w'"
proof -
  let ?A = "{0..<unat (ring_entries tf)}"
  obtain r1 w1 where c1: "tbframe_link_alloc_pool ops tf mem True w = (r1, w1)" by fastforce
  note 1 = alloc_pool_owns [OF assms(1,2) _ assms(4) c1]
  show ?thesis
  proof (cases r1)
    case (Inl e)
    then show ?thesis using 1 c1 assms(3,5) by (auto simp: create_pools_def)
  next
    case (Inr u)
    let ?s = "s\<lparr>o_maps := mapped ops True ?A\<rparr>"
    have o1: "owns ?s w1" "unborn w1" "lnk w1 = pool_install True (ring_entries tf) (lnk w)"
      using 1 Inr assms(3) by simp_all
    obtain r2 w2 where c2: "tbframe_link_alloc_pool ops tf mem False w1 = (r2, w2)" by fastforce
    have no: "\<forall>j. (False, j) \<notin> o_maps ?s" by (auto simp: mapped_def)
    note 2 = alloc_pool_owns [OF o1(1,2) no assms(4) c2]
    show ?thesis
    proof (cases r2)
      case r2: (Inr u')
      then show ?thesis using 2 c1 c2 Inr o1 assms(5) by (auto simp: create_pools_def)
    next
      case r2: (Inl e)
      then have o2: "owns ?s w2" "unborn w2" "lnk w2 = lnk w1" using 2 by simp_all
      have n: "tx_frame_count (lnk w2) = ring_entries tf" "rx_frame_count (lnk w2) = 0"
        using o2(3) o1(3) assms(6) by (simp_all add: pool_install_def)
      let ?w3 = "unmap_frames ops True [0..<unat (ring_entries tf)] w2"
      have "owns (?s\<lparr>o_maps := o_maps ?s - mapped ops True (set [0..<unat (ring_entries tf)])\<rparr>) ?w3"
        by (rule unmap_owns [OF o2(1) _ _ assms(4)]) simp_all
      moreover have "s\<lparr>o_maps := {}\<rparr> = s" using assms(3) by simp
      ultimately have o3: "owns s ?w3" by (simp del: ostate.update_convs)
      have "tbframe_link_free_pools ops w2 = unmap_frames ops False [] ?w3"
        by (simp add: tbframe_link_free_pools_def n unmap_keeps(2))
      moreover have "unmap_frames ops False [] ?w3 = ?w3" by (simp add: unmap_frames_def split: option.split)
      ultimately have f: "owns s (tbframe_link_free_pools ops w2)" "unborn (tbframe_link_free_pools ops w2)"
        using o3 unmap_keeps(1) [OF o2(2)] by simp_all
      then show ?thesis using assms(5) c1 c2 Inr r2 by (auto simp: create_pools_def)
    qed
  qed
qed

section \<open>Creation\<close>

lemma new_cookie_nonzero: "tbframe_new_session_cookie r p \<noteq> 0"
  by (simp add: tbframe_new_session_cookie_def Let_def)

lemma created_inv:
  fixes l :: tbframe_link
  assumes "refcnt l = 1" "ctrl_inflight l = 0" "data_inflight l = 0" "ring_posted l = 0" "txq_ctrl l = []" "txq_data l = []"
  shows "link_inv tf 1 (pool_install False n (pool_install True n l))"
proof -
  let ?l = "pool_install False n (pool_install True n l)"
  have "adm_inv tf ?l"
    using assms by (simp add: adm_inv_def tx_lists_ok_def tx_listed_def tx_charge_ok_def tx_counts_ok_def tx_budget_ok_def
        pool_install_def frame_fresh_def list_all_iff comp_def cnt_none)
  moreover have "ref_inv 1 ?l" using assms by (simp add: ref_inv_def pool_install_def)
  moreover have "rx_inv ?l" by (simp add: rx_inv_def pool_install_def frame_fresh_def list_all_iff)
  ultimately show ?thesis by (simp add: link_inv_def pool_inv_def)
qed

text \<open>A fresh link: nothing held of the session's resources, nothing requested.\<close>

definition fresh_session :: "tbframe_link \<Rightarrow> bool" where
  "fresh_session l =
    (lstate l = TBFRAME_STATE_INIT \<and> \<not> removing l \<and> \<not> parked l \<and> \<not> needs_down l \<and> \<not> hello_done l \<and>
     \<not> rings_allocated l \<and> \<not> rings_up l \<and> \<not> paths_enabled l \<and> \<not> paths_owned l \<and> \<not> terminal_handoff l \<and>
     \<not> in_hopid_held l \<and> \<not> up_delivered l \<and> \<not> announce_pending l \<and> \<not> data_proven l)"

lemma fresh_setup: "fresh_session (link_setup route gid c seq (link_zero i))"
  by (simp add: fresh_session_def link_setup_def link_zero_def Let_def tbframe_hello_responder_reset_def
      tbframe_ready_responder_reset_def)

lemma fresh_pools [simp]: "fresh_session (pool_install tx n l) = fresh_session l"
  by (simp add: fresh_session_def pool_install_def)

lemma setup_sel:
  "refcnt (link_setup route gid c seq (link_zero i)) = 1" "ctrl_inflight (link_setup route gid c seq (link_zero i)) = 0"
  "data_inflight (link_setup route gid c seq (link_zero i)) = 0" "ring_posted (link_setup route gid c seq (link_zero i)) = 0"
  "txq_ctrl (link_setup route gid c seq (link_zero i)) = []" "txq_data (link_setup route gid c seq (link_zero i)) = []"
  "local_cookie (link_setup route gid c seq (link_zero i)) = c" "rx_frame_count (link_setup route gid c seq (link_zero i)) = 0"
  by (simp_all add: link_setup_def link_zero_def Let_def tbframe_hello_responder_reset_def tbframe_ready_responder_reset_def)

lemma random_sel [simp]:
  "lnk (snd (get_random_u64 w)) = lnk w" "trace (snd (get_random_u64 w)) = trace w"
  "lnk (snd (get_random_u32 w)) = lnk w" "trace (snd (get_random_u32 w)) = trace w"
  by (simp_all add: get_random_u64_def get_random_u32_def case_prod_beta split: list.split)

lemma fresh_res_inv: "fresh_session l \<Longrightarrow> res_inv l \<and> rs_of l = rs_init"
  by (simp add: fresh_session_def res_inv_def rs_of_def rs_init_def)

lemma fresh_hopid [simp]: "fresh_session (l\<lparr>local_hopid := h\<rparr>) = fresh_session l"
  by (simp add: fresh_session_def)

lemma fresh_kick: "fresh_session l \<Longrightarrow> fresh_session (tbframe_link_kick_locked 0 l) \<and> session_work (tbframe_link_kick_locked 0 l) = Some 0"
  by (simp add: fresh_session_def tbframe_link_kick_locked_def)

definition pools_full :: "tbframe \<Rightarrow> tbframe_link \<Rightarrow> bool" where
  "pools_full tf l = (tx_frame_count l = ring_entries tf \<and> rx_frame_count l = ring_entries tf)"

lemma link_kick_keeps:
  "local_cookie (tbframe_link_kick_locked d x) = local_cookie x" "local_hopid (tbframe_link_kick_locked d x) = local_hopid x"
  "pools_full tf (tbframe_link_kick_locked d x) = pools_full tf x"
  by (simp_all add: tbframe_link_kick_locked_def pools_full_def split: option.split)

definition own_all :: "'h tbframe_hw_ops \<Rightarrow> tbframe \<Rightarrow> nat \<Rightarrow> ostate" where
  "own_all ops tf h =
    \<lparr>o_maps = mapped ops True {0..<unat (ring_entries tf)} \<union> mapped ops False {0..<unat (ring_entries tf)}, o_hop = Some h\<rparr>"

text \<open>The part of the creation after the HopID is held.\<close>

lemma create_pools_wf:
  assumes "owns (own_init\<lparr>o_hop := Some h\<rparr>) w" "unborn w" "maps_paired ops" "create_pools ops tf mem w = (r, w')"
    and l: "lnk w = (link_setup route gid c sq (link_zero i))\<lparr>local_hopid := h\<rparr>"
  shows "case r of
      Inr _ \<Rightarrow> res_ok tf 1 w' \<and> fresh_session (lnk w') \<and> local_cookie (lnk w') = c \<and> local_hopid (lnk w') = h
        \<and> owns (own_all ops tf h) w' \<and> unborn w' \<and> pools_full tf (lnk w')
    | Inl _ \<Rightarrow> owns (own_init\<lparr>o_hop := Some h\<rparr>) w'"
proof -
  have "o_maps (own_init\<lparr>o_hop := Some h\<rparr>) = {}" "rx_frame_count (lnk w) = 0"
    by (simp_all add: own_init_def l setup_sel)
  note 4 = create_pools_owns [OF assms(1,2) this(1) assms(3,4) this(2), unfolded l]
  show ?thesis
  proof (cases r)
    case (Inr u)
    let ?l = "pool_install False (ring_entries tf) (pool_install True (ring_entries tf)
      ((link_setup route gid c sq (link_zero i))\<lparr>local_hopid := h\<rparr>))"
    have l4: "lnk w' = ?l" "unborn w'" using 4 Inr by simp_all
    have f: "fresh_session ?l" "local_cookie ?l = c" "local_hopid ?l = h" "pools_full tf ?l"
      using fresh_setup by (simp, simp_all add: pool_install_def setup_sel pools_full_def)
    have "link_inv tf 1 ?l" by (rule created_inv) (simp_all add: setup_sel)
    then have "res_ok tf 1 w'"
      using l4 fresh_res_inv [OF f(1)] life_spec [of "trace w'"] by (simp add: res_ok_def unborn_def)
    then show ?thesis using 4 f Inr l4 by (simp add: own_init_def own_all_def)
  qed (use 4 in simp)
qed

lemma create_spec:
  assumes "trace w = []" "maps_paired ops" "tbframe_link_create ops tf mem i route gid autostart w = (r, w')"
  shows "case r of
      Inr _ \<Rightarrow> res_ok tf 1 w' \<and> fresh_session (lnk w') \<and> local_cookie (lnk w') \<noteq> 0
        \<and> (autostart \<longrightarrow> session_work (lnk w') = Some 0) \<and> owns (own_all ops tf (local_hopid (lnk w'))) w'
        \<and> unborn w' \<and> pools_full tf (lnk w')
    | Inl _ \<Rightarrow> owns own_init w'"
proof (cases "link_ok mem")
  case False
  then show ?thesis using assms by (auto simp: tbframe_link_create_def owns_def own_init_def)
next
  case True
  define c where "c = tbframe_new_session_cookie (fst (get_random_u64 w)) 0"
  define sq where "sq = fst (get_random_u32 (snd (get_random_u64 w)))"
  define l where "l = link_setup route gid c sq (link_zero i)"
  define w1 where "w1 = (snd (get_random_u32 (snd (get_random_u64 w))))\<lparr>lnk := l\<rparr>"
  obtain d w2 where h: "hw_call (op_alloc_out_hopid ops) OAllocOutHopid w1 = (d, w2)" by fastforce
  have 1: "owns own_init w1" "unborn w1" "lnk w1 = l" using assms(1) by (simp_all add: w1_def owns_def unborn_def)
  have 2: "owns (case d of Inl _ \<Rightarrow> own_init | Inr h \<Rightarrow> own_init\<lparr>o_hop := Some h\<rparr>) w2" "unborn w2" "lnk w2 = l"
    using owns_call [OF 1(1) h] unborn_call [OF 1(2) h] hw_call_sel(1) [OF h] 1(3)
    by (simp_all add: own_init_def split: sum.splits)
  have eq: "tbframe_link_create ops tf mem i route gid autostart w =
      (case d of Inl e \<Rightarrow> (Inl e, w2)
       | Inr h \<Rightarrow> (case create_pools ops tf mem (upd (\<lambda>l. l\<lparr>local_hopid := h\<rparr>) w2) of
                (Inl e, w) \<Rightarrow> (Inl e, hw_do (op_release_out_hopid ops h) (OReleaseOutHopid h) w)
              | (Inr u, w) \<Rightarrow> (Inr u, if autostart then tbframe_link_kick 0 w else w)))"
    using True h by (simp add: tbframe_link_create_def case_prod_beta Let_def w1_def l_def c_def sq_def split: sum.split)
  show ?thesis
  proof (cases d)
    case (Inl e)
    then show ?thesis using assms(3) eq 2 by auto
  next
    case (Inr hop)
    obtain r4 w4 where p: "create_pools ops tf mem (upd (\<lambda>l. l\<lparr>local_hopid := hop\<rparr>) w2) = (r4, w4)" by fastforce
    note 4 = create_pools_wf [OF _ _ assms(2) p, of hop route gid c sq i]
    show ?thesis
    proof (cases r4)
      case r4: (Inl e)
      then have "owns own_init (hw_do (op_release_out_hopid ops hop) (OReleaseOutHopid hop) w4)"
        using 2 4 Inr owns_do [of "own_init\<lparr>o_hop := Some hop\<rparr>" w4 "OReleaseOutHopid hop" own_init]
        by (simp add: own_init_def l_def)
      then show ?thesis using assms(3) eq Inr p r4 by auto
    next
      case r4: (Inr u)
      have w': "w' = (if autostart then upd (tbframe_link_kick_locked 0) w4 else w4)" "r = Inr u"
        using assms(3) eq Inr p r4 by (auto simp: tbframe_link_kick_def)
      have ok: "res_ok tf 1 w4" "fresh_session (lnk w4)" "local_cookie (lnk w4) = c" "owns (own_all ops tf (local_hopid (lnk w4))) w4" "unborn w4" "pools_full tf (lnk w4)"
        using 2 4 Inr r4 by (simp_all add: l_def)
      have "res_ok tf 1 (upd (tbframe_link_kick_locked 0) w4)"
        using ok(1) res_ok_kick [of tf 1 0 w4] by (simp add: tbframe_link_kick_def)
      then show ?thesis
        using ok fresh_kick [OF ok(2)] new_cookie_nonzero r4 by (simp add: w' c_def link_kick_keeps)
    qed
  qed
qed

text \<open>C14: Creating a link either succeeds, and then the new link satisfies the pool, reference and
  resource invariants with one reference, is in its initial state with a non-zero session cookie,
  its session work is queued when the link starts by itself, every frame of both pools is mapped
  and the egress HopID is held, and no other hardware call or upcall was made; or it fails, and then every frame mapped on the way is unmapped
  exactly once and the HopID, if allocated, is given back.\<close>

theorem link_create_wf:
  assumes "trace w = []" "maps_paired ops" "tbframe_link_create ops tf mem i route gid autostart w = (r, w')"
  shows "case r of
      Inr _ \<Rightarrow> res_ok tf 1 w' \<and> fresh_session (lnk w') \<and> local_cookie (lnk w') \<noteq> 0
        \<and> (autostart \<longrightarrow> session_work (lnk w') = Some 0) \<and> owns (own_all ops tf (local_hopid (lnk w'))) w'
        \<and> unborn w' \<and> pools_full tf (lnk w')
    | Inl _ \<Rightarrow> owns own_init w'"
  by (rule create_spec [OF assms])

definition mem_sample :: allocator where
  "mem_sample = \<lparr>link_ok = True, array_ok = (\<lambda>_. True), data_ok = (\<lambda>tx i. tx \<or> i \<noteq> 1)\<rparr>"

theorem link_create_wf_witness:
  "\<exists>w'. tbframe_link_create hw_accept (tf_sample\<lparr>ring_entries := 2\<rparr>) mem_sample 1 2 3 True (world_of link_sample) = (Inl ENOMEM, w')
     \<and> owns own_init w' \<and> length (trace w') = 8"
proof -
  obtain r w' where e: "tbframe_link_create hw_accept (tf_sample\<lparr>ring_entries := 2\<rparr>) mem_sample 1 2 3 True (world_of link_sample) = (r, w')"
    by fastforce
  have "r = Inl ENOMEM" "length (trace w') = 8"
    using e by (auto simp: tbframe_link_create_def create_pools_def tbframe_link_alloc_pool_def tbframe_link_free_pools_def
        unmap_frames_def mem_sample_def sample_defs get_random_u32_def get_random_u64_def hw_call_def hw_do_def upd_def
        pool_install_def upt_rec obs_def Let_def setup_sel)
  then show ?thesis using link_create_wf [OF _ _ e] e by (auto simp: maps_paired_def sample_defs)
qed

end
