(* ===== verification/Tbframe_Client.thy ===== *)
theory Tbframe_Client
  imports Tbframe_Lifecycle
begin

text \<open>
  What a link's client and its owner see over the life of the link: the up and down upcalls, and the
  runs of a link between its creation and its destruction.

  Shown: the requester, bring-up and teardown make no other upcall and touch no mapping; along every
  run of a link the hardware calls follow the resource automaton, the upcalls are bracketed, and a
  dead link stays dead. The locale \<open>link_closed\<close> carries an invariant through all steps of a run.
\<close>

section \<open>The edges of the trace\<close>

text \<open>Upcalls that bracket a link for its client, and calls that bracket the link's own life.\<close>

fun edge :: "obs \<Rightarrow> bool" where
  "edge (OLinkUp _) = True"
| "edge (OLinkDown _) = True"
| "edge (OMapFrame _ _ _) = True"
| "edge (OUnmapFrame _ _) = True"
| "edge (OAllocOutHopid _) = True"
| "edge (OReleaseOutHopid _) = True"
| "edge _ = False"

definition link_edges :: "tbframe_link \<Rightarrow> bool \<times> nat \<times> u16 \<times> u16" where
  "link_edges l = (up_delivered l, local_hopid l, tx_frame_count l, rx_frame_count l)"

definition edges :: "'h world \<Rightarrow> obs list \<times> bool \<times> nat \<times> u16 \<times> u16" where
  "edges w = (filter edge (trace w), link_edges (lnk w))"

lemma edges_sel:
  "edges w' = edges w \<Longrightarrow> filter edge (trace w') = filter edge (trace w) \<and>
     up_delivered (lnk w') = up_delivered (lnk w) \<and> local_hopid (lnk w') = local_hopid (lnk w)"
  by (simp add: edges_def link_edges_def)

lemma env_not_edge: "env_obs r x \<Longrightarrow> \<not> edge x"
  by (cases x) simp_all

lemma env_edges: "list_all (env_obs r) xs \<Longrightarrow> filter edge xs = []"
  by (auto simp: list_all_iff env_not_edge filter_empty_conv)

lemma edges_interfere [simp]: "edges (interfere ops tf w) = edges w"
proof -
  obtain xs where xs: "trace (interfere ops tf w) = trace w @ xs" "list_all (env_obs (rings_up (lnk w))) xs"
    by (rule interfere_trace)
  then show ?thesis by (simp add: edges_def env_edges link_edges_def)
qed

lemma edges_env_run:
  "env_run r w w' \<Longrightarrow> session_view (lnk w') = session_view (lnk w) \<Longrightarrow> edges w' = edges w"
  using session_viewD(17,21,22,25) [of "lnk w'" "lnk w"] by (auto simp: env_run_def edges_def env_edges link_edges_def)

lemma edges_call [simp]: "\<not> edge (ob (fst (hw_call f ob w))) \<Longrightarrow> edges (snd (hw_call f ob w)) = edges w"
  by (simp add: edges_def hw_call_snd)

lemma edges_do [simp]: "\<not> edge ob \<Longrightarrow> edges (hw_do f ob w) = edges w"
  by (simp add: edges_def)

lemma edges_obs: "edges (obs x w) = (if edge x then (fst (edges w) @ [x], snd (edges w)) else edges w)"
  by (simp add: edges_def)

lemma edges_run [simp]: "\<not> edge ob \<Longrightarrow> edges (hw_run ops tf f ob w) = edges w"
  by (simp add: hw_run_def)

lemma edges_rng [simp]: "edges (snd (get_random_u64 w)) = edges w"
  by (simp add: edges_def)

definition keeps_edges :: "(tbframe_link \<Rightarrow> tbframe_link) \<Rightarrow> bool" where
  "keeps_edges f = (\<forall>l. link_edges (f l) = link_edges l)"

lemma edges_upd: "keeps_edges f \<Longrightarrow> edges (upd f w) = edges w"
  by (simp add: edges_def keeps_edges_def)

lemma edges_lnk: "keeps_edges f \<Longrightarrow> edges (w\<lparr>lnk := f (lnk w)\<rparr>) = edges w"
  by (simp add: edges_def keeps_edges_def)

lemma calm_edges: "calm f \<Longrightarrow> keeps_edges f"
  using session_viewD(17,21,22,25) [OF calmD(2)] by (simp add: keeps_edges_def link_edges_def)

lemmas keeps_calm = calm_facts [THEN calm_edges]

lemma named_edges [simp]:
  "link_edges (tbframe_link_kick_locked d l) = link_edges l" "link_edges (tbframe_ready_responder_reset l) = link_edges l"
  "link_edges (tbframe_hello_responder_reset l) = link_edges l" "link_edges (request_down_once r l) = link_edges l"
  "link_edges (rxf i g l) = link_edges l"
  by (simp_all add: link_edges_def request_down_once_def request_down_def tbframe_link_kick_locked_def rxf_def
      tbframe_ready_responder_reset_def tbframe_hello_responder_reset_def split: option.split)

lemmas named_fields [simp] = named_edges [unfolded link_edges_def prod.inject]

lemma keeps_requester:
  "keeps_edges (\<lambda>l. snd (tbframe_link_next_request_seq l))" "keeps_edges (\<lambda>l. snd (hello_accept h l))"
  "keeps_edges (stale_recheck ret)" "keeps_edges (\<lambda>l. snd (probe_account l))" "keeps_edges probe_exhausted"
  "keeps_edges (tbframe_link_kick_locked d)"
  by (auto simp: keeps_edges_def link_edges_def tbframe_link_next_request_seq_def hello_accept_def tbframe_link_apply_remote_locked_def
      stale_recheck_def probe_account_def probe_exhausted_def Let_def split: sum.split)

lemma keeps_session:
  "keeps_edges bring_up_reset" "keeps_edges (post_take i rest)" "keeps_edges (bring_up_commit tf b)"
  "keeps_edges quarantine_commit" "keeps_edges up_commit" "keeps_edges (tbframe_frame_putback_rx i)"
  "keeps_edges (\<lambda>l. (down_close owner c l)\<lparr>verify_timer := None\<rparr>)"
  by (simp_all add: keeps_edges_def link_edges_def bring_up_reset_def post_take_def rxf_def bring_up_commit_def quarantine_commit_def
      up_commit_def tbframe_frame_putback_rx_def down_close_def tbframe_link_put_def Let_def)

lemma keeps_fields:
  "keeps_edges (\<lambda>l. l\<lparr>hello_selection_pending := b, hello_selection_caps := cc\<rparr>)"
  "keeps_edges (\<lambda>l. l\<lparr>data_proof_unavailable_warned := b\<rparr>)" "keeps_edges (\<lambda>l. l\<lparr>announce_pending := b\<rparr>)"
  "keeps_edges (\<lambda>l. l\<lparr>lstate := s\<rparr>)" "keeps_edges (\<lambda>l. l\<lparr>paths_owned := b\<rparr>)" "keeps_edges (\<lambda>l. l\<lparr>rings_allocated := b\<rparr>)"
  "keeps_edges (\<lambda>l. l\<lparr>rings_allocated := b, in_hopid_held := c\<rparr>)" "keeps_edges (\<lambda>l. l\<lparr>active_remote_hopid := h, in_hopid_held := b\<rparr>)"
  "keeps_edges (\<lambda>l. l\<lparr>paths_enabled := b, paths_owned := c, in_hopid_held := d\<rparr>)" "keeps_edges (\<lambda>l. l\<lparr>tx_quiesced := b\<rparr>)"
  "keeps_edges (\<lambda>l. l\<lparr>txq_ctrl := xs, txq_data := ys\<rparr>)" "keeps_edges (\<lambda>l. l\<lparr>hs := g (hs l)\<rparr>)"
  "keeps_edges (\<lambda>l. l\<lparr>hello_attempts := n\<rparr>)" "keeps_edges (\<lambda>l. l\<lparr>session_work := x\<rparr>)" "keeps_edges (\<lambda>l. l\<lparr>removing := b\<rparr>)"
  "keeps_edges (\<lambda>l. l\<lparr>parked := b\<rparr>)" "keeps_edges (\<lambda>l. l\<lparr>last_reannounce := t\<rparr>)"
  by (simp_all add: keeps_edges_def link_edges_def)

lemmas edges_simps [simp] =
  keeps_calm [THEN edges_upd] keeps_requester [THEN edges_upd] keeps_session [THEN edges_upd] keeps_fields [THEN edges_upd]
  keeps_requester [THEN edges_lnk]

lemma lstate_run [simp]:
  "lstate (lnk (hw_run ops tf f ob w)) = lstate (lnk w)" "lstate (lnk (snd (hw_call g ob2 w))) = lstate (lnk w)"
  by (simp_all add: hw_run_def)

lemmas lstate_soft [simp] = calm_facts [THEN calmD(2), THEN session_viewD(1)]
  soft_hello [THEN softD(2), THEN res_viewD(1)] soft_requester [THEN softD(2), THEN res_viewD(1)]

section \<open>The requester makes no edge\<close>

lemma edges_kick [simp]: "edges (tbframe_link_kick d w) = edges w" "lstate (lnk (tbframe_link_kick d w)) = lstate (lnk w)"
  by (simp_all add: tbframe_link_kick_def)

lemma edges_exchange [simp]: "edges (snd (control_exchange ops tf req t w)) = edges w" "lstate (lnk (snd (control_exchange ops tf req t w))) = lstate (lnk w)"
  by (simp_all add: control_exchange_def case_prod_beta split: sum.split)

lemma edges_query [simp]: "edges (snd (tbframe_link_query_hello ops tf w)) = edges w" "lstate (lnk (snd (tbframe_link_query_hello ops tf w))) = lstate (lnk w)"
  by (simp_all add: tbframe_link_query_hello_def Let_def case_prod_beta split: sum.split)

lemma edges_rounds [simp]: "edges (snd (hello_rounds n ops tf w)) = edges w" "lstate (lnk (snd (hello_rounds n ops tf w))) = lstate (lnk w)"
proof -
  have "edges (snd (hello_rounds n ops tf w)) = edges w \<and> lstate (lnk (snd (hello_rounds n ops tf w))) = lstate (lnk w)"
  proof (induction n arbitrary: w)
    case (Suc n)
    then show ?case using edges_query [of ops tf w] by (simp add: Let_def case_prod_beta split: sum.split)
  qed simp
  then show "edges (snd (hello_rounds n ops tf w)) = edges w" "lstate (lnk (snd (hello_rounds n ops tf w))) = lstate (lnk w)"
    by simp_all
qed

lemma edges_hello_once [simp]: "edges (snd (tbframe_link_hello_once ops tf w)) = edges w" "lstate (lnk (snd (tbframe_link_hello_once ops tf w))) = lstate (lnk w)"
  by (simp_all add: tbframe_link_hello_once_def case_prod_beta split: sum.split)

lemma edges_revalidate [simp]: "edges (tbframe_link_revalidate_stale_data ops tf w) = edges w" "lstate (lnk (tbframe_link_revalidate_stale_data ops tf w)) = lstate (lnk w)"
  by (simp_all add: tbframe_link_revalidate_stale_data_def case_prod_beta)

lemma edges_ready_once [simp]: "edges (snd (tbframe_link_ready_once ops tf w)) = edges w" "lstate (lnk (snd (tbframe_link_ready_once ops tf w))) = lstate (lnk w)"
  by (simp_all add: tbframe_link_ready_once_def Let_def case_prod_beta edges_upd keeps_edges_def link_edges_def split: sum.split)

lemma edges_bye_loop [simp]: "edges (bye_loop n ops tf req sq w) = edges w" "lstate (lnk (bye_loop n ops tf req sq w)) = lstate (lnk w)"
proof -
  have "edges (bye_loop n ops tf req sq w) = edges w \<and> lstate (lnk (bye_loop n ops tf req sq w)) = lstate (lnk w)"
  proof (induction n arbitrary: w)
    case (Suc n)
    then show ?case by (simp add: case_prod_beta split: sum.split)
  qed simp
  then show "edges (bye_loop n ops tf req sq w) = edges w" "lstate (lnk (bye_loop n ops tf req sq w)) = lstate (lnk w)"
    by simp_all
qed

lemma edges_bye [simp]: "edges (tbframe_link_bye ops tf w) = edges w" "lstate (lnk (tbframe_link_bye ops tf w)) = lstate (lnk w)"
  by (simp_all add: tbframe_link_bye_def Let_def case_prod_beta split: sum.split)

lemma edges_send [simp]: "edges (snd (tbframe_link_send_keepalive ops tf pre_up w)) = edges w" "lstate (lnk (snd (tbframe_link_send_keepalive ops tf pre_up w))) = lstate (lnk w)"
  by (rule edges_env_run [where r = True]) (simp_all add: env_run_send session_tx.view_send session_viewD(1) [OF session_tx.view_send])

lemma edges_prove [simp]: "edges (snd (tbframe_link_prove_data_path ops tf w)) = edges w" "lstate (lnk (snd (tbframe_link_prove_data_path ops tf w))) = lstate (lnk w)"
  by (simp_all add: tbframe_link_prove_data_path_def Let_def case_prod_beta)

lemma edges_reply [simp]: "edges (snd (tbframe_link_reply ops tf op caps sq xs w)) = edges w" "lstate (lnk (snd (tbframe_link_reply ops tf op caps sq xs w))) = lstate (lnk w)"
  by (rule edges_env_run [where r = True]) simp_all

lemma edges_flush_ready [simp]: "edges (snd (tbframe_link_flush_ready_response (interfere ops tf) ops tf w)) = edges w" "lstate (lnk (snd (tbframe_link_flush_ready_response (interfere ops tf) ops tf w))) = lstate (lnk w)"
  by (simp_all add: tbframe_link_flush_ready_response_def Let_def case_prod_beta split: sum.split)

lemma edges_reannounce [simp]: "edges (tbframe_link_reannounce ops w) = edges w" "lstate (lnk (tbframe_link_reannounce ops w)) = lstate (lnk w)"
  by (simp_all add: tbframe_link_reannounce_def Let_def case_prod_beta split: option.split)

lemma edges_failed [simp]: "edges (hello_failed ops w) = edges w" "edges (ready_failed ops w) = edges w"
  "lstate (lnk (hello_failed ops w)) = lstate (lnk w)" "lstate (lnk (ready_failed ops w)) = lstate (lnk w)"
  by (simp_all add: hello_failed_def ready_failed_def Let_def)

section \<open>Bring-up and teardown\<close>

lemma post_keeps:
  "edges (snd (bring_up_post ops tf w)) = edges w \<and> lstate (lnk (snd (bring_up_post ops tf w))) = lstate (lnk w)"
proof (induction ops tf w rule: bring_up_post.induct)
  case (1 ops tf w)
  show ?case
  proof (cases "rx_free (lnk w)")
    case (Cons i rest)
    let ?c = "hw_call (op_post_rx ops i) (OPostRx i) (upd (post_take i rest) w)"
    have c: "edges (snd ?c) = edges w" "lstate (lnk (snd ?c)) = lstate (lnk w)"
      by (simp_all add: post_take_def rxf_def)
    show ?thesis
    proof (cases "fst ?c")
      case (Inl e)
      then show ?thesis
        using Cons c by (subst (1 2) bring_up_post.simps) (simp add: case_prod_beta tbframe_frame_putback_rx_def tbframe_link_put_def)
    next
      case (Inr u)
      let ?w = "interfere ops tf (snd ?c)"
      have "edges (snd (bring_up_post ops tf ?w)) = edges ?w \<and> lstate (lnk (snd (bring_up_post ops tf ?w))) = lstate (lnk ?w)"
        by (rule 1 [OF Cons]) (use Inr in \<open>simp_all add: prod_eq_iff\<close>)
      then show ?thesis using Cons c Inr by (subst (1 2) bring_up_post.simps) (simp add: case_prod_beta)
    qed
  qed (subst (1 2) bring_up_post.simps, simp)
qed

lemmas edges_post [simp] = post_keeps [THEN conjunct1] post_keeps [THEN conjunct2]

lemma edges_free_stop [simp]:
  "edges (bring_up_free ops tf h w) = edges w" "edges (bring_up_stop ops tf h w) = edges w"
  "lstate (lnk (bring_up_free ops tf h w)) = lstate (lnk w)" "lstate (lnk (bring_up_stop ops tf h w)) = lstate (lnk w)"
  by (simp_all add: bring_up_free_def bring_up_stop_def Let_def)

lemma edges_quarantine [simp]: "edges (snd (tbframe_link_quarantine_paths ops tf h w)) = edges w"
  by (simp add: tbframe_link_quarantine_paths_def case_prod_beta split: option.split sum.split)

lemma edges_cancel [simp]: "edges (tbframe_core_tx_complete ops tf i c w) = edges w" "lstate (lnk (tbframe_core_tx_complete ops tf i c w)) = lstate (lnk w)"
proof -
  have v: "session_view (lnk (tbframe_core_tx_complete ops tf i c w)) = session_view (lnk w)" by simp
  show "edges (tbframe_core_tx_complete ops tf i c w) = edges w"
    by (rule edges_env_run [where r = True]) (simp_all add: env_run_tx)
  show "lstate (lnk (tbframe_core_tx_complete ops tf i c w)) = lstate (lnk w)" by (rule session_viewD(1) [OF v])
qed

lemma edges_cancels [simp]: "edges (fold (\<lambda>q. tbframe_core_tx_complete ops tf q c) qs w) = edges w" "lstate (lnk (fold (\<lambda>q. tbframe_core_tx_complete ops tf q c) qs w)) = lstate (lnk w)"
  by (induction qs arbitrary: w) simp_all

lemma edges_flush_quiesce [simp]: "edges (down_flush ops tf w) = edges w" "edges (down_quiesce ops tf b w) = edges w"
  "lstate (lnk (down_flush ops tf w)) = lstate (lnk w)" "lstate (lnk (down_quiesce ops tf b w)) = lstate (lnk w)"
  by (simp_all add: down_flush_def down_quiesce_def Let_def split: option.split)

lemma edges_drain: "publisher_drain ops tf t d w = Some (b, w') \<Longrightarrow> edges w' = edges w"
proof (induction ops tf t d w rule: publisher_drain.induct)
  case (1 ops tf t d w)
  then show ?case
    by (subst (asm) (2) publisher_drain.simps) (auto split: if_splits list.splits)
qed

lemma drain_state: "publisher_drain ops tf t d w = Some (b, w') \<Longrightarrow> lstate (lnk w') = lstate (lnk w)"
proof (induction ops tf t d w rule: publisher_drain.induct)
  case (1 ops tf t d w)
  then show ?case
    by (subst (asm) (2) publisher_drain.simps) (auto split: if_splits list.splits)
qed

lemma edges_disconnect [simp]: "edges (snd (down_disconnect ops tf l0 w)) = edges w" "lstate (lnk (snd (down_disconnect ops tf l0 w))) = lstate (lnk w)"
  by (simp_all add: down_disconnect_def Let_def case_prod_beta)

lemma edges_settle [simp]: "edges (snd (down_settle ops tf l0 ret reason w)) = edges w"
  by (simp add: down_settle_def Let_def case_prod_beta split: sum.split)

lemma edges_release [simp]: "edges (down_release ops tf l0 ret terminal w) = edges w" "lstate (lnk (down_release ops tf l0 ret terminal w)) = lstate (lnk w)"
  by (simp_all add: down_release_def Let_def)

lemma edges_rekick [simp]: "edges (down_rekick reason w) = edges w" "lstate (lnk (down_rekick reason w)) = lstate (lnk w)"
  by (simp_all add: down_rekick_def)

section \<open>Upcalls are bracketed\<close>

text \<open>The client's view: whether it holds a record of the link. A down upcall needs a record, and a
  terminal one ends it.\<close>

fun brk_step :: "bool \<Rightarrow> obs \<Rightarrow> bool option" where
  "brk_step b (OLinkUp _) = Some True"
| "brk_step b (OLinkDown r) = (if b then Some (\<not> down_terminal r) else None)"
| "brk_step b _ = Some b"

definition client_full :: "tbframe \<Rightarrow> bool" where
  "client_full tf = (case client_ops tf of None \<Rightarrow> False | Some c \<Rightarrow> has_link_up c \<and> has_link_down c)"

definition bracketed :: "'h world \<Rightarrow> bool" where
  "bracketed w =
    (spec_run brk_step False (trace w) = Some (up_delivered (lnk w)) \<and>
     (lstate (lnk w) = TBFRAME_STATE_UP \<longrightarrow> up_delivered (lnk w)))"

lemma brk_filter: "spec_run brk_step s xs = spec_run brk_step s (filter edge xs)"
proof (induction xs rule: rev_induct)
  case (snoc x xs)
  have "\<not> edge x \<Longrightarrow> brk_step b x = Some b" for b by (cases x) simp_all
  then show ?case using snoc by (cases "spec_run brk_step s (filter edge xs)") simp_all
qed simp

lemma bracketed_cong:
  assumes "edges w' = edges w" "lstate (lnk w') = TBFRAME_STATE_UP \<longrightarrow> lstate (lnk w) = TBFRAME_STATE_UP" "bracketed w"
  shows "bracketed w'"
proof -
  have e: "spec_run brk_step False (trace w') = spec_run brk_step False (trace w)" "up_delivered (lnk w') = up_delivered (lnk w)"
    using edges_sel [OF assms(1)] brk_filter [of False "trace w"] brk_filter [of False "trace w'"] by simp_all
  show ?thesis using assms(2,3) by (simp add: bracketed_def e)
qed

lemma bracketed_notify:
  assumes "client_full tf" "spec_run brk_step False (trace w) = Some (up_delivered (lnk w))"
    "was_up \<longrightarrow> up_delivered (lnk w)" "terminal = down_terminal reason" "lstate (lnk w) \<noteq> TBFRAME_STATE_UP"
  shows "bracketed (tbframe_link_notify_down ops tf reason was_up terminal w)"
proof -
  obtain c where c: "client_ops tf = Some c" "has_link_down c" using assms(1) by (auto simp: client_full_def split: option.splits)
  let ?w = "if terminal then upd (\<lambda>l. l\<lparr>up_delivered := False\<rparr>) w else w"
  show ?thesis
  proof (cases "was_up \<or> up_delivered (lnk w) \<and> terminal")
    case True
    then have "bracketed (obs (OLinkDown reason) ?w)" using assms by (auto simp: bracketed_def)
    then have "bracketed (interfere ops tf (obs (OLinkDown reason) ?w))"
      by (rule bracketed_cong [rotated 2]) simp_all
    then show ?thesis using True c by (simp add: tbframe_link_notify_down_def)
  next
    case False
    then show ?thesis using assms by (auto simp: tbframe_link_notify_down_def bracketed_def)
  qed
qed

lemma bracketed_deliver:
  assumes "client_full tf" "spec_run brk_step False (trace w) \<noteq> None"
  shows "bracketed (up_deliver ops tf w)"
proof -
  obtain c where c: "client_ops tf = Some c" "has_link_up c" using assms(1) by (auto simp: client_full_def split: option.splits)
  let ?w = "tbframe_link_deliver_up ops tf (tbframe_link_fill_info_locked (lnk w)) w"
  obtain i where w: "?w = obs (OLinkUp i) w" using c by (simp add: tbframe_link_deliver_up_def Let_def)
  have "spec_run brk_step False (trace (interfere ops tf ?w)) = Some True"
    using edges_sel [OF edges_interfere [of ops tf ?w]] assms(2) by (subst brk_filter) (auto simp: w brk_filter [symmetric])
  then show ?thesis by (simp add: up_deliver_def bracketed_def rearm_verify_timer_def)
qed

lemma edges_run_spec:
  "edges w' = edges w \<Longrightarrow> spec_run brk_step False (trace w) = Some (up_delivered (lnk w)) \<Longrightarrow>
    spec_run brk_step False (trace w') = Some (up_delivered (lnk w'))"
  using edges_sel [of w' w] brk_filter [of False "trace w"] brk_filter [of False "trace w'"] by simp

lemma quarantine_state:
  "lstate (lnk w) \<noteq> TBFRAME_STATE_UP \<Longrightarrow>
    lstate (lnk (snd (tbframe_link_quarantine_paths ops tf h w))) \<noteq> TBFRAME_STATE_UP"
  by (simp add: tbframe_link_quarantine_paths_def case_prod_beta quarantine_commit_def split: option.split sum.split)

lemma bracketed_rollback:
  assumes "client_full tf" "bracketed w" "lstate (lnk w) \<noteq> TBFRAME_STATE_UP"
  shows "bracketed (snd (bring_up_rollback ops tf h w))"
proof -
  define w1 where "w1 = upd (\<lambda>l. l\<lparr>paths_owned := True\<rparr>) w"
  define d where "d = hw_wait ops tf (op_disable_paths ops (local_hopid (lnk w1)) h) (ODisablePaths (local_hopid (lnk w1)) h) w1"
  define w2 where "w2 = hw_run ops tf (op_stop_rings ops) OStopRings (snd d)"
  define q where "q = tbframe_link_quarantine_paths ops tf h w2"
  define w3 where "w3 = (if fst q then snd q else upd (\<lambda>l. l\<lparr>lstate := TBFRAME_STATE_DEAD\<rparr>) (snd q))"
  define w4 where "w4 = bring_up_free ops tf h (upd (\<lambda>l. l\<lparr>paths_owned := False\<rparr>) w2)"
  have e: "edges w3 = edges w" "edges w4 = edges w" "lstate (lnk w2) \<noteq> TBFRAME_STATE_UP" "lstate (lnk w4) \<noteq> TBFRAME_STATE_UP"
    using assms(3) by (simp_all add: w3_def w4_def q_def w2_def d_def w1_def)
  have "lstate (lnk w3) \<noteq> TBFRAME_STATE_UP" using quarantine_state [OF e(3), of ops tf h] by (simp add: w3_def q_def)
  then have "bracketed (tbframe_link_notify_down ops tf TBFRAME_DOWN_DEAD_HW False True w3)"
    using assms(2) edges_run_spec [OF e(1)] by (intro bracketed_notify assms(1)) (simp_all add: bracketed_def down_terminal_def)
  moreover have "bracketed w4" using bracketed_cong [OF e(2) _ assms(2)] e(4) by blast
  moreover have "snd (bring_up_rollback ops tf h w) = (case fst d of
      Inl _ \<Rightarrow> tbframe_link_notify_down ops tf TBFRAME_DOWN_DEAD_HW False True w3 | Inr _ \<Rightarrow> w4)"
    unfolding bring_up_rollback_def Let_def case_prod_beta w1_def [symmetric] d_def [symmetric] w2_def [symmetric]
      q_def [symmetric] w3_def [symmetric] w4_def [symmetric]
    by (simp split: sum.split)
  ultimately show ?thesis by (simp split: sum.split)
qed

lemma bracketed_bring_up:
  assumes "client_full tf" "bracketed w" "lstate (lnk w) \<noteq> TBFRAME_STATE_UP"
  shows "bracketed (snd (tbframe_link_bring_up ops tf w))"
proof -
  have k: "bracketed w' \<and> lstate (lnk w') \<noteq> TBFRAME_STATE_UP" if "edges w' = edges w" "lstate (lnk w') = lstate (lnk w)" for w' :: "'a world"
    using bracketed_cong [OF that(1) _ assms(2)] assms(3) that(2) by simp
  have enable: "bracketed (snd (bring_up_enable ops tf h b w'))" if "edges w' = edges w" "lstate (lnk w') = lstate (lnk w)" for w' h b
  proof -
    let ?e = "hw_wait ops tf (op_enable_paths ops (local_hopid (lnk w')) h) (OEnablePaths (local_hopid (lnk w')) h) w'"
    have w: "edges (snd ?e) = edges w" "lstate (lnk (snd ?e)) = lstate (lnk w)" using that by simp_all
    have "bracketed (snd (bring_up_rollback ops tf h (snd ?e)))" using bracketed_rollback [OF assms(1)] k [OF w] by blast
    moreover have "bracketed (upd (bring_up_commit tf b) (snd ?e))" "bracketed (bring_up_stop ops tf h (snd ?e))"
      using w by (simp_all add: k bring_up_commit_def Let_def)
    ultimately show ?thesis by (simp add: bring_up_enable_def case_prod_beta split: sum.split)
  qed
  have r: "lstate (bring_up_reset l) = lstate l" for l by (simp add: bring_up_reset_def)
  show ?thesis
    by (simp add: tbframe_link_bring_up_def Let_def case_prod_beta k enable r split: sum.split)
qed

lemma settle_state:
  assumes "lstate (lnk w) \<noteq> TBFRAME_STATE_UP" "down_settle ops tf l0 ret reason w = ((ret', reason', terminal), w')"
  shows "lstate (lnk w') \<noteq> TBFRAME_STATE_UP \<and> terminal = down_terminal reason'"
proof -
  let ?d = "upd (\<lambda>l. l\<lparr>lstate := TBFRAME_STATE_DEAD\<rparr>) w"
  have "lstate (lnk (snd (tbframe_link_quarantine_paths ops tf (active_remote_hopid l0) ?d))) \<noteq> TBFRAME_STATE_UP"
    by (rule quarantine_state) simp
  then show ?thesis
    using assms by (auto simp: down_settle_def Let_def case_prod_beta down_terminal_def split: sum.splits if_splits)
qed

lemma bracketed_down_rest:
  assumes "client_full tf" "spec_run brk_step False (trace w) = Some (up_delivered (lnk w))"
    "lstate l0 = TBFRAME_STATE_UP \<longrightarrow> up_delivered (lnk w)" "lstate (lnk w) \<noteq> TBFRAME_STATE_UP"
  shows "bracketed (snd (down_rest ops tf l0 reason drained w))"
proof -
  define r1 where "r1 = (if drained then reason else TBFRAME_DOWN_DEAD_HW)"
  define w1 where "w1 = (if drained then w else upd (\<lambda>l. l\<lparr>lstate := TBFRAME_STATE_DEAD\<rparr>) w)"
  define w2 where "w2 = down_quiesce ops tf (rings_up l0) (down_flush ops tf w1)"
  define w3 where "w3 = (if down_bye_due tf r1 l0 then tbframe_link_bye ops tf w2 else w2)"
  obtain d w4 where d: "down_disconnect ops tf l0 w3 = (d, w4)" by fastforce
  obtain r reason' terminal w5 where s: "down_settle ops tf l0 d r1 w4 = ((r, reason', terminal), w5)" by (metis prod.collapse)
  define w6 where "w6 = down_release ops tf l0 r terminal w5"
  have e3: "edges w3 = edges w" "lstate (lnk w3) \<noteq> TBFRAME_STATE_UP"
    using assms(4) by (simp_all add: w3_def w2_def w1_def)
  then have e4: "edges w4 = edges w" "lstate (lnk w4) \<noteq> TBFRAME_STATE_UP"
    using edges_disconnect [of ops tf l0 w3] d by simp_all
  then have e5: "edges w5 = edges w" using edges_settle [of ops tf l0 d r1 w4] s by simp
  then have e6: "edges w6 = edges w" "lstate (lnk w6) \<noteq> TBFRAME_STATE_UP" "terminal = down_terminal reason'"
    using settle_state [OF e4(2) s] by (simp_all add: w6_def)
  have b: "bracketed (tbframe_link_notify_down ops tf reason' (lstate l0 = TBFRAME_STATE_UP) terminal w6)"
    using edges_run_spec [OF e6(1) assms(2)] edges_sel [OF e6(1)] assms(3) e6(2,3)
    by (intro bracketed_notify assms(1)) simp_all
  have "snd (down_rest ops tf l0 reason drained w) =
      down_rekick reason' (tbframe_link_notify_down ops tf reason' (lstate l0 = TBFRAME_STATE_UP) terminal w6)"
    using d s unfolding w6_def w3_def w2_def w1_def r1_def
    by (cases drained; cases "down_bye_due tf r1 l0") (simp_all add: down_rest_def Let_def r1_def)
  then show ?thesis using b bracketed_cong [OF edges_rekick(1)] by simp
qed

lemma bracketed_down:
  assumes "client_full tf" "bracketed w" "tbframe_link_down_session ops tf reason owner w = Some (ret, w')"
  shows "bracketed w'"
proof -
  define c where "c = tbframe_new_session_cookie (fst (get_random_u64 w)) (local_cookie (lnk w))"
  define w1 where "w1 = interfere ops tf (upd (\<lambda>l. (down_close owner c l)\<lparr>verify_timer := None\<rparr>) (snd (get_random_u64 w)))"
  have s: "lstate ((down_close owner c l)\<lparr>verify_timer := None\<rparr>) \<noteq> TBFRAME_STATE_UP" for l
    by (auto simp: down_close_def Let_def tbframe_ready_responder_reset_def tbframe_hello_responder_reset_def)
  have e1: "edges w1 = edges w" "lstate (lnk w1) \<noteq> TBFRAME_STATE_UP" using s by (simp_all add: w1_def)
  obtain b w2 where d: "publisher_drain ops tf (drain_budget tf) (jiffies_ms w1 + ucast (drain_budget tf)) w1 = Some (b, w2)"
      and w': "w' = snd (down_rest ops tf (lnk w) reason b w2)"
    using assms(3) by (auto simp: tbframe_link_down_session_def Let_def case_prod_beta w1_def c_def split: option.splits)
  have e2: "edges w2 = edges w" using edges_drain [OF d] e1 by simp
  have "lstate (lnk w2) \<noteq> TBFRAME_STATE_UP" using drain_state [OF d] e1 by simp
  then show ?thesis
    unfolding w' using edges_run_spec [OF e2] edges_sel [OF e2] assms(2)
    by (intro bracketed_down_rest assms(1)) (simp_all add: bracketed_def)
qed

text \<open>The session step.\<close>

lemma exchange_rings [simp]: "rings_up (lnk (snd (control_exchange ops tf req t w))) = rings_up (lnk w)"
  by (simp add: control_exchange_def case_prod_beta split: sum.split)

lemma query_rings [simp]: "rings_up (lnk (snd (tbframe_link_query_hello ops tf w))) = rings_up (lnk w)"
  by (simp add: tbframe_link_query_hello_def Let_def case_prod_beta res_viewD(3) [OF softD(2) [OF soft_hello(1)]] split: sum.split)

lemma rounds_rings [simp]: "rings_up (lnk (snd (hello_rounds n ops tf w))) = rings_up (lnk w)"
proof (induction n arbitrary: w)
  case (Suc n)
  then show ?case using query_rings [of ops tf w] by (simp add: Let_def case_prod_beta split: sum.split)
qed simp

lemma hello_once_rings: "rings_up (lnk (snd (tbframe_link_hello_once ops tf w))) = rings_up (lnk w)"
  by (simp add: tbframe_link_hello_once_def case_prod_beta res_viewD(3) [OF softD(2) [OF soft_requester(1)]] split: sum.split)

lemma bracketed_maybe_up:
  assumes "client_full tf" "bracketed w"
  shows "bracketed (tbframe_link_maybe_up ops tf w)"
proof -
  have "bracketed (up_deliver ops tf (upd f w))" for f
    using assms(2) by (intro bracketed_deliver assms(1)) (simp add: bracketed_def)
  then show ?thesis using assms(2) by (simp add: tbframe_link_maybe_up_def)
qed

lemma bracketed_simps:
  "bracketed w \<Longrightarrow> bracketed (tbframe_link_kick d w)" "bracketed w \<Longrightarrow> bracketed (snd (tbframe_link_prove_data_path ops tf w))"
  "bracketed w \<Longrightarrow> bracketed (snd (tbframe_link_flush_ready_response (interfere ops tf) ops tf w))"
  "bracketed w \<Longrightarrow> bracketed (snd (tbframe_link_ready_once ops tf w))" "bracketed w \<Longrightarrow> bracketed (snd (tbframe_link_hello_once ops tf w))"
  "bracketed w \<Longrightarrow> bracketed (ready_failed ops w)" "bracketed w \<Longrightarrow> bracketed (hello_failed ops w)"
  "bracketed w \<Longrightarrow> bracketed (upd (\<lambda>l. l\<lparr>session_work := x\<rparr>) w)"
  by (erule bracketed_cong [rotated 2]; simp)+

lemma bracketed_prove: "client_full tf \<Longrightarrow> bracketed w \<Longrightarrow> bracketed (step_prove ops tf w)"
  using bracketed_simps(2) [of w ops tf]
  by (simp add: step_prove_def case_prod_beta bracketed_maybe_up split: bool.split)

lemma bracketed_ready: "client_full tf \<Longrightarrow> bracketed w \<Longrightarrow> bracketed (step_ready ops tf sent w)"
  by (simp add: step_ready_def case_prod_beta bracketed_simps bracketed_prove split: sum.split)

lemma bracketed_rings:
  assumes "client_full tf" "bracketed w" "lstate (lnk w) = TBFRAME_STATE_UP \<longrightarrow> rings_up (lnk w)"
  shows "bracketed (step_rings ops tf sent w)"
proof -
  have "\<not> rings_up (lnk w) \<Longrightarrow> bracketed (snd (tbframe_link_bring_up ops tf w))"
    using assms by (intro bracketed_bring_up) auto
  then show ?thesis
    using assms by (simp add: step_rings_def case_prod_beta bracketed_simps bracketed_ready split: sum.split)
qed

lemma bracketed_hello:
  assumes "client_full tf" "bracketed w" "lstate (lnk w) = TBFRAME_STATE_UP \<longrightarrow> rings_up (lnk w)"
  shows "bracketed (step_hello ops tf w)"
proof -
  let ?h = "tbframe_link_hello_once ops tf w"
  have "bracketed (snd ?h)" by (rule bracketed_simps(5) [OF assms(2)])
  moreover have "lstate (lnk (snd ?h)) = TBFRAME_STATE_UP \<longrightarrow> rings_up (lnk (snd ?h))"
    using assms(3) by (simp add: hello_once_rings)
  ultimately show ?thesis
    using assms by (simp add: step_hello_def Let_def case_prod_beta bracketed_simps bracketed_rings split: sum.split)
qed

lemma bracketed_step:
  assumes "client_full tf" "bracketed w" "lstate (lnk w) = TBFRAME_STATE_UP \<longrightarrow> rings_up (lnk w)"
    "tbframe_link_session_step ops tf w = Some w'"
  shows "bracketed w'"
  using assms bracketed_down [OF assms(1,2)] bracketed_hello [OF assms(1-3), of ops]
  by (auto simp: tbframe_link_session_step_def split: if_splits)

section \<open>Runs of a link\<close>

text \<open>What happens to a link between its creation and its destruction: events of the other contexts,
  its session work, a teardown from outside (unregistration, shutdown), and a new choice of what the
  other contexts will do in the windows of the next step.\<close>

inductive link_run :: "'h tbframe_hw_ops \<Rightarrow> tbframe \<Rightarrow> 'h world \<Rightarrow> 'h world \<Rightarrow> bool"
  for ops :: "'h tbframe_hw_ops" and tf :: tbframe where
  start: "link_run ops tf w w"
| event: "link_run ops tf w u \<Longrightarrow> event_ok ev (lnk u) \<Longrightarrow> link_run ops tf w (run_event ops tf ev u)"
| work: "link_run ops tf w u \<Longrightarrow> session_work (lnk u) \<noteq> None \<Longrightarrow> tbframe_session_workfn ops tf u = Some v \<Longrightarrow> link_run ops tf w v"
| down: "link_run ops tf w u \<Longrightarrow> tbframe_link_down_session ops tf reason TBFRAME_SESSION_LOCAL u = Some (r, v) \<Longrightarrow> link_run ops tf w v"
| cancel: "link_run ops tf w u \<Longrightarrow> link_run ops tf w (tbframe_link_cancel_activity ops tf u)"
| plan: "link_run ops tf w u \<Longrightarrow> link_run ops tf w (u\<lparr>sched := s\<rparr>)"

text \<open>Whatever holds of a link and survives each of these steps holds along every run.\<close>

locale link_closed =
  fixes ops :: "'h tbframe_hw_ops" and tf :: tbframe and P :: "'h world \<Rightarrow> bool"
  assumes on_event: "P w \<Longrightarrow> event_ok ev (lnk w) \<Longrightarrow> P (run_event ops tf ev w)"
    and on_step: "P w \<Longrightarrow> tbframe_link_session_step ops tf w = Some w' \<Longrightarrow> P w'"
    and on_down: "P w \<Longrightarrow> tbframe_link_down_session ops tf reason TBFRAME_SESSION_LOCAL w = Some (r, w') \<Longrightarrow> P w'"
    and on_calm: "P w \<Longrightarrow> calm f \<Longrightarrow> P (upd f w)"
    and on_plan: "P w \<Longrightarrow> P (w\<lparr>sched := s\<rparr>)"
begin

sublocale events: event_closed ops tf P
  by unfold_locales (simp_all add: on_event on_plan)

lemma run_closed: "link_run ops tf w w' \<Longrightarrow> P w \<Longrightarrow> P w'"
proof (induction rule: link_run.induct)
  case (work w u v)
  have "calm (\<lambda>l. l\<lparr>session_work := None\<rparr>)" by (simp add: calm_def)
  then show ?case using work on_calm on_step by (auto simp: tbframe_session_workfn_def)
next
  case (cancel w u)
  have "calm (\<lambda>l. l\<lparr>verify_timer := None, session_work := None, verify_work := False, tx_released_work := False\<rparr>)"
    by (simp add: calm_def)
  then show ?case using cancel by (simp add: tbframe_link_cancel_activity_def on_calm events.window)
qed (use on_event on_down on_plan in blast)+

end

lemma event_res_ok:
  assumes "res_ok tf k w" "event_ok ev (lnk w)"
  shows "res_ok tf k (run_event ops tf ev w)"
proof -
  have v: "res_view (lnk (run_event ops tf ev w)) = res_view (lnk w)" by (rule res_view_owner [OF run_event_view])
  have a: "res_inv (lnk w)" "at tf k (rs_of (lnk w)) (lnk w) w" using assms(1) unfolding res_ok_at by blast+
  have i: "link_inv tf k (lnk (run_event ops tf ev w))" using assms run_event_inv unfolding res_ok_def by blast
  have e: "env_run (rings_up (lnk w)) w (run_event ops tf ev w)" by (rule run_event_env) simp
  show ?thesis by (rule atI_ok [OF res.settled_env [OF a(2) i v e] a(1)])
qed

interpretation resources: link_closed ops tf "res_ok tf k"
proof unfold_locales
  fix w w' :: "'a world" and ev f s reason r
  assume w: "res_ok tf k w"
  show "event_ok ev (lnk w) \<Longrightarrow> res_ok tf k (run_event ops tf ev w)" by (rule event_res_ok [OF w])
  show "tbframe_link_session_step ops tf w = Some w' \<Longrightarrow> res_ok tf k w'" by (rule session_step_ok [OF w])
  show "tbframe_link_down_session ops tf reason TBFRAME_SESSION_LOCAL w = Some (r, w') \<Longrightarrow> res_ok tf k w'"
    using down_session_ok [OF w] by (simp add: down_done_def)
  show "calm f \<Longrightarrow> res_ok tf k (upd f w)" using w res_ok_upd [OF calm_soft] by blast
  show "res_ok tf k (w\<lparr>sched := s\<rparr>)" using w by (simp add: res_ok_def)
qed

lemma event_edges: "edges (run_event ops tf ev w) = edges w" "lstate (lnk (run_event ops tf ev w)) = lstate (lnk w)"
proof -
  have v: "owner_view (lnk (run_event ops tf ev w)) = owner_view (lnk w)" by (rule run_event_view)
  obtain xs where "trace (run_event ops tf ev w) = trace w @ xs" "list_all (env_obs True) xs"
    using run_event_env [of w True ops tf ev] by (auto simp: env_run_def)
  moreover have "up_delivered (lnk (run_event ops tf ev w)) = up_delivered (lnk w)"
      "local_hopid (lnk (run_event ops tf ev w)) = local_hopid (lnk w)"
      "tx_frame_count (lnk (run_event ops tf ev w)) = tx_frame_count (lnk w)"
      "rx_frame_count (lnk (run_event ops tf ev w)) = rx_frame_count (lnk w)"
    by (rule owner_viewD(15) [OF v], rule owner_viewD(23) [OF v], rule owner_viewD(19) [OF v], rule owner_viewD(20) [OF v])
  ultimately show "edges (run_event ops tf ev w) = edges w" by (simp add: edges_def env_edges link_edges_def)
  show "lstate (lnk (run_event ops tf ev w)) = lstate (lnk w)" by (rule owner_viewD(1) [OF v])
qed

lemma calm_state: "calm f \<Longrightarrow> lstate (f l) = lstate l"
  by (rule session_viewD(1) [OF calmD(2)])

lemma res_ok_up: "res_ok tf k w \<Longrightarrow> lstate (lnk w) = TBFRAME_STATE_UP \<longrightarrow> rings_up (lnk w)"
  unfolding res_ok_def res_inv_def by blast

interpretation upcalls: link_closed ops tf "\<lambda>w. res_ok tf k w \<and> (client_full tf \<longrightarrow> bracketed w)"
proof unfold_locales
  fix w w' :: "'a world" and ev f s reason r
  assume a: "res_ok tf k w \<and> (client_full tf \<longrightarrow> bracketed w)"
  then have w: "res_ok tf k w" "client_full tf \<Longrightarrow> bracketed w" by simp_all
  have e: "edges w' = edges w \<Longrightarrow> lstate (lnk w') = lstate (lnk w) \<Longrightarrow> client_full tf \<Longrightarrow> bracketed w'" for w'
    using bracketed_cong w(2) by metis
  show "event_ok ev (lnk w) \<Longrightarrow> res_ok tf k (run_event ops tf ev w) \<and> (client_full tf \<longrightarrow> bracketed (run_event ops tf ev w))"
    using resources.on_event [OF w(1)] e [OF event_edges] by blast
  show "tbframe_link_session_step ops tf w = Some w' \<Longrightarrow> res_ok tf k w' \<and> (client_full tf \<longrightarrow> bracketed w')"
    using resources.on_step [OF w(1)] bracketed_step [OF _ w(2) res_ok_up [OF w(1)]] by blast
  show "tbframe_link_down_session ops tf reason TBFRAME_SESSION_LOCAL w = Some (r, w') \<Longrightarrow>
      res_ok tf k w' \<and> (client_full tf \<longrightarrow> bracketed w')"
    using resources.on_down [OF w(1)] bracketed_down [OF _ w(2)] by blast
  show "calm f \<Longrightarrow> res_ok tf k (upd f w) \<and> (client_full tf \<longrightarrow> bracketed (upd f w))"
    using resources.on_calm [OF w(1)] e [OF edges_upd [OF calm_edges]] calm_state by simp
  show "res_ok tf k (w\<lparr>sched := s\<rparr>) \<and> (client_full tf \<longrightarrow> bracketed (w\<lparr>sched := s\<rparr>))"
    using resources.on_plan [OF w(1)] w(2) by (simp add: bracketed_def)
qed

interpretation dead: link_closed ops tf "\<lambda>w. res_ok tf k w \<and> lstate (lnk w) = TBFRAME_STATE_DEAD"
proof unfold_locales
  fix w w' :: "'a world" and ev f s reason r
  assume "res_ok tf k w \<and> lstate (lnk w) = TBFRAME_STATE_DEAD"
  then have w: "res_ok tf k w" "lstate (lnk w) = TBFRAME_STATE_DEAD" by simp_all
  show "event_ok ev (lnk w) \<Longrightarrow> res_ok tf k (run_event ops tf ev w) \<and> lstate (lnk (run_event ops tf ev w)) = TBFRAME_STATE_DEAD"
    using resources.on_event [OF w(1)] w(2) by (simp add: event_edges)
  show "tbframe_link_session_step ops tf w = Some w' \<Longrightarrow> res_ok tf k w' \<and> lstate (lnk w') = TBFRAME_STATE_DEAD"
    using w by (auto simp: tbframe_link_session_step_def)
  show "tbframe_link_down_session ops tf reason TBFRAME_SESSION_LOCAL w = Some (r, w') \<Longrightarrow>
      res_ok tf k w' \<and> lstate (lnk w') = TBFRAME_STATE_DEAD"
    using down_session_ok [OF w(1)] w(2) by (simp add: down_done_def)
  show "calm f \<Longrightarrow> res_ok tf k (upd f w) \<and> lstate (lnk (upd f w)) = TBFRAME_STATE_DEAD"
    using resources.on_calm [OF w(1)] w(2) calm_state by simp
  show "res_ok tf k (w\<lparr>sched := s\<rparr>) \<and> lstate (lnk (w\<lparr>sched := s\<rparr>)) = TBFRAME_STATE_DEAD"
    using resources.on_plan [OF w(1)] w(2) by simp
qed

section \<open>Mappings and the egress HopID stay\<close>

text \<open>Between creation and destruction nothing maps or unmaps a frame, or touches the egress HopID.\<close>

definition inner_of :: "obs list \<times> bool \<times> nat \<times> u16 \<times> u16 \<Rightarrow> obs list \<times> nat \<times> u16 \<times> u16" where
  "inner_of e = (filter life_obs (fst e), snd (snd e))"

abbreviation inner :: "'h world \<Rightarrow> obs list \<times> nat \<times> u16 \<times> u16" where
  "inner w \<equiv> inner_of (edges w)"

lemma life_edge: "life_obs x \<Longrightarrow> edge x"
  by (cases x) simp_all

lemma inner_eq: "inner w = (filter life_obs (trace w), local_hopid (lnk w), tx_frame_count (lnk w), rx_frame_count (lnk w))"
proof -
  have "life_obs x \<and> edge x \<longleftrightarrow> life_obs x" for x using life_edge by blast
  then show ?thesis by (simp add: inner_of_def edges_def link_edges_def conj_commute)
qed

lemma inner_deliver [simp]: "inner (tbframe_link_deliver_up ops tf i w) = inner w"
  by (simp add: tbframe_link_deliver_up_def inner_eq Let_def split: option.split)

lemma inner_notify [simp]: "inner (tbframe_link_notify_down ops tf reason was_up terminal w) = inner w"
proof -
  have "inner (obs (OLinkDown reason) w) = inner w" "inner (upd (\<lambda>l. l\<lparr>up_delivered := b\<rparr>) w) = inner w" for b and w :: "'a world"
    by (simp_all add: inner_eq)
  then show ?thesis by (simp add: tbframe_link_notify_down_def Let_def split: option.split)
qed

lemma inner_up_deliver [simp]: "inner (up_deliver ops tf w) = inner w"
proof -
  have "inner (upd (\<lambda>l. rearm_verify_timer tf (l\<lparr>up_delivered := True\<rparr>)) u) = inner u" for u :: "'a world"
    by (simp add: inner_eq rearm_verify_timer_def)
  then show ?thesis by (simp add: up_deliver_def)
qed

lemma inner_maybe_up [simp]: "inner (tbframe_link_maybe_up ops tf w) = inner w"
  by (simp add: tbframe_link_maybe_up_def)

lemma inner_rollback [simp]: "inner (snd (bring_up_rollback ops tf h w)) = inner w"
  by (simp add: bring_up_rollback_def Let_def case_prod_beta split: sum.split)

lemma inner_enable [simp]: "inner (snd (bring_up_enable ops tf h b w)) = inner w"
  by (simp add: bring_up_enable_def case_prod_beta split: sum.split)

lemma inner_bring_up [simp]: "inner (snd (tbframe_link_bring_up ops tf w)) = inner w"
  by (simp add: tbframe_link_bring_up_def Let_def case_prod_beta split: sum.split)

lemma inner_down_rest [simp]: "inner (snd (down_rest ops tf l0 reason drained w)) = inner w"
  by (simp add: down_rest_def Let_def case_prod_beta)

lemma inner_down:
  "tbframe_link_down_session ops tf reason owner w = Some (ret, w') \<Longrightarrow> inner w' = inner w"
  by (auto simp: tbframe_link_down_session_def Let_def case_prod_beta edges_drain prod_eq_iff split: option.splits)

lemma inner_prove [simp]: "inner (step_prove ops tf w) = inner w"
  by (simp add: step_prove_def case_prod_beta split: bool.split)

lemma inner_ready [simp]: "inner (step_ready ops tf sent w) = inner w"
  by (simp add: step_ready_def case_prod_beta split: sum.split)

lemma inner_rings [simp]: "inner (step_rings ops tf sent w) = inner w"
  by (simp add: step_rings_def case_prod_beta split: sum.split)

lemma inner_hello [simp]: "inner (step_hello ops tf w) = inner w"
  by (simp add: step_hello_def Let_def case_prod_beta split: sum.split)

lemma inner_step: "tbframe_link_session_step ops tf w = Some w' \<Longrightarrow> inner w' = inner w"
  using inner_down [of ops tf _ _ w] by (auto simp: tbframe_link_session_step_def split: if_splits)

interpretation mappings: link_closed ops tf "\<lambda>w. inner w = v"
proof unfold_locales
  fix w w' :: "'a world" and ev f s reason r
  assume w: "inner w = v"
  show "inner (run_event ops tf ev w) = v" using w by (simp add: event_edges)
  show "tbframe_link_session_step ops tf w = Some w' \<Longrightarrow> inner w' = v" using w inner_step by metis
  show "tbframe_link_down_session ops tf reason TBFRAME_SESSION_LOCAL w = Some (r, w') \<Longrightarrow> inner w' = v" using w inner_down by metis
  show "calm f \<Longrightarrow> inner (upd f w) = v" using w edges_upd [OF calm_edges] by metis
  show "inner (w\<lparr>sched := s\<rparr>) = v" using w by (simp add: inner_eq)
qed

section \<open>Properties of every run\<close>

lemma created_ok:
  assumes "trace w0 = []" "maps_paired ops" "tbframe_link_create ops tf mem i route gid autostart w0 = (Inr (), w)"
  shows "res_ok tf 1 w \<and> fresh_session (lnk w)"
  using create_spec [OF assms] by simp

lemma fresh_bracketed: 
  assumes "trace w0 = []" "maps_paired ops" "tbframe_link_create ops tf mem i route gid autostart w0 = (Inr (), w)"
  shows "bracketed w"
proof -
  have u: "unborn w" "fresh_session (lnk w)" using create_spec [OF assms] by simp_all
  have "list_all life_obs xs \<Longrightarrow> spec_run brk_step False xs = Some False" for xs
  proof (induction xs rule: rev_induct)
    case (snoc x xs)
    then show ?case by (cases x) simp_all
  qed simp
  then show ?thesis using u by (simp add: bracketed_def fresh_session_def unborn_def)
qed

text \<open>C1: Refinement of the resource contract. From the creation of a link on, along every run (events
  of the other contexts in any order, session work, teardowns, and interference in every window
  where the code holds no lock) and for every behaviour of the hardware, the calls the driver makes
  are accepted by the resource automaton, and the link's own flags are the automaton's state: rings
  are started, fed, stopped and freed, HopIDs registered and released and paths enabled and removed
  only when the contract allows it.\<close>

theorem resource_refinement:
  assumes "trace w0 = []" "maps_paired ops" "tbframe_link_create ops tf mem i route gid autostart w0 = (Inr (), w)"
    "link_run ops tf w w'"
  shows "spec_run rs_step rs_init (trace w') = Some (rs_of (lnk w')) \<and> res_inv (lnk w') \<and> link_inv tf 1 (lnk w')"
proof -
  have "res_ok tf 1 w'" by (rule resources.run_closed [OF assms(4)]) (use created_ok [OF assms(1-3)] in simp)
  then show ?thesis unfolding res_ok_def by blast
qed

definition tf_small :: tbframe where
  "tf_small = tf_sample\<lparr>ring_entries := 2\<rparr>"

definition mem_ample :: allocator where
  "mem_ample = \<lparr>link_ok = True, array_ok = (\<lambda>_. True), data_ok = (\<lambda>_ _. True)\<rparr>"

lemma create_sample:
  obtains w where "tbframe_link_create hw_accept tf_small mem_ample 1 2 3 True (world_of link_sample) = (Inr (), w)"
    "session_work (lnk w) \<noteq> None" "\<not> needs_down (lnk w)"
proof -
  obtain r w where e: "tbframe_link_create hw_accept tf_small mem_ample 1 2 3 True (world_of link_sample) = (r, w)"
    by fastforce
  have r: "r = Inr ()"
    using e by (auto simp: tf_small_def tbframe_link_create_def create_pools_def tbframe_link_alloc_pool_def
        mem_ample_def sample_defs get_random_u32_def get_random_u64_def hw_call_def upd_def
        pool_install_def upt_rec obs_def Let_def setup_sel)
  have "session_work (lnk w) = Some 0" "fresh_session (lnk w)"
    using create_spec [OF _ _ e] r by (simp_all add: maps_paired_def sample_defs)
  then show ?thesis using that e r by (simp add: fresh_session_def)
qed

lemma work_returns: "\<not> needs_down (lnk w) \<Longrightarrow> \<exists>w'. tbframe_session_workfn ops tf w = Some w'"
  by (simp add: tbframe_session_workfn_def tbframe_link_session_step_def)

lemma run_sample:
  obtains w w' where "tbframe_link_create hw_accept tf_small mem_ample 1 2 3 True (world_of link_sample) = (Inr (), w)"
    "tbframe_session_workfn hw_accept tf_small w = Some w'" "link_run hw_accept tf_small w w'"
  using create_sample work_returns link_run.work [OF link_run.start] by metis

theorem resource_refinement_witness:
  "\<exists>w w'. tbframe_link_create hw_accept tf_small mem_ample 1 2 3 True (world_of link_sample) = (Inr (), w)
     \<and> tbframe_session_workfn hw_accept tf_small w = Some w' \<and> spec_run rs_step rs_init (trace w') = Some (rs_of (lnk w'))"
proof -
  obtain w w' where w: "tbframe_link_create hw_accept tf_small mem_ample 1 2 3 True (world_of link_sample) = (Inr (), w)"
    "tbframe_session_workfn hw_accept tf_small w = Some w'" "link_run hw_accept tf_small w w'" by (rule run_sample)
  then show ?thesis using resource_refinement [OF _ _ w(1,3)] by (auto simp: maps_paired_def sample_defs)
qed



text \<open>C27: A dead link stays dead: no event, session work or teardown brings it back.\<close>

theorem dead_is_final:
  assumes "res_ok tf k w" "lstate (lnk w) = TBFRAME_STATE_DEAD" "link_run ops tf w w'"
  shows "lstate (lnk w') = TBFRAME_STATE_DEAD \<and> res_ok tf k w'"
  using dead.run_closed [OF assms(3)] assms(1,2) by blast

theorem dead_is_final_witness:
  "lstate (lnk (run_event hw_accept tf_sample (EvPacket bye_sample) (world_of (link_sample\<lparr>lstate := TBFRAME_STATE_DEAD\<rparr>)))) = TBFRAME_STATE_DEAD"
proof -
  let ?w = "world_of (link_sample\<lparr>lstate := TBFRAME_STATE_DEAD\<rparr>)"
  have "tx_pool_fresh (lnk ?w)" by (simp add: tx_pool_fresh_def sample_defs upt_rec)
  then have "pool_inv tf_sample 1 (lnk ?w)" by (intro fresh_pool_inv) (simp add: sample_defs)
  then have "res_ok tf_sample 1 ?w"
    by (simp add: res_ok_def link_inv_def rx_inv_def res_inv_def rs_of_def rs_init_def sample_defs)
  moreover have "link_run hw_accept tf_sample ?w (run_event hw_accept tf_sample (EvPacket bye_sample) ?w)"
    by (rule link_run.event [OF link_run.start]) simp
  ultimately show ?thesis using dead_is_final [of tf_sample 1 ?w] by (auto simp: sample_defs)
qed

end
