(* ===== verification/Tbframe_Destroy.thy ===== *)
theory Tbframe_Destroy
  imports Tbframe_Client
begin

text \<open>
  The end of a link: the bounded wait for outstanding frames and the destruction of
  \<^verbatim>\<open>frame/core.c\<close>, on top of the runs of \<open>Tbframe_Client\<close>.

  Shown: teardown returns for every hardware and every client when its two settings are in range,
  and can wait forever when they are not; a destruction frees the pools only when every frame is
  home and the hardware holds nothing, and otherwise leaves every mapping in place.
\<close>

section \<open>The bounded wait\<close>

lemma wait_warn_pos: "wait_warn tf \<noteq> 0"
  by (simp add: wait_warn_def wait_cap_def Let_def min_def TBFRAME_TEARDOWN_FORCE_MAX_MS_def TBFRAME_SHUTDOWN_FORCE_MS_def)

lemma wait_refs_returns:
  assumes "warn \<noteq> 0" "unat cap + unat warn \<le> 2 ^ 32" "waited = 0 \<or> waited < cap"
  shows "\<exists>b w'. wait_refs ops tf warn cap waited w = Some (b, w')"
  using assms
proof (induction "unat cap - unat waited" arbitrary: waited w rule: less_induct)
  case less
  let ?w = "if refcnt (lnk w) = 0 then w else interfere ops tf w"
  show ?case
  proof (cases "refcnt (lnk ?w) = 0 \<or> waited + warn \<ge> cap")
    case True
    then show ?thesis by (subst wait_refs.simps) (auto simp: Let_def)
  next
    case False
    have "unat waited + unat warn < 2 ^ 32"
      using less.prems unsigned_less [of warn, where ?'a = nat] by (auto simp: word_less_nat_alt)
    then have s: "unat (waited + warn) = unat waited + unat warn" by (simp add: unat_word_ariths)
    have "unat warn > 0" using less.prems(1) by (simp add: unat_gt_0)
    then have "\<exists>b w'. wait_refs ops tf warn cap (waited + warn) ?w = Some (b, w')"
      using False s by (intro less.hyps less.prems) (auto simp: word_le_nat_alt word_less_nat_alt)
    then show ?thesis using False by (subst wait_refs.simps) (simp add: Let_def)
  qed
qed

lemma wait_refs_done:
  assumes "wait_refs ops tf warn cap waited w = Some y"
  shows "fst y = (refcnt (lnk (snd y)) = 0)"
  by (rule wait_refs.raw_induct [where P = "\<lambda>ops tf warn cap waited w y. fst y = (refcnt (lnk (snd y)) = 0)", OF _ assms])
    (auto simp: Let_def split: if_splits)

text \<open>The steps of 2000 wrap around without ever reaching the largest cap.\<close>

lemma sixteen_step:
  assumes "16 dvd unat (waited :: u32)"
  shows "16 dvd unat (waited + 2000)" "\<not> waited + 2000 \<ge> 0xFFFFFFFF"
proof -
  have "unat (waited + 2000) = (unat waited + 2000) mod 2 ^ 32" by (simp add: unat_word_ariths)
  then show d: "16 dvd unat (waited + 2000)"
    using assms by (simp add: dvd_mod_iff)
  have "unat (waited + 2000) \<noteq> 4294967295" using d by auto
  moreover have "unat (waited + 2000) \<le> 4294967295" using unsigned_less [of "waited + 2000", where ?'a = nat] by simp
  ultimately show "\<not> waited + 2000 \<ge> 0xFFFFFFFF" by (simp add: word_le_nat_alt)
qed

lemma wait_refs_hangs:
  assumes "16 dvd unat waited" "sched w = []" "refcnt (lnk w) \<noteq> 0"
  shows "wait_refs ops tf 2000 0xFFFFFFFF waited w = None"
proof (cases "wait_refs ops tf 2000 0xFFFFFFFF waited w")
  case (Some y)
  let ?P = "\<lambda>(ops :: 'a tbframe_hw_ops) (tf :: tbframe) (warn :: u32) (cap :: u32) waited (w :: 'a world) (y :: bool \<times> 'a world).
    16 dvd unat waited \<longrightarrow> sched w = [] \<longrightarrow> warn = 2000 \<longrightarrow> cap = 0xFFFFFFFF \<longrightarrow> refcnt (lnk w) = 0"
  have "?P ops tf 2000 0xFFFFFFFF waited w y"
  proof (rule wait_refs.raw_induct [where P = ?P, OF _ Some], intro impI, rule ccontr)
    fix f ops tf warn cap waited and w :: "'a world" and y
    assume f: "\<And>(ops :: 'a tbframe_hw_ops) tf warn cap waited w y. f ops tf warn cap waited w = Some y \<Longrightarrow> ?P ops tf warn cap waited w y"
      and b: "(let w = if refcnt (lnk w) = 0 then w else interfere ops tf w
         in if refcnt (lnk w) = 0 then Some (True, w) else if cap \<le> waited + warn then Some (False, w)
            else f ops tf warn cap (waited + warn) w) = Some y"
      and a: "16 dvd unat waited" "sched w = []" "warn = 2000" "cap = 0xFFFFFFFF" "refcnt (lnk w) \<noteq> 0"
    then have "f ops tf 2000 0xFFFFFFFF (waited + 2000) w = Some y"
      using sixteen_step(2) [OF a(1)] by (simp add: Let_def interfere_none)
    from f [OF this] show False using a sixteen_step(1) [OF a(1)] by blast
  qed
  then show ?thesis using assms by simp
qed simp

section \<open>Destruction\<close>

lemma own_life: "spec_run own_step own_init xs = spec_run own_step own_init (filter life_obs xs)"
proof (induction xs rule: rev_induct)
  case (snoc x xs)
  have "\<not> life_obs x \<Longrightarrow> own_step s x = Some s" for s by (cases x) simp_all
  then show ?case using snoc by (cases "spec_run own_step own_init (filter life_obs xs)") simp_all
qed simp

lemma owns_inner: "inner w' = inner w \<Longrightarrow> owns s w' = owns s w"
  using own_life [of "trace w"] own_life [of "trace w'"] by (simp add: owns_def inner_eq)

text \<open>A link between its creation and its destruction: the invariants hold, every frame of both pools
  is mapped and the egress HopID is held.\<close>

definition intact :: "'h tbframe_hw_ops \<Rightarrow> tbframe \<Rightarrow> nat \<Rightarrow> 'h world \<Rightarrow> bool" where
  "intact ops tf k w =
    (res_ok tf k w \<and> owns (own_all ops tf (local_hopid (lnk w))) w \<and>
     pools_full tf (lnk w))"

lemma intact_inner: "inner w' = inner w \<Longrightarrow> res_ok tf k w' \<Longrightarrow> intact ops tf k w \<Longrightarrow> intact ops tf k w'"
  using owns_inner [of w' w] by (simp add: intact_def pools_full_def) (simp add: inner_eq)

lemma cancel_session_keeps:
  "inner (cancel_session ops tf w) = inner w" "res_ok tf k w \<Longrightarrow> res_ok tf k (cancel_session ops tf w)"
  "inner (cancel_released w) = inner w" "res_ok tf k (cancel_released w) = res_ok tf k w"
proof -
  have c: "calm (\<lambda>l. l\<lparr>verify_timer := None, session_work := None, verify_work := False\<rparr>)"
      "calm (\<lambda>l. l\<lparr>tx_released_work := False\<rparr>)" by (simp_all add: calm_def)
  show "inner (cancel_session ops tf w) = inner w" "inner (cancel_released w) = inner w"
    by (simp_all add: cancel_session_def cancel_released_def edges_upd [OF calm_edges [OF c(1)]] edges_upd [OF calm_edges [OF c(2)]])
  show "res_ok tf k w \<Longrightarrow> res_ok tf k (cancel_session ops tf w)" "res_ok tf k (cancel_released w) = res_ok tf k w"
    by (simp_all add: cancel_session_def cancel_released_def resources.events.window res_ok_upd [OF calm_soft [OF c(1)]]
        res_ok_upd [OF calm_soft [OF c(2)]])
qed

text \<open>Nobody holds a frame once the last reference is gone.\<close>

lemma refs_zero_home:
  assumes "link_inv tf 0 l" "refcnt l = 0"
  shows "set (tx_free l) = {0..<unat (tx_frame_count l)} \<and> set (rx_free l) = {0..<unat (rx_frame_count l)}"
proof -
  have d: "distinct (tx_free l)" "set (tx_free l) \<subseteq> {0..<unat (tx_frame_count l)}"
      "distinct (rx_free l)" "set (rx_free l) \<subseteq> {0..<unat (rx_frame_count l)}"
    using assms(1) by (auto simp: link_inv_def pool_inv_def adm_inv_def tx_lists_ok_def tx_listed_def rx_inv_def list_all_iff)
  have "length (tx_free l) = unat (tx_frame_count l)" "length (rx_free l) = unat (rx_frame_count l)"
    using assms d(2) card_mono [OF _ d(2)] card_mono [OF _ d(4)] distinct_card [OF d(1)] distinct_card [OF d(3)]
    by (auto simp: link_inv_def pool_inv_def ref_inv_def)
  then show ?thesis
    using d distinct_card [OF d(1)] distinct_card [OF d(3)] by (intro conjI card_subset_eq) simp_all
qed

lemma free_pools_ok:
  assumes "owns (own_all ops tf h\<lparr>o_hop := v\<rparr>) w" "maps_paired ops"
    "tx_frame_count (lnk w) = ring_entries tf" "rx_frame_count (lnk w) = ring_entries tf"
  shows "owns \<lparr>o_maps = {}, o_hop = v\<rparr> (tbframe_link_free_pools ops w)" "lnk (tbframe_link_free_pools ops w) = lnk w"
    "\<exists>xs. trace (tbframe_link_free_pools ops w) = trace w @ xs \<and> list_all life_obs xs"
proof -
  let ?n = "unat (ring_entries tf)"
  let ?w1 = "unmap_frames ops True [0..<?n] w"
  let ?s = "own_all ops tf h\<lparr>o_hop := v\<rparr>"
  have eq: "tbframe_link_free_pools ops w = unmap_frames ops False [0..<?n] ?w1"
    using assms(3,4) by (simp add: tbframe_link_free_pools_def unmap_keeps(2))
  have 1: "owns (?s\<lparr>o_maps := o_maps ?s - mapped ops True (set [0..<?n])\<rparr>) ?w1" (is "owns ?s1 _")
    by (rule unmap_owns [OF assms(1) _ _ assms(2)]) (simp_all add: own_all_def)
  have m: "o_maps ?s1 = mapped ops False {0..<?n}" by (auto simp: own_all_def mapped_def)
  have "owns (?s1\<lparr>o_maps := o_maps ?s1 - mapped ops False (set [0..<?n])\<rparr>) (unmap_frames ops False [0..<?n] ?w1)"
    by (rule unmap_owns [OF 1 _ _ assms(2)]) (simp, unfold m, simp)
  moreover have "?s1\<lparr>o_maps := o_maps ?s1 - mapped ops False (set [0..<?n])\<rparr> = \<lparr>o_maps = {}, o_hop = v\<rparr>"
    unfolding m by (simp add: own_all_def)
  ultimately show "owns \<lparr>o_maps = {}, o_hop = v\<rparr> (tbframe_link_free_pools ops w)" unfolding eq by simp
  show "lnk (tbframe_link_free_pools ops w) = lnk w" unfolding eq by (simp add: unmap_keeps(2))
  have "\<exists>xs. trace (unmap_frames ops tx is w) = trace w @ xs \<and> list_all life_obs xs" for tx "is" and w :: "'a world"
  proof -
    have "\<exists>xs. trace (fold (\<lambda>i. hw_do (f i tx) (OUnmapFrame i tx)) is w) = trace w @ xs \<and> list_all life_obs xs" for f
    proof (induction "is" arbitrary: w)
      case (Cons i "is")
      from Cons [of "hw_do (f i tx) (OUnmapFrame i tx) w"] show ?case by auto
    qed simp
    then show ?thesis by (simp add: unmap_frames_def split: option.split)
  qed
  then obtain xs ys where "trace ?w1 = trace w @ xs" "list_all life_obs xs"
      "trace (unmap_frames ops False [0..<?n] ?w1) = trace ?w1 @ ys" "list_all life_obs ys" by metis
  then show "\<exists>xs. trace (tbframe_link_free_pools ops w) = trace w @ xs \<and> list_all life_obs xs"
    unfolding eq by auto
qed

context event_closed begin

lemma wait_keeps:
  assumes "wait_refs ops tf warn cap waited w = Some y" "P w"
  shows "P (snd y)"
proof -
  let ?Q = "\<lambda>ops' tf' warn cap waited w y. ops' = ops \<longrightarrow> tf' = tf \<longrightarrow> P w \<longrightarrow> P (snd (y :: bool \<times> 'h world))"
  have "?Q ops tf warn cap waited w y"
    by (rule wait_refs.raw_induct [where P = ?Q, OF _ assms(1)])
      (auto simp: Let_def window split: if_splits)
  then show ?thesis using assms(2) by blast
qed

end

lemma put_res: "res_ok tf (Suc k) w \<Longrightarrow> res_ok tf k (upd tbframe_link_put w)"
proof -
  assume a: "res_ok tf (Suc k) w"
  have "rx_inv (tbframe_link_put l) = rx_inv l" "res_view (tbframe_link_put l) = res_view l" for l
    by (simp_all add: tbframe_link_put_def rx_inv_def)
  then show ?thesis
    using a put_inv [of tf k "lnk w"] rs_of_cong [of "tbframe_link_put (lnk w)" "lnk w"] res_inv_cong [of "tbframe_link_put (lnk w)" "lnk w"]
    by (simp add: res_ok_def link_inv_def)
qed

text \<open>What every outcome of a destruction leaves behind.\<close>

definition destroyed :: "'h world \<Rightarrow> bool" where
  "destroyed w =
    (refcnt (lnk w) = 0 \<and> set (tx_free (lnk w)) = {0..<unat (tx_frame_count (lnk w))} \<and>
     set (rx_free (lnk w)) = {0..<unat (rx_frame_count (lnk w))} \<and>
     spec_run rs_step rs_init (trace w) = Some rs_init \<and>
     owns \<lparr>o_maps = {}, o_hop = (if terminal_handoff (lnk w) then Some (local_hopid (lnk w)) else None)\<rparr> w)"

definition leaked :: "'h tbframe_hw_ops \<Rightarrow> tbframe \<Rightarrow> 'h world \<Rightarrow> bool" where
  "leaked ops tf w =
    (lstate (lnk w) = TBFRAME_STATE_DEAD \<and> (\<exists>v. owns (own_all ops tf (local_hopid (lnk w))\<lparr>o_hop := v\<rparr>) w))"

lemma release_hop:
  assumes "intact ops tf k w" "w' = (if \<not> terminal_handoff (lnk w)
      then hw_run ops tf (op_release_out_hopid ops (local_hopid (lnk w))) (OReleaseOutHopid (local_hopid (lnk w))) w else w)"
  shows "res_ok tf k w'" "owner_view (lnk w') = owner_view (lnk w)"
    "owns (own_all ops tf (local_hopid (lnk w))\<lparr>o_hop := if terminal_handoff (lnk w) then Some (local_hopid (lnk w)) else None\<rparr>) w'"
proof -
  let ?h = "local_hopid (lnk w)"
  let ?r = "hw_do (op_release_out_hopid ops ?h) (OReleaseOutHopid ?h) w"
  have w: "res_ok tf k w" "owns (own_all ops tf ?h) w" using assms(1) by (simp_all add: intact_def)
  have r: "res_ok tf k ?r" using w(1) by (simp add: res_ok_def)
  have "owns (own_all ops tf ?h\<lparr>o_hop := None\<rparr>) ?r" by (rule owns_do [OF w(2)]) (simp add: own_all_def)
  then have "owns (own_all ops tf ?h\<lparr>o_hop := None\<rparr>) (interfere ops tf ?r)" using owns_inner [of "interfere ops tf ?r" ?r] by simp
  then show "res_ok tf k w'" "owner_view (lnk w') = owner_view (lnk w)"
    "owns (own_all ops tf ?h\<lparr>o_hop := if terminal_handoff (lnk w) then Some ?h else None\<rparr>) w'"
    using assms(2) w resources.events.window [OF r] by (auto simp: hw_run_def own_all_def)
qed

lemma finish_ok:
  assumes "intact ops tf 1 w" "maps_paired ops" "rs_of (lnk w) = rs_init" "destroy_finish ops tf w = Some (r, w')"
  shows "case r of Inr _ \<Rightarrow> destroyed w' | Inl _ \<Rightarrow> leaked ops tf w'"
proof -
  define h where "h = local_hopid (lnk w)"
  define v where "v = (if terminal_handoff (lnk w) then Some h else None)"
  define w1 where "w1 = (if \<not> terminal_handoff (lnk w) then hw_run ops tf (op_release_out_hopid ops h) (OReleaseOutHopid h) w else w)"
  define w2 where "w2 = upd tbframe_link_put w1"
  note 1 = release_hop [OF assms(1) w1_def [unfolded h_def]]
  have c: "tx_frame_count (lnk w1) = ring_entries tf" "rx_frame_count (lnk w1) = ring_entries tf"
    using assms(1) owner_viewD(19,20) [OF 1(2)] by (simp_all add: intact_def pools_full_def)
  have 2: "res_ok tf 0 w2" "owner_view (lnk w2) = owner_view (lnk w1)" "inner w2 = inner w1"
    using put_res [of tf 0 w1] 1(1)
    by (simp_all add: w2_def tbframe_link_put_def owner_view_def session_view_def inner_eq)
  have "destroy_finish ops tf w = (case tbframe_link_wait_refs_zero ops tf w2 of
      None \<Rightarrow> None | Some (False, w) \<Rightarrow> Some (Inl EBUSY, upd (\<lambda>l. l\<lparr>lstate := TBFRAME_STATE_DEAD\<rparr>) w)
    | Some (True, w) \<Rightarrow> Some (Inr (), tbframe_link_free_pools ops w))"
    unfolding destroy_finish_def Let_def h_def [symmetric] w1_def [symmetric] w2_def [symmetric] ..
  then obtain b w3 where wt: "wait_refs ops tf (wait_warn tf) (wait_cap tf) 0 w2 = Some (b, w3)"
      and rw: "if b then r = Inr () \<and> w' = tbframe_link_free_pools ops w3
               else r = Inl EBUSY \<and> w' = upd (\<lambda>l. l\<lparr>lstate := TBFRAME_STATE_DEAD\<rparr>) w3"
    using assms(4) by (cases "tbframe_link_wait_refs_zero ops tf w2")
      (auto simp: tbframe_link_wait_refs_zero_def split: bool.splits)
  have 3: "res_ok tf 0 w3" "owner_view (lnk w3) = owner_view (lnk w)" "inner w3 = inner w1"
    using resources.events.wait_keeps [OF wt 2(1)] owner_closed.wait_keeps [OF wt, of "owner_view (lnk w)"]
      mappings.events.wait_keeps [OF wt, of "inner w1"] 2 1(2) by simp_all
  have o: "owns (own_all ops tf h\<lparr>o_hop := v\<rparr>) w3" using 1(3) unfolding owns_inner [OF 3(3)] h_def v_def .
  have l: "local_hopid (lnk w3) = h" "terminal_handoff (lnk w3) = terminal_handoff (lnk w)" "rs_of (lnk w3) = rs_init"
      "tx_frame_count (lnk w3) = ring_entries tf" "rx_frame_count (lnk w3) = ring_entries tf"
    using owner_viewD(7,23) [OF 3(2)] rs_of_cong [OF res_view_owner [OF 3(2)]] assms(3) owner_viewD(19,20) [OF 3(2)]
      owner_viewD(19,20) [OF 1(2)] c by (simp_all add: h_def)
  show ?thesis
  proof (cases b)
    case True
    note f = free_pools_ok [OF o assms(2) l(4,5)]
    obtain xs where xs: "trace (tbframe_link_free_pools ops w3) = trace w3 @ xs" "list_all life_obs xs" using f(3) by blast
    have z: "refcnt (lnk w3) = 0" using wait_refs_done [OF wt] True by simp
    have "set (tx_free (lnk w3)) = {0..<unat (tx_frame_count (lnk w3))} \<and> set (rx_free (lnk w3)) = {0..<unat (rx_frame_count (lnk w3))}"
      using refs_zero_home [OF _ z] 3(1) unfolding res_ok_def by blast
    moreover have "spec_run rs_step rs_init (trace w3 @ xs) = Some rs_init"
      using 3(1) l(3) life_spec [OF xs(2)] by (simp add: res_ok_def spec_run_append)
    ultimately show ?thesis using rw True z f(1,2) xs(1) l(1,2) by (simp add: destroyed_def v_def split: if_splits)
  next
    case False
    then show ?thesis using rw o l(1) by (auto simp: leaked_def)
  qed
qed

lemma released_rs: "res_inv l \<Longrightarrow> \<not> paths_owned l \<Longrightarrow> \<not> rings_allocated l \<Longrightarrow> rs_of l = rs_init"
  unfolding res_inv_def by (auto simp: rs_of_def rs_init_def)

lemma destroy_spec:
  assumes "intact ops tf 1 w" "maps_paired ops" "down_terminal reason" "tbframe_link_destroy ops tf reason w = Some (r, w')"
  shows "case r of Inr _ \<Rightarrow> destroyed w' | Inl _ \<Rightarrow> leaked ops tf w'"
proof -
  define w1 where "w1 = cancel_session ops tf (upd (\<lambda>l. l\<lparr>removing := True\<rparr>) w)"
  have s: "soft (\<lambda>l. l\<lparr>removing := True\<rparr>)" by (simp add: soft_def)
  have 1: "res_ok tf 1 w1" "inner w1 = inner w"
    using assms(1) by (simp_all add: w1_def cancel_session_keeps res_ok_upd [OF s] intact_def)
  obtain ret w2 where d: "tbframe_link_down_session ops tf reason TBFRAME_SESSION_LOCAL w1 = Some (ret, w2)"
    using assms(4) by (auto simp: tbframe_link_destroy_def w1_def Let_def split: option.splits)
  have dd: "down_done tf 1 (lnk w1) reason ret w2" by (rule down_session_ok [OF 1(1) d])
  have i: "inner (cancel_released w2) = inner w" using inner_down [OF d] 1(2) by (simp add: cancel_session_keeps)
  have n: "intact ops tf 1 (cancel_released w2)"
    using intact_inner [OF i _ assms(1)] dd by (simp add: down_done_def cancel_session_keeps)
  have l: "lnk (cancel_released w2) = (lnk w2)\<lparr>tx_released_work := False\<rparr>" by (simp add: cancel_released_def)
  show ?thesis
  proof (cases ret)
    case (Inl e)
    then have "r = Inl e \<and> w' = cancel_released w2"
      using assms(4) d by (simp add: tbframe_link_destroy_def w1_def Let_def)
    moreover have "lstate (lnk (cancel_released w2)) = TBFRAME_STATE_DEAD" using dd Inl by (simp add: down_done_def l)
    moreover have "own_all ops tf h\<lparr>o_hop := Some h\<rparr> = own_all ops tf h" for h by (simp add: own_all_def)
    then have "\<exists>v. owns (own_all ops tf (local_hopid (lnk (cancel_released w2)))\<lparr>o_hop := v\<rparr>) (cancel_released w2)"
      using n unfolding intact_def by metis
    ultimately show ?thesis by (simp add: leaked_def)
  next
    case (Inr u)
    have "res_inv (lnk w2)" "\<not> paths_owned (lnk w2)" "\<not> rings_allocated (lnk w2)"
      using dd assms(3) Inr by (simp_all add: down_done_def res_ok_def)
    then have "rs_of (lnk w2) = rs_init" by (rule released_rs)
    moreover have "rs_of (lnk (cancel_released w2)) = rs_of (lnk w2)" by (rule rs_of_cong) (simp add: l)
    ultimately have "rs_of (lnk (cancel_released w2)) = rs_init" by simp
    moreover have "destroy_finish ops tf (cancel_released w2) = Some (r, w')"
      using assms(4) d Inr by (simp add: tbframe_link_destroy_def w1_def Let_def)
    ultimately show ?thesis using finish_ok [OF n assms(2)] by blast
  qed
qed

section \<open>Properties\<close>

lemma drain_returns: "t \<noteq> 0 \<Longrightarrow> \<exists>b w'. publisher_drain ops tf t d w = Some (b, w')"
proof (induction ops tf t d w rule: publisher_drain.induct)
  case (1 ops tf t d w)
  then show ?case by (subst publisher_drain.simps) (auto split: list.split)
qed

lemma drain_stuck: "sched w = [] \<Longrightarrow> hw_active (lnk w) \<noteq> 0 \<Longrightarrow> publisher_drain ops tf 0 d w = None"
  by (subst publisher_drain.simps) simp

lemma down_returns: "drain_budget tf \<noteq> 0 \<Longrightarrow> \<exists>r w'. tbframe_link_down_session ops tf reason owner w = Some (r, w')"
  using drain_returns [of "drain_budget tf" ops tf]
  by (fastforce simp: tbframe_link_down_session_def Let_def case_prod_beta split: option.split)

lemma destroy_returns:
  assumes "drain_budget tf \<noteq> 0" "unat (wait_cap tf) + unat (wait_warn tf) \<le> 2 ^ 32"
  shows "\<exists>r w'. tbframe_link_destroy ops tf reason w = Some (r, w')"
proof -
  obtain r w1 where d: "tbframe_link_down_session ops tf reason TBFRAME_SESSION_LOCAL
      (cancel_session ops tf (upd (\<lambda>l. l\<lparr>removing := True\<rparr>) w)) = Some (r, w1)"
    using down_returns [OF assms(1)] by blast
  have n: "tbframe_link_wait_refs_zero ops tf w2 \<noteq> None" for w2
    using wait_refs_returns [OF wait_warn_pos assms(2), of 0 ops tf w2] by (auto simp: tbframe_link_wait_refs_zero_def)
  have "\<exists>r w'. destroy_finish ops tf w2 = Some (r, w')" for w2
    unfolding destroy_finish_def Let_def by (auto simp: n split: option.split bool.split)
  then show ?thesis using d by (cases r) (simp_all add: tbframe_link_destroy_def Let_def)
qed

text \<open>C9: Termination of teardown. When the publisher-drain budget is not zero and the cap and one
  interval of the reference wait do not exceed 32 bits, destroying a link returns, whatever the
  hardware answers, whoever holds frames and whatever the other contexts do meanwhile.\<close>

theorem teardown_returns:
  assumes "drain_budget tf \<noteq> 0" "unat (wait_cap tf) + unat (wait_warn tf) \<le> 2 ^ 32"
  shows "\<exists>r w'. tbframe_link_destroy ops tf reason w = Some (r, w')"
  by (rule destroy_returns [OF assms])

theorem teardown_returns_witness:
  "\<exists>r w'. tbframe_link_destroy hw_reject tf_sample TBFRAME_DOWN_UNPLUG (world_of link_up_sample) = Some (r, w')"
  by (rule teardown_returns) (simp_all add: drain_budget_def wait_cap_def wait_warn_def tf_sample_def)



text \<open>C5: Destruction frees nothing that is still in use. From creation over any run, when a terminal
  destruction returns success, no reference is left, every frame of both pools is home, the hardware
  holds nothing of the link, and every frame was unmapped exactly once after that, with the egress
  HopID given back unless the core took over; when it returns an error, the link is dead and all its
  mappings are still in place.\<close>

theorem destroy_no_use_after_free:
  assumes "trace w0 = []" "maps_paired ops" "tbframe_link_create ops tf mem i route gid autostart w0 = (Inr (), w)"
    "link_run ops tf w w1" "down_terminal reason" "tbframe_link_destroy ops tf reason w1 = Some (r, w')"
  shows "case r of Inr _ \<Rightarrow> destroyed w' | Inl _ \<Rightarrow> leaked ops tf w'"
proof -
  have "intact ops tf 1 w" using create_spec [OF assms(1-3)] by (simp add: intact_def)
  moreover from this have "res_ok tf 1 w1" using resources.run_closed [OF assms(4)] by (simp add: intact_def)
  ultimately have "intact ops tf 1 w1" by (intro intact_inner [OF mappings.run_closed [OF assms(4) refl]])
  then show ?thesis by (rule destroy_spec [OF _ assms(2,5,6)])
qed

theorem destroy_no_use_after_free_witness:
  "\<exists>w r w'. tbframe_link_create hw_accept tf_small mem_ample 1 2 3 True (world_of link_sample) = (Inr (), w)
     \<and> tbframe_link_destroy hw_accept tf_small TBFRAME_DOWN_UNPLUG w = Some (r, w')
     \<and> (case r of Inr _ \<Rightarrow> destroyed w' | Inl _ \<Rightarrow> leaked hw_accept tf_small w')"
proof -
  obtain w where w: "tbframe_link_create hw_accept tf_small mem_ample 1 2 3 True (world_of link_sample) = (Inr (), w)"
    by (rule create_sample)
  obtain r w' where d: "tbframe_link_destroy hw_accept tf_small TBFRAME_DOWN_UNPLUG w = Some (r, w')"
    using destroy_returns [of tf_small hw_accept TBFRAME_DOWN_UNPLUG w]
    by (auto simp: tf_small_def drain_budget_def wait_cap_def wait_warn_def tf_sample_def)
  show ?thesis
    using destroy_no_use_after_free [OF _ _ w link_run.start _ d] w d by (auto simp: maps_paired_def sample_defs down_terminal_def)
qed

end
