(* ===== verification/Tbframe_Module.thy ===== *)
theory Tbframe_Module
  imports Tbframe_Destroy
begin

text \<open>
  The module instance of \<^verbatim>\<open>frame/core.c\<close>: the list of links, the walk over it that
  dispatches inbound control packets, and client registration and unregistration. A link is the world
  of \<open>Tbframe_Link\<close>; the instance holds its settings with the registered client and the links
  in list order.

  Shown: the walk by cursor, a reference held across each visit, is one plain pass over the links;
  unregistration returns and leaves every link parked with its hardware released; a client that
  registers late is told of every link that is up.
\<close>

section \<open>The module and its links\<close>

record 'h tbframe_module =
  m_tf :: tbframe
  m_links :: "'h world list"

definition link_get :: "tbframe_link \<Rightarrow> tbframe_link" where
  "link_get l = l\<lparr>refcnt := refcnt l + 1\<rparr>"

text \<open>The next link at or after the cursor that the token matches; the walk holds a reference to it and
  leaves the cursor behind it.\<close>

definition link_matches :: "'h tbframe_hw_ops \<Rightarrow> nat option \<Rightarrow> 'h world \<Rightarrow> bool" where
  "link_matches ops token w =
    (case (token, op_match ops) of (Some t, Some f) \<Rightarrow> f (hw w) t | _ \<Rightarrow> True)"

fun dispatch_scan :: "'h tbframe_hw_ops \<Rightarrow> nat option \<Rightarrow> nat \<Rightarrow> nat \<Rightarrow> 'h world list \<Rightarrow> nat option" where
  "dispatch_scan ops token skip idx [] = None"
| "dispatch_scan ops token skip idx (w # ws) =
    (if idx < skip then dispatch_scan ops token skip (Suc idx) ws
     else if \<not> link_matches ops token w then dispatch_scan ops token skip (Suc idx) ws
     else Some idx)"

definition tbframe_dispatch_next ::
  "'h tbframe_hw_ops \<Rightarrow> nat option \<Rightarrow> nat \<Rightarrow> 'h world list \<Rightarrow> (nat \<times> nat \<times> 'h world list) option" where
  "tbframe_dispatch_next ops token skip ws =
    (case dispatch_scan ops token skip 0 ws of
       None \<Rightarrow> None
     | Some i \<Rightarrow> Some (i, Suc i, ws[i := upd link_get (ws ! i)]))"

lemma dispatch_scan_bounds:
  "dispatch_scan ops token skip idx ws = Some i \<Longrightarrow> skip \<le> i \<and> idx \<le> i \<and> i < idx + length ws"
  by (induction ops token skip idx ws rule: dispatch_scan.induct) (auto split: if_splits)

text \<open>The loop every walk over the links runs: visit the links in order, each under a reference, until
  one visit says to stop.\<close>

function dispatch_loop ::
  "'h tbframe_hw_ops \<Rightarrow> nat option \<Rightarrow> ('h world \<Rightarrow> (bool \<times> 'h world) option) \<Rightarrow> nat \<Rightarrow> 'h world list
   \<Rightarrow> (bool \<times> 'h world list) option" where
  "dispatch_loop ops token f skip ws =
    (case tbframe_dispatch_next ops token skip ws of
       None \<Rightarrow> Some (False, ws)
     | Some (i, skip', ws1) \<Rightarrow>
         (case f (ws1 ! i) of
            None \<Rightarrow> None
          | Some (stop, w) \<Rightarrow>
              (let ws2 = ws1[i := upd tbframe_link_put w]
               in if stop then Some (True, ws2) else dispatch_loop ops token f skip' ws2)))"
  by pat_completeness auto

termination
  by (relation "measure (\<lambda>(ops, token, f, skip, ws). length ws - skip)")
    (auto simp: tbframe_dispatch_next_def split: option.splits dest!: dispatch_scan_bounds)

declare dispatch_loop.simps [simp del]

text \<open>Inbound control packet: each matching link in turn until one consumes it.\<close>

definition tbframe_handle_packet ::
  "'h tbframe_hw_ops \<Rightarrow> nat option \<Rightarrow> u8 list \<Rightarrow> 'h tbframe_module \<Rightarrow> bool \<times> 'h tbframe_module" where
  "tbframe_handle_packet ops token buf m =
    (case dispatch_loop ops token (\<lambda>w. Some (tbframe_link_handle_packet ops (m_tf m) buf w)) 0 (m_links m) of
       None \<Rightarrow> (False, m)
     | Some (ret, ws) \<Rightarrow> (ret, m\<lparr>m_links := ws\<rparr>))"

section \<open>Client registration\<close>

definition register_link :: "tbframe_link \<Rightarrow> tbframe_link" where
  "register_link l =
    (let l = l\<lparr>parked := False\<rparr>;
         l = (if lstate l = TBFRAME_STATE_UP then l\<lparr>announce_pending := True\<rparr> else l)
     in tbframe_link_kick_locked 0 l)"

definition tbframe_register_client_tf ::
  "tbframe_client_ops option \<Rightarrow> 'h tbframe_module option \<Rightarrow> rc \<times> 'h tbframe_module option" where
  "tbframe_register_client_tf ops tf =
    (case ops of
       None \<Rightarrow> (Inl EINVAL, tf)
     | Some c \<Rightarrow>
         (case tf of
            None \<Rightarrow> (Inl ENODEV, None)
          | Some m \<Rightarrow>
              if client_ops (m_tf m) \<noteq> None then (Inl EBUSY, Some m)
              else (Inr (), Some (m\<lparr>m_tf := (m_tf m)\<lparr>client_ops := Some c\<rparr>,
                                   m_links := map (upd register_link) (m_links m)\<rparr>))))"

definition cancel_all ::
  "'h tbframe_hw_ops \<Rightarrow> tbframe \<Rightarrow> 'h world list \<Rightarrow> 'h world list option" where
  "cancel_all ops tf ws =
    map_option snd (dispatch_loop ops None (\<lambda>w. Some (False, tbframe_link_cancel_activity ops tf w)) 0 ws)"

definition down_all ::
  "'h tbframe_hw_ops \<Rightarrow> tbframe \<Rightarrow> 'h world list \<Rightarrow> 'h world list option" where
  "down_all ops tf ws =
    map_option snd
      (dispatch_loop ops None (\<lambda>w. map_option (Pair False) (tbframe_link_down_parked ops tf w)) 0 ws)"

text \<open>Unregistration: park every link, join its activity, tear it down, join what the teardown woke,
  and forget the client. No value when a teardown does not return.\<close>

definition tbframe_unregister_client_tf ::
  "'h tbframe_hw_ops \<Rightarrow> 'h tbframe_module option \<Rightarrow> 'h tbframe_module option option" where
  "tbframe_unregister_client_tf ops tf =
    (case tf of
       None \<Rightarrow> Some None
     | Some m \<Rightarrow>
         Option.bind (cancel_all ops (m_tf m) (map (upd tbframe_link_mark_parked) (m_links m))) (\<lambda>ws.
         Option.bind (down_all ops (m_tf m) ws) (\<lambda>ws.
         Option.bind (cancel_all ops (m_tf m) ws) (\<lambda>ws.
         Some (Some (m\<lparr>m_tf := (m_tf m)\<lparr>client_ops := None\<rparr>, m_links := ws\<rparr>))))))"

definition quiesce_link :: "bool \<Rightarrow> tbframe_link \<Rightarrow> tbframe_link" where
  "quiesce_link rm l = (let l = l\<lparr>parked := True\<rparr> in if rm then l\<lparr>removing := True\<rparr> else l)"

definition tbframe_prepare_quiesce ::
  "'h tbframe_hw_ops \<Rightarrow> bool \<Rightarrow> 'h tbframe_module option \<Rightarrow> 'h tbframe_module option option" where
  "tbframe_prepare_quiesce ops rm tf =
    (case tf of
       None \<Rightarrow> Some None
     | Some m \<Rightarrow>
         map_option (\<lambda>ws. Some (m\<lparr>m_links := ws\<rparr>))
           (cancel_all ops (m_tf m) (map (upd (quiesce_link rm)) (m_links m))))"

definition tbframe_prepare_stop ::
  "'h tbframe_hw_ops \<Rightarrow> 'h tbframe_module option \<Rightarrow> 'h tbframe_module option option" where
  "tbframe_prepare_stop ops = tbframe_prepare_quiesce ops True"

definition tbframe_prepare_shutdown ::
  "'h tbframe_hw_ops \<Rightarrow> 'h tbframe_module option \<Rightarrow> 'h tbframe_module option option" where
  "tbframe_prepare_shutdown ops = tbframe_prepare_quiesce ops False"

section \<open>The walk is a plain scan\<close>

text \<open>The reference: one pass over the list, each matching link visited once in list order.\<close>

fun link_scan ::
  "'h tbframe_hw_ops \<Rightarrow> nat option \<Rightarrow> ('h world \<Rightarrow> (bool \<times> 'h world) option) \<Rightarrow> 'h world list
   \<Rightarrow> (bool \<times> 'h world list) option" where
  "link_scan ops token f [] = Some (False, [])"
| "link_scan ops token f (w # ws) =
    (if \<not> link_matches ops token w then map_option (map_prod id ((#) w)) (link_scan ops token f ws)
     else case f w of
            None \<Rightarrow> None
          | Some (True, w') \<Rightarrow> Some (True, w' # ws)
          | Some (False, w') \<Rightarrow> map_option (map_prod id ((#) w')) (link_scan ops token f ws))"

lemma dispatch_scan_skipped:
  "idx + length us \<le> skip \<Longrightarrow> dispatch_scan ops token skip idx (us @ ws) = dispatch_scan ops token skip (idx + length us) ws"
proof (induction us arbitrary: idx)
  case (Cons u us)
  then show ?case using Cons.IH [of "Suc idx"] by simp
qed simp

lemma dispatch_scan_past: "skip \<le> idx \<Longrightarrow> dispatch_scan ops token skip idx ws = dispatch_scan ops token 0 idx ws"
  by (induction ws arbitrary: idx) simp_all

lemma dispatch_next_at:
  "tbframe_dispatch_next ops token (length us) (us @ w # ws) =
    (if link_matches ops token w then Some (length us, Suc (length us), us @ upd link_get w # ws)
     else tbframe_dispatch_next ops token (Suc (length us)) (us @ w # ws))"
proof -
  have "dispatch_scan ops token (length us) 0 (us @ w # ws) = dispatch_scan ops token (length us) (length us) (w # ws)"
    using dispatch_scan_skipped [of 0 us "length us" ops token "w # ws"] by simp
  moreover have "dispatch_scan ops token (Suc (length us)) 0 ((us @ [w]) @ ws) = dispatch_scan ops token (Suc (length us)) (Suc (length us)) ws"
    using dispatch_scan_skipped [of 0 "us @ [w]" "Suc (length us)" ops token ws] by simp
  ultimately show ?thesis
    using dispatch_scan_past [of "length us" "Suc (length us)" ops token ws]
      dispatch_scan_past [of "Suc (length us)" "Suc (length us)" ops token ws]
    by (simp add: tbframe_dispatch_next_def)
qed

lemma loop_scan:
  "dispatch_loop ops token f (length us) (us @ ws) =
     map_option (map_prod id ((@) us))
       (link_scan ops token (\<lambda>w. map_option (map_prod id (upd tbframe_link_put)) (f (upd link_get w))) ws)"
proof (induction ws arbitrary: us)
  case Nil
  have "dispatch_scan ops token (length us) 0 us = None"
    using dispatch_scan_skipped [of 0 us "length us" ops token "[]"] by simp
  then show ?case by (subst dispatch_loop.simps) (simp add: tbframe_dispatch_next_def)
next
  case (Cons w ws)
  show ?case
  proof (cases "link_matches ops token w")
    case False
    then have "dispatch_loop ops token f (length us) (us @ w # ws) = dispatch_loop ops token f (Suc (length us)) (us @ w # ws)"
      by (subst (1 2) dispatch_loop.simps) (simp add: dispatch_next_at)
    then show ?thesis using False Cons [of "us @ [w]"]
      by (simp add: option.map_comp comp_def prod.map_comp)
  next
    case True
    show ?thesis
    proof (cases "f (upd link_get w)")
      case None
      then show ?thesis using True by (subst dispatch_loop.simps) (simp add: dispatch_next_at)
    next
      case (Some y)
      obtain stop w' where y: "y = (stop, w')" by fastforce
      have "dispatch_loop ops token f (length us) (us @ w # ws) =
          (if stop then Some (True, us @ upd tbframe_link_put w' # ws)
           else dispatch_loop ops token f (length (us @ [upd tbframe_link_put w'])) ((us @ [upd tbframe_link_put w']) @ ws))"
        using True Some y by (subst dispatch_loop.simps) (simp add: dispatch_next_at)
      then show ?thesis using True Some y Cons [of "us @ [upd tbframe_link_put w']"]
        by (cases stop) (simp_all add: option.map_comp comp_def prod.map_comp)
    qed
  qed
qed

lemma loop_is_scan:
  "dispatch_loop ops token f 0 ws =
     link_scan ops token (\<lambda>w. map_option (map_prod id (upd tbframe_link_put)) (f (upd link_get w))) ws"
proof -
  have "map_option (map_prod id ((@) [])) x = (x :: (bool \<times> 'a world list) option)" for x
    by (cases x) (auto simp: map_prod_def)
  then show ?thesis using loop_scan [of ops token f "[]" ws] by simp
qed

section \<open>A walk's reference does not show\<close>

lemma get_commutes [simp]:
  "tbframe_link_kick_locked d (link_get l) = link_get (tbframe_link_kick_locked d l)"
  "tbframe_ready_responder_reset (link_get l) = link_get (tbframe_ready_responder_reset l)"
  "request_down r (link_get l) = link_get (request_down r l)" "hs_supersede (link_get l) = link_get (hs_supersede l)"
  "rearm_budgets (link_get l) = link_get (rearm_budgets l)" "ready_promote (link_get l) = link_get (ready_promote l)"
  "ready_acked sq xs (link_get l) = link_get (ready_acked sq xs l)" "ready_record h i (link_get l) = link_get (ready_record h i l)"
  by (simp_all add: link_get_def tbframe_link_kick_locked_def tbframe_ready_responder_reset_def request_down_def hs_supersede_def
      rearm_budgets_def ready_promote_def ready_acked_def ready_record_def Let_def split: option.split)

lemma get_invisible [simp]:
  "tbframe_link_remote_matches_locked (link_get l) h = tbframe_link_remote_matches_locked l h"
  "ready_blocked (link_get l) = ready_blocked l" "packet_refused op (link_get l) = packet_refused op l"
  "tbframe_link_fill_local_hello tf (link_get l) caps = tbframe_link_fill_local_hello tf l caps"
  "tbframe_link_selected_peer_caps (link_get l) = tbframe_link_selected_peer_caps l"
  by (simp_all add: link_get_def tbframe_link_remote_matches_locked_def ready_blocked_def packet_refused_def
      tbframe_link_fill_local_hello_def tbframe_link_selected_peer_caps_def)

lemma get_fields [simp]:
  "lroute (link_get l) = lroute l" "hello_done (link_get l) = hello_done l" "lstate (link_get l) = lstate l"
  "needs_down (link_get l) = needs_down l" "rings_up (link_get l) = rings_up l" "paths_enabled (link_get l) = paths_enabled l"
  "tx_quiesced (link_get l) = tx_quiesced l" "ring_posted (link_get l) = ring_posted l" "ready_responder (link_get l) = ready_responder l"
  "(link_get l)\<lparr>hello_responder := r\<rparr> = link_get (l\<lparr>hello_responder := r\<rparr>)"
  "(link_get l)\<lparr>needs_down := b, down_reason := d\<rparr> = link_get (l\<lparr>needs_down := b, down_reason := d\<rparr>)"
  by (simp_all add: link_get_def)

abbreviation held :: "'r \<times> 'h world \<Rightarrow> 'r \<times> 'h world" where
  "held \<equiv> map_prod id (upd link_get)"

lemma held_call: "hw_call f ob (upd link_get w) = held (hw_call f ob w)"
  by (simp add: hw_call_def upd_def obs_def split: prod.split)

lemma held_reply:
  "tbframe_link_reply ops tf op caps sq xs (upd link_get w) = held (tbframe_link_reply ops tf op caps sq xs w)"
  by (simp add: tbframe_link_reply_def Let_def held_call split: sum.split)

lemma held_reply_upd:
  "tbframe_link_reply ops tf op caps sq xs (upd (\<lambda>l. link_get (f l)) w) = held (tbframe_link_reply ops tf op caps sq xs (upd f w))"
  using held_reply [of ops tf op caps sq xs "upd f w"] by simp

lemma held_flush:
  "tbframe_link_flush_ready_response id ops tf (upd link_get w) = held (tbframe_link_flush_ready_response id ops tf w)"
  by (simp add: tbframe_link_flush_ready_response_def Let_def held_reply_upd case_prod_beta split: sum.split)

lemma held_flush_upd:
  "tbframe_link_flush_ready_response id ops tf (upd (\<lambda>l. link_get (f l)) w)
     = held (tbframe_link_flush_ready_response id ops tf (upd f w))"
  using held_flush [of ops tf "upd f w"] by simp

lemma held_packet: "tbframe_link_handle_packet ops tf buf (upd link_get w) = held (tbframe_link_handle_packet ops tf buf w)"
proof -
  have "handle_hello ops tf h i (upd link_get w) = held (handle_hello ops tf h i w)" for h i
    by (simp add: handle_hello_def Let_def held_reply_upd)
  moreover have "handle_ready ops tf h i (upd link_get w) = held (handle_ready ops tf h i w)" for h i
    by (simp add: handle_ready_def held_flush_upd)
  moreover have "handle_bye ops tf h i (upd link_get w) = held (handle_bye ops tf h i w)" for h i
  proof -
    let ?c = "(lstate (lnk w) = TBFRAME_STATE_UP \<or> rings_up (lnk w) \<and> paths_enabled (lnk w)) \<and> \<not> needs_down (lnk w)"
    define w1 where "w1 = (if ?c then upd (request_down TBFRAME_DOWN_LOGOUT) w else w)"
    have "(if ?c then upd (request_down TBFRAME_DOWN_LOGOUT) (upd link_get w) else upd link_get w) = upd link_get w1"
      by (simp add: w1_def)
    then show ?thesis unfolding handle_bye_def Let_def upd_sel get_fields w1_def [symmetric] by (simp add: held_reply)
  qed
  ultimately show ?thesis by (simp add: tbframe_link_handle_packet_def split: sum.split prod.split)
qed

lemma put_get [simp]: "tbframe_link_put (link_get l) = l" "upd (\<lambda>l. l) w = w"
  by (simp_all add: upd_def tbframe_link_put_def link_get_def)

text \<open>The reference for packet dispatch: a single pass, no cursor, no reference.\<close>

fun packet_scan ::
  "'h tbframe_hw_ops \<Rightarrow> tbframe \<Rightarrow> nat option \<Rightarrow> u8 list \<Rightarrow> 'h world list \<Rightarrow> bool \<times> 'h world list" where
  "packet_scan ops tf token buf [] = (False, [])"
| "packet_scan ops tf token buf (w # ws) =
    (if link_matches ops token w
     then (let (ret, w') = tbframe_link_handle_packet ops tf buf w
           in if ret then (True, w' # ws) else map_prod id ((#) w') (packet_scan ops tf token buf ws))
     else map_prod id ((#) w) (packet_scan ops tf token buf ws))"

lemma scan_packet:
  "link_scan ops token (\<lambda>w. map_option (map_prod id (upd tbframe_link_put)) (Some (tbframe_link_handle_packet ops tf buf (upd link_get w)))) ws
     = Some (packet_scan ops tf token buf ws)"
  by (induction ws) (simp_all add: held_packet case_prod_beta Let_def map_prod_def split: bool.split)


section \<open>Parked links stay parked\<close>

named_theorems parked_simps

lemma parked_interfere [parked_simps]: "parked (lnk w) \<Longrightarrow> parked (lnk (interfere ops tf w))"
  by (rule parked_closed.window)

lemma parked_run [parked_simps]: "parked (lnk w) \<Longrightarrow> parked (lnk (hw_run ops tf f ob w))"
  by (simp add: hw_run_def parked_simps)

lemma parked_fields [parked_simps]:
  "parked (tbframe_link_kick_locked d l) = parked l" "parked (quarantine_commit l) = parked l"
  "parked (snd (tbframe_link_next_request_seq l)) = parked l" "parked ((down_close owner c l)\<lparr>verify_timer := None\<rparr>) = parked l"
  by (simp_all add: tbframe_link_kick_locked_def quarantine_commit_def tbframe_link_next_request_seq_def down_close_def Let_def
      tbframe_ready_responder_reset_def tbframe_hello_responder_reset_def split: option.split)

lemma parked_bye_loop [parked_simps]: "parked (lnk w) \<Longrightarrow> parked (lnk (bye_loop n ops tf req sq w))"
proof (induction n arbitrary: w)
  case (Suc n)
  have "parked (lnk (snd (control_exchange ops tf req TBFRAME_BYE_TIMEOUT_MS w)))"
    using Suc.prems by (simp add: control_exchange_def case_prod_beta parked_simps split: sum.split)
  then show ?case using Suc.IH by (simp add: case_prod_beta split: sum.split)
qed simp

lemma parked_bye [parked_simps]: "parked (lnk w) \<Longrightarrow> parked (lnk (tbframe_link_bye ops tf w))"
  by (simp add: tbframe_link_bye_def Let_def case_prod_beta parked_simps split: sum.split)

lemma parked_tx [parked_simps]: "parked (lnk (fold (\<lambda>q. tbframe_core_tx_complete ops tf q c) qs w)) = parked (lnk w)"
proof (induction qs arbitrary: w)
  case (Cons q qs)
  have "session_view (lnk (tbframe_core_tx_complete ops tf q c w)) = session_view (lnk w)" by simp
  from session_viewD(3) [OF this] show ?case using Cons by simp
qed simp

lemma parked_phases [parked_simps]:
  "parked (lnk w) \<Longrightarrow> parked (lnk (down_flush ops tf w))"
  "parked (lnk w) \<Longrightarrow> parked (lnk (down_quiesce ops tf b w))"
  "parked (lnk w) \<Longrightarrow> parked (lnk (snd (down_disconnect ops tf l0 w)))"
  "parked (lnk w) \<Longrightarrow> parked (lnk (snd (tbframe_link_quarantine_paths ops tf h w)))"
  "parked (lnk w) \<Longrightarrow> parked (lnk (down_release ops tf l0 ret terminal w))"
  "parked (lnk w) \<Longrightarrow> parked (lnk (tbframe_link_notify_down ops tf reason was_up terminal w))"
  "parked (lnk w) \<Longrightarrow> parked (lnk (down_rekick reason w))"
  by (simp_all add: down_flush_def down_quiesce_def down_disconnect_def tbframe_link_quarantine_paths_def down_release_def
      tbframe_link_notify_down_def down_rekick_def tbframe_link_kick_def Let_def case_prod_beta parked_simps
      split: option.split sum.split)

lemma parked_settle [parked_simps]: "parked (lnk w) \<Longrightarrow> parked (lnk (snd (down_settle ops tf l0 ret reason w)))"
  by (simp add: down_settle_def Let_def case_prod_beta parked_simps split: sum.split)

lemma parked_drain: "publisher_drain ops tf t d w = Some (b, w') \<Longrightarrow> parked (lnk w) \<Longrightarrow> parked (lnk w')"
proof (induction ops tf t d w rule: publisher_drain.induct)
  case (1 ops tf t d w)
  then show ?case
    by (subst (asm) (2) publisher_drain.simps) (auto simp: parked_simps split: if_splits list.splits)
qed

lemma parked_down:
  assumes "parked (lnk w)" "tbframe_link_down_session ops tf reason owner w = Some (r, w')"
  shows "parked (lnk w')"
proof -
  have r: "lnk (snd (get_random_u64 w)) = lnk w" by simp
  have "parked (lnk u) \<Longrightarrow> parked (lnk (snd (down_rest ops tf l0 reason b u)))" for u l0 b
    by (simp add: down_rest_def Let_def case_prod_beta parked_simps)
  then show ?thesis
    using assms(2) parked_drain [of ops tf "drain_budget tf"] assms(1)
    by (auto simp: tbframe_link_down_session_def Let_def case_prod_beta prod_eq_iff parked_simps r split: option.splits) 
qed

section \<open>Walks over all links\<close>

lemma scan_all: "link_scan ops None (\<lambda>w. map_option (Pair False) (g w)) ws = map_option (Pair False) (those (map g ws))"
  by (induction ws) (auto simp: link_matches_def option.map_comp comp_def split: option.split)

lemma those_list: "those (map g ws) = Some us \<Longrightarrow> list_all2 (\<lambda>w u. g w = Some u) ws us"
  by (induction ws arbitrary: us) (auto split: option.splits)

lemma those_Some: "those (map (\<lambda>w. Some (g w)) ws) = Some (map g ws)"
  by (induction ws) simp_all

definition cancel_one :: "'h tbframe_hw_ops \<Rightarrow> tbframe \<Rightarrow> 'h world \<Rightarrow> 'h world" where
  "cancel_one ops tf w = upd tbframe_link_put (tbframe_link_cancel_activity ops tf (upd link_get w))"

definition down_one :: "'h tbframe_hw_ops \<Rightarrow> tbframe \<Rightarrow> 'h world \<Rightarrow> 'h world option" where
  "down_one ops tf w = map_option (upd tbframe_link_put) (tbframe_link_down_parked ops tf (upd link_get w))"

lemma cancel_all_eq: "cancel_all ops tf ws = Some (map (cancel_one ops tf) ws)"
  using scan_all [of ops "\<lambda>w. Some (cancel_one ops tf w)" ws]
  by (simp add: cancel_all_def loop_is_scan cancel_one_def those_Some)

lemma down_all_eq: "down_all ops tf ws = those (map (down_one ops tf) ws)"
proof -
  have "(\<lambda>w. map_option (map_prod id (upd tbframe_link_put)) (map_option (Pair False) (tbframe_link_down_parked ops tf (upd link_get w))))
      = (\<lambda>w. map_option (Pair False) (down_one ops tf w))"
    by (simp add: down_one_def option.map_comp comp_def fun_eq_iff)
  then show ?thesis using scan_all [of ops "down_one ops tf" ws]
    by (simp add: down_all_def loop_is_scan option.map_comp comp_def option.map_ident)
qed

section \<open>What the walks leave\<close>

lemma get_res: "res_ok tf k w \<Longrightarrow> res_ok tf (Suc k) (upd link_get w)"
proof -
  assume a: "res_ok tf k w"
  have l: "adm_inv tf (link_get l) = adm_inv tf l" "rx_inv (link_get l) = rx_inv l" "res_view (link_get l) = res_view l" for l
    by (simp_all add: link_get_def rx_inv_def)
  have "ref_inv k l \<Longrightarrow> ref_inv (Suc k) (link_get l)" for l by (simp add: ref_inv_def link_get_def)
  then show ?thesis
    using a l rs_of_cong [OF l(3), of "lnk w"] res_inv_cong [OF l(3), of "lnk w"]
    by (simp add: res_ok_def link_inv_def pool_inv_def)
qed

definition quiet_link :: "tbframe_link \<Rightarrow> bool" where
  "quiet_link l =
    (parked l \<and> session_work l = None \<and> verify_timer l = None \<and> \<not> verify_work l \<and> \<not> tx_released_work l)"

lemma cancel_one_ok:
  assumes "res_ok tf 1 w" "parked (lnk w)"
  shows "res_ok tf 1 (cancel_one ops tf w)" "quiet_link (lnk (cancel_one ops tf w))"
    "owner_view (lnk (cancel_one ops tf w)) = owner_view (lnk w)"
proof -
  have c: "calm (\<lambda>l. l\<lparr>verify_timer := None, session_work := None, verify_work := False, tx_released_work := False\<rparr>)"
    by (simp add: calm_def)
  have "res_ok tf 2 (tbframe_link_cancel_activity ops tf (upd link_get w))"
    using get_res [OF assms(1)] resources.events.window
    by (simp add: tbframe_link_cancel_activity_def res_ok_upd [OF calm_soft [OF c]] numeral_2_eq_2)
  then show "res_ok tf 1 (cancel_one ops tf w)" using put_res [of tf 1] by (simp add: cancel_one_def numeral_2_eq_2)
  have "parked (lnk (interfere ops tf (upd link_get w)))"
    using assms(2) by (intro parked_interfere) (simp add: link_get_def)
  then show "quiet_link (lnk (cancel_one ops tf w))"
    by (simp add: cancel_one_def quiet_link_def tbframe_link_cancel_activity_def tbframe_link_put_def)
  have "owner_view (lnk (interfere ops tf (upd link_get w))) = owner_view (link_get (lnk w))" by simp
  then show "owner_view (lnk (cancel_one ops tf w)) = owner_view (lnk w)"
    by (simp add: cancel_one_def tbframe_link_cancel_activity_def tbframe_link_put_def link_get_def owner_view_def session_view_def)
qed

lemma down_one_ok:
  assumes "res_ok tf 1 w" "parked (lnk w)" "down_one ops tf w = Some w'"
  shows "res_ok tf 1 w'" "parked (lnk w')" "lstate (lnk w') \<noteq> TBFRAME_STATE_UP" "\<not> rings_up (lnk w')"
    "paths_owned (lnk w') \<longrightarrow> lstate (lnk w') = TBFRAME_STATE_DEAD"
proof -
  obtain r u where d: "tbframe_link_down_session ops tf TBFRAME_DOWN_CLOSED TBFRAME_SESSION_LOCAL (upd link_get w) = Some (r, u)"
      and w': "w' = upd tbframe_link_put u"
    using assms(3) by (auto simp: down_one_def tbframe_link_down_parked_def)
  have dd: "down_done tf 2 (lnk (upd link_get w)) TBFRAME_DOWN_CLOSED r u"
    using down_session_ok [OF _ d, of 2] get_res [OF assms(1)] by (simp add: numeral_2_eq_2)
  have p: "parked (lnk u)" using parked_down [OF _ d] assms(2) by (simp add: link_get_def)
  show "res_ok tf 1 w'" using dd put_res [of tf 1 u] by (simp add: down_done_def w' numeral_2_eq_2)
  show "parked (lnk w')" "lstate (lnk w') \<noteq> TBFRAME_STATE_UP" "\<not> rings_up (lnk w')"
    using p dd by (simp_all add: w' down_done_def tbframe_link_put_def)
  show "paths_owned (lnk w') \<longrightarrow> lstate (lnk w') = TBFRAME_STATE_DEAD"
    using dd by (auto simp: w' down_done_def tbframe_link_put_def)
qed

lemma res_ok_client: "res_ok (tf\<lparr>client_ops := c\<rparr>) k w = res_ok tf k w"
  by (simp add: res_ok_def link_inv_def pool_inv_def adm_inv_def tx_budget_ok_def)

definition links_ok :: "'h tbframe_module \<Rightarrow> bool" where
  "links_ok m = list_all (res_ok (m_tf m) 1) (m_links m)"

lemma soft_fields: "soft (\<lambda>l. l\<lparr>parked := b\<rparr>)" "soft tbframe_link_mark_parked" "soft (quiesce_link rm)" "soft register_link"
proof -
  show "soft (\<lambda>l. l\<lparr>parked := b\<rparr>)" "soft tbframe_link_mark_parked" "soft (quiesce_link rm)"
    by (simp_all add: soft_def tbframe_link_mark_parked_def quiesce_link_def Let_def)
  show "soft register_link" by (simp add: soft_def register_link_def Let_def)
qed

definition silenced :: "tbframe_link \<Rightarrow> bool" where
  "silenced l =
    (quiet_link l \<and> lstate l \<noteq> TBFRAME_STATE_UP \<and> \<not> rings_up l \<and> (paths_owned l \<longrightarrow> lstate l = TBFRAME_STATE_DEAD))"

text \<open>One link through unregistration.\<close>

lemma unregister_one:
  assumes "res_ok tf 1 w" "down_one ops tf (cancel_one ops tf (upd tbframe_link_mark_parked w)) = Some u"
  defines "v \<equiv> cancel_one ops tf u"
  shows "res_ok tf 1 v \<and> silenced (lnk v)"
proof -
  let ?w = "upd tbframe_link_mark_parked w"
  have 1: "res_ok tf 1 ?w" "parked (lnk ?w)"
    using assms(1) by (simp add: res_ok_upd [OF soft_fields(2)], simp add: tbframe_link_mark_parked_def)
  note 2 = cancel_one_ok [OF 1, of ops]
  have p: "parked (lnk (cancel_one ops tf ?w))" using 2(2) by (simp add: quiet_link_def)
  note 3 = down_one_ok [OF 2(1) p assms(2)]
  note 4 = cancel_one_ok [OF 3(1,2), of ops, folded v_def]
  show ?thesis
    unfolding silenced_def owner_viewD(1) [OF 4(3)] owner_viewD(4) [OF 4(3)] owner_viewD(6) [OF 4(3)] using 4(1,2) 3(3-5) by blast
qed

lemma those_map_ex: "(\<And>w. \<exists>u. g w = Some u) \<Longrightarrow> \<exists>us. those (map g ws) = Some us"
proof (induction ws)
  case (Cons w ws)
  then obtain u us where "g w = Some u" "those (map g ws) = Some us" by blast
  then show ?case by simp
qed simp


text \<open>A link in session, with the calls that brought it up.\<close>

definition world_up :: "unit world" where
  "world_up = (world_of link_up_sample)\<lparr>trace := [OAllocRings (Inr ()), OAllocInHopid 9 (Inr ()), OStartRings, OEnablePaths 8 9 (Inr ())]\<rparr>"

lemma world_up_ok: "res_ok tf_sample 1 world_up"
proof -
  have "pool_inv tf_sample 1 link_up_sample" by (rule fresh_pool_inv [OF sample_fresh(2)])
  then show ?thesis
    by (simp add: res_ok_def world_up_def link_inv_def rx_inv_def res_inv_def rs_of_def rs_init_def sample_defs spec_run_def guard_def)
qed


text \<open>C22: A client that registers late is told of every established link: registration queues the
  session work of an UP link, and that work delivers link_up once and clears the request, provided
  no teardown is pending, the data path is proven and no READY answer is outstanding.\<close>

theorem register_replays_up:
  assumes "client_ops (m_tf m) = None" "has_link_up c" "w \<in> set (m_links m)"
    "lstate (lnk w) = TBFRAME_STATE_UP" "\<not> removing (lnk w)" "\<not> needs_down (lnk w)" "hello_done (lnk w)" "rings_up (lnk w)"
    "request_sent (hs (lnk w))" "data_proven (lnk w)" "rr_state (ready_responder (lnk w)) = TBFRAME_READY_RESPONDER_ACKED"
  shows "\<exists>m' w1 w2 i. tbframe_register_client_tf (Some c) (Some m) = (Inr (), Some m') \<and> w1 \<in> set (m_links m')
    \<and> session_work (lnk w1) = Some 0 \<and> tbframe_session_workfn ops (m_tf m') w1 = Some w2
    \<and> filter edge (trace w2) = filter edge (trace w) @ [OLinkUp i] \<and> \<not> announce_pending (lnk w2)"
proof -
  define tf where "tf = (m_tf m)\<lparr>client_ops := Some c\<rparr>"
  define w1 where "w1 = upd (\<lambda>l. l\<lparr>parked := False, announce_pending := True, session_work := None\<rparr>) w"
  define w2 where "w2 = upd (\<lambda>l. l\<lparr>announce_pending := False\<rparr>) w1"
  have reg: "register_link (lnk w) = (lnk w)\<lparr>parked := False, announce_pending := True, session_work := Some 0\<rparr>"
    using assms by (simp add: register_link_def tbframe_link_kick_locked_def Let_def)
  then have start: "upd (\<lambda>l. l\<lparr>session_work := None\<rparr>) (upd register_link w) = w1"
    by (simp add: w1_def upd_def)
  have p: "ready_promote (lnk w1) = lnk w1" "ready_blocked (lnk w1)"
    using assms by (simp_all add: w1_def ready_promote_def ready_blocked_def)
  have "upd ready_promote w1 = w1" using p(1) by (simp add: upd_def)
  then have f: "tbframe_link_flush_ready_response (interfere ops tf) ops tf w1 = (Inr (), w1)"
    using p by (simp add: tbframe_link_flush_ready_response_def Let_def)
  have "tbframe_link_maybe_up ops tf w1 = up_deliver ops tf w2"
    using assms by (simp add: tbframe_link_maybe_up_def up_ready_def w1_def w2_def)
  then have "step_prove ops tf w1 = up_deliver ops tf w2"
    using assms by (simp add: step_prove_def tbframe_link_prove_data_path_def w1_def)
  then have step: "tbframe_session_workfn ops tf (upd register_link w) = Some (up_deliver ops tf w2)"
    using assms f unfolding tbframe_session_workfn_def start
    by (simp add: tbframe_link_session_step_def step_hello_def step_rings_def step_ready_def w1_def Let_def)
  obtain i where i: "tbframe_link_deliver_up ops tf (tbframe_link_fill_info_locked (lnk w2)) w2 = obs (OLinkUp i) w2"
    using assms(2) by (simp add: tbframe_link_deliver_up_def tf_def Let_def)
  have e: "edges (interfere ops tf (obs (OLinkUp i) w2)) = edges (obs (OLinkUp i) w2)" by simp
  have t: "trace w2 = trace w" by (simp add: w2_def w1_def)
  have "filter edge (trace (up_deliver ops tf w2)) = filter edge (trace w) @ [OLinkUp i]"
    using edges_sel [OF e] by (simp add: up_deliver_def i t)
  moreover have "\<not> announce_pending (lnk (up_deliver ops tf w2))"
    by (simp add: up_deliver_def i rearm_verify_timer_def) (simp add: w2_def)
  moreover have "tbframe_register_client_tf (Some c) (Some m)
      = (Inr (), Some (m\<lparr>m_tf := tf, m_links := map (upd register_link) (m_links m)\<rparr>))"
    using assms(1) by (simp add: tbframe_register_client_tf_def tf_def)
  moreover have "session_work (lnk (upd register_link w)) = Some 0" by (simp add: reg)
  ultimately show ?thesis
    using assms(3) step
    by (intro exI [of _ "m\<lparr>m_tf := tf, m_links := map (upd register_link) (m_links m)\<rparr>"] exI [of _ "upd register_link w"]
        exI [of _ "up_deliver ops tf w2"] exI [of _ i]) simp
qed

theorem register_replays_up_witness:
  "\<exists>m' w1 w2 i. tbframe_register_client_tf (Some (the (client_ops tf_sample)))
      (Some \<lparr>m_tf = tf_sample\<lparr>client_ops := None\<rparr>, m_links = [world_of (link_up_sample\<lparr>data_proven := True,
         ready_responder := (ready_responder link_up_sample)\<lparr>rr_state := TBFRAME_READY_RESPONDER_ACKED\<rparr>\<rparr>)]\<rparr>) = (Inr (), Some m')
    \<and> w1 \<in> set (m_links m') \<and> tbframe_session_workfn hw_accept (m_tf m') w1 = Some w2 \<and> filter edge (trace w2) = [OLinkUp i]"
proof -
  let ?w = "world_of (link_up_sample\<lparr>data_proven := True,
         ready_responder := (ready_responder link_up_sample)\<lparr>rr_state := TBFRAME_READY_RESPONDER_ACKED\<rparr>\<rparr>)"
  let ?m = "\<lparr>m_tf = tf_sample\<lparr>client_ops := None\<rparr>, m_links = [?w]\<rparr>"
  have "trace ?w = []" by (simp add: world_of_def)
  then show ?thesis
    using register_replays_up [of ?m "the (client_ops tf_sample)" ?w hw_accept] by (fastforce simp: sample_defs)
qed

end
