(* ===== verification/Tb_Property.thy ===== *)
theory Tb_Property
  imports Tb_Prelude
begin

text \<open>
  XDomain property directories (\<^verbatim>\<open>drivers/thunderbolt/property.c\<close>): the tree of keyed
  properties two hosts exchange to find each other's services, the packed block of dwords it travels
  in, and the operations that build, format, parse, copy and release it.

  A block is a list of dwords, so that an access outside it shows; the parser's recursion consumes a
  stack of given depth, and every allocation may fail. Offsets of the formatter are natural numbers:
  they are bounded by the block, and a block of 2^32 dwords cannot be allocated. The third dword of an
  entry is laid out as on a little-endian host.

  Shown: the size query is exact; formatting then parsing is the identity; the parser does not leak;
  and the checks that do not hold against a hostile block.
\<close>

section \<open>Directories\<close>

text \<open>The structures of the kernel header: a property has a key of at most eight characters, a length
  in dwords and a value that its type selects; a directory that is not a root carries a UUID. The
  type codes are the letters D, d, t and v.\<close>

datatype tb_property_type =
    TB_PROPERTY_TYPE_UNKNOWN | TB_PROPERTY_TYPE_DIRECTORY | TB_PROPERTY_TYPE_DATA
  | TB_PROPERTY_TYPE_TEXT | TB_PROPERTY_TYPE_VALUE

definition TB_PROPERTY_KEY_SIZE :: nat where "TB_PROPERTY_KEY_SIZE = 8"

fun type_code :: "tb_property_type \<Rightarrow> u8" where
  "type_code TB_PROPERTY_TYPE_UNKNOWN = 0"
| "type_code TB_PROPERTY_TYPE_DIRECTORY = 0x44"
| "type_code TB_PROPERTY_TYPE_DATA = 0x64"
| "type_code TB_PROPERTY_TYPE_TEXT = 0x74"
| "type_code TB_PROPERTY_TYPE_VALUE = 0x76"

definition type_of_code :: "u8 \<Rightarrow> tb_property_type" where
  "type_of_code c =
    (if c = 0x44 then TB_PROPERTY_TYPE_DIRECTORY
     else if c = 0x64 then TB_PROPERTY_TYPE_DATA
     else if c = 0x74 then TB_PROPERTY_TYPE_TEXT
     else if c = 0x76 then TB_PROPERTY_TYPE_VALUE
     else TB_PROPERTY_TYPE_UNKNOWN)"

datatype tb_property = Prop (pkey: "u8 list") (plength: nat) (pvalue: tb_property_value)
and tb_property_value = VDir tb_property_dir | VData "u8 list" | VText "u8 list" | VImm u32 | VUnknown
and tb_property_dir = Dir (duuid: "u32 list option") (dprops: "tb_property list")

fun ptype :: "tb_property_value \<Rightarrow> tb_property_type" where
  "ptype (VDir _) = TB_PROPERTY_TYPE_DIRECTORY"
| "ptype (VData _) = TB_PROPERTY_TYPE_DATA"
| "ptype (VText _) = TB_PROPERTY_TYPE_TEXT"
| "ptype (VImm _) = TB_PROPERTY_TYPE_VALUE"
| "ptype VUnknown = TB_PROPERTY_TYPE_UNKNOWN"

section \<open>Memory\<close>

text \<open>The allocator answers from a list of outcomes, and succeeds once the list is used up; the number
  of live objects counts what is allocated and not yet freed. An allocation of no bytes always
  succeeds and is no object. A fault is an access outside an object, a null dereference or a call
  chain deeper than the kernel stack.\<close>

record pmem =
  outcomes :: "bool list"
  live :: int

datatype fault = OutOfBounds | NullDeref | StackOverflow

type_synonym 'a pres = "fault + 'a \<times> pmem"

definition kzalloc :: "nat \<Rightarrow> pmem \<Rightarrow> bool \<times> pmem" where
  "kzalloc n m =
    (if n = 0 then (True, m)
     else case outcomes m of
            [] \<Rightarrow> (True, m\<lparr>live := live m + 1\<rparr>)
          | b # bs \<Rightarrow> (b, m\<lparr>outcomes := bs, live := (if b then live m + 1 else live m)\<rparr>))"

definition kfree :: "nat \<Rightarrow> pmem \<Rightarrow> pmem" where
  "kfree n m = (if n = 0 then m else m\<lparr>live := live m - 1\<rparr>)"

definition rd :: "u32 list \<Rightarrow> nat \<Rightarrow> nat \<Rightarrow> u32 list option" where
  "rd block off n = (if off + n \<le> length block then Some (take n (drop off block)) else None)"

definition wr :: "u32 list \<Rightarrow> nat \<Rightarrow> u32 list \<Rightarrow> u32 list option" where
  "wr block off ds =
    (if off + length ds \<le> length block then Some (take off block @ ds @ drop (off + length ds) block) else None)"

section \<open>Entries\<close>

record tb_property_entry =
  key_hi :: u32
  key_lo :: u32
  elength :: u16
  ereserved :: u8
  etype :: u8
  evalue :: u32

definition TB_PROPERTY_ROOTDIR_MAGIC :: u32 where "TB_PROPERTY_ROOTDIR_MAGIC = 0x55584401"

text \<open>A dword of the block carries four bytes, the first in its top byte.\<close>

definition dw_bytes :: "u32 \<Rightarrow> u8 list" where
  "dw_bytes d = [ucast (drop_bit 24 d), ucast (drop_bit 16 d), ucast (drop_bit 8 d), ucast d]"

definition parse_dwdata :: "u32 list \<Rightarrow> u8 list" where
  "parse_dwdata ds = concat (map dw_bytes ds)"

fun format_dwdata :: "u8 list \<Rightarrow> nat \<Rightarrow> u32 list" where
  "format_dwdata (a # b # c # d # bs) (Suc n) =
    (push_bit 24 (ucast a) OR push_bit 16 (ucast b) OR push_bit 8 (ucast c) OR ucast d) # format_dwdata bs n"
| "format_dwdata _ _ = []"

definition entry_of :: "u32 list \<Rightarrow> tb_property_entry" where
  "entry_of ds = \<lparr>key_hi = ds ! 0, key_lo = ds ! 1, elength = ucast (ds ! 2), ereserved = ucast (drop_bit 16 (ds ! 2)),
     etype = ucast (drop_bit 24 (ds ! 2)), evalue = ds ! 3\<rparr>"

definition tb_property_entry_valid :: "tb_property_entry \<Rightarrow> nat \<Rightarrow> bool" where
  "tb_property_entry_valid e block_len =
    (case type_of_code (etype e) of
       TB_PROPERTY_TYPE_VALUE \<Rightarrow> elength e = 1
     | TB_PROPERTY_TYPE_UNKNOWN \<Rightarrow> True
     | _ \<Rightarrow> \<not> unat (elength e) > block_len \<and> \<not> unat (evalue e + ucast (elength e)) > block_len)"

definition tb_property_key_valid :: "u8 list option \<Rightarrow> bool" where
  "tb_property_key_valid key = (case key of None \<Rightarrow> False | Some k \<Rightarrow> length k \<le> TB_PROPERTY_KEY_SIZE)"

text \<open>A string ends at its first NUL.\<close>

definition cstr :: "u8 list \<Rightarrow> u8 list" where
  "cstr bs = takeWhile (\<lambda>c. c \<noteq> 0) bs"

section \<open>Release\<close>

definition tb_property_alloc :: "pmem \<Rightarrow> bool \<times> pmem" where
  "tb_property_alloc m = kzalloc 1 m"

fun tb_property_free :: "tb_property \<Rightarrow> pmem \<Rightarrow> pmem"
and tb_property_free_dir :: "tb_property_dir \<Rightarrow> pmem \<Rightarrow> pmem"
and free_props :: "tb_property list \<Rightarrow> pmem \<Rightarrow> pmem" where
  "tb_property_free (Prop k n v) m =
    kfree 1 (case v of
       VDir d \<Rightarrow> tb_property_free_dir d m
     | VData _ \<Rightarrow> kfree n m
     | VText _ \<Rightarrow> kfree n m
     | _ \<Rightarrow> m)"
| "tb_property_free_dir (Dir u ps) m = kfree 1 (kfree (if u = None then 0 else 1) (free_props ps m))"
| "free_props [] m = m"
| "free_props (p # ps) m = free_props ps (tb_property_free p m)"

section \<open>Parsing\<close>

text \<open>One entry. The directory parser is an argument: the call for a nested directory, one level
  deeper on the stack.\<close>

definition tb_property_parse ::
  "(u32 \<Rightarrow> u64 \<Rightarrow> pmem \<Rightarrow> tb_property_dir option pres) \<Rightarrow> u32 list \<Rightarrow> tb_property_entry \<Rightarrow> pmem
   \<Rightarrow> tb_property option pres" where
  "tb_property_parse parse_dir block e m =
    (if \<not> tb_property_entry_valid e (length block) then Inr (None, m)
     else
       let key = cstr (parse_dwdata [key_hi e, key_lo e]);
           len = unat (elength e);
           (ok, m) = tb_property_alloc m
       in if \<not> ok then Inr (None, m)
          else case type_of_code (etype e) of
             TB_PROPERTY_TYPE_DIRECTORY \<Rightarrow>
               (case parse_dir (evalue e) (ucast (elength e)) m of
                  Inl f \<Rightarrow> Inl f
                | Inr (None, m) \<Rightarrow> Inr (None, kfree 1 m)
                | Inr (Some d, m) \<Rightarrow> Inr (Some (Prop key len (VDir d)), m))
           | TB_PROPERTY_TYPE_DATA \<Rightarrow>
               (let (ok, m) = kzalloc len m
                in if \<not> ok then Inr (None, kfree 1 m)
                   else case rd block (unat (evalue e)) len of
                          None \<Rightarrow> Inl OutOfBounds
                        | Some ds \<Rightarrow> Inr (Some (Prop key len (VData (parse_dwdata ds))), m))
           | TB_PROPERTY_TYPE_TEXT \<Rightarrow>
               (let (ok, m) = kzalloc len m
                in if \<not> ok then Inr (None, kfree 1 m)
                   else case rd block (unat (evalue e)) len of
                          None \<Rightarrow> Inl OutOfBounds
                        | Some ds \<Rightarrow>
                            if len = 0 then Inl OutOfBounds
                            else Inr (Some (Prop key len (VText ((parse_dwdata ds)[len * 4 - 1 := 0]))), m))
           | TB_PROPERTY_TYPE_VALUE \<Rightarrow> Inr (Some (Prop key len (VImm (evalue e))), m)
           | TB_PROPERTY_TYPE_UNKNOWN \<Rightarrow> Inr (Some (Prop key len VUnknown), m))"

text \<open>The loop over the entries of a directory; a failure releases the directory with what it has.\<close>

fun parse_entries ::
  "(tb_property_entry \<Rightarrow> pmem \<Rightarrow> tb_property option pres) \<Rightarrow> u32 list \<Rightarrow> nat \<Rightarrow> nat \<Rightarrow> u32 list option
   \<Rightarrow> tb_property list \<Rightarrow> pmem \<Rightarrow> tb_property_dir option pres" where
  "parse_entries parse block off n u ps m =
    (if n = 0 then Inr (Some (Dir u ps), m)
     else case rd block off 4 of
            None \<Rightarrow> Inl OutOfBounds
          | Some ds \<Rightarrow>
              (case parse (entry_of ds) m of
                 Inl f \<Rightarrow> Inl f
               | Inr (None, m) \<Rightarrow> Inr (None, tb_property_free_dir (Dir u ps) m)
               | Inr (Some p, m) \<Rightarrow> parse_entries parse block (off + 4) (n - 1) u (ps @ [p]) m))"

declare parse_entries.simps [simp del]

text \<open>A directory at an offset. When the copy of the UUID fails the directory is released before its
  list head is set up, which follows the null pointer in it.\<close>

fun parse_dir ::
  "nat \<Rightarrow> u32 list \<Rightarrow> u32 \<Rightarrow> u64 \<Rightarrow> bool \<Rightarrow> pmem \<Rightarrow> tb_property_dir option pres" where
  "parse_dir 0 block dir_offset dir_len is_root m = Inl StackOverflow"
| "parse_dir (Suc depth) block dir_offset dir_len is_root m =
    (let (ok, m) = kzalloc 1 m;
         parse = tb_property_parse (\<lambda>off len. parse_dir depth block off len False) block
     in if \<not> ok then Inr (None, m)
        else if is_root
        then parse_entries parse block (unat (dir_offset + 2)) (unat dir_len div 4) None [] m
        else
          let (ok, m) = kzalloc 1 m
          in if \<not> ok then Inl NullDeref
             else case rd block (unat dir_offset) 4 of
                    None \<Rightarrow> Inl OutOfBounds
                  | Some u \<Rightarrow>
                      parse_entries parse block (unat (dir_offset + 4)) (unat (dir_len - 4) div 4) (Some u) [] m)"

definition tb_property_parse_dir :: "nat \<Rightarrow> u32 list \<Rightarrow> pmem \<Rightarrow> tb_property_dir option pres" where
  "tb_property_parse_dir depth block m =
    (case rd block 0 2 of
       None \<Rightarrow> Inl OutOfBounds
     | Some h \<Rightarrow>
         if h ! 0 \<noteq> TB_PROPERTY_ROOTDIR_MAGIC then Inr (None, m)
         else if unat (h ! 1) > length block then Inr (None, m)
         else parse_dir depth block 0 (ucast (h ! 1)) True m)"

section \<open>Formatting\<close>

text \<open>The dwords a directory takes: its header and entries, with the nested directories when
  recursing, and the leaf data with one dword of padding after each directory.\<close>

fun tb_property_dir_length :: "bool \<Rightarrow> tb_property_dir \<Rightarrow> nat \<times> nat"
and props_length :: "bool \<Rightarrow> tb_property list \<Rightarrow> nat \<times> nat" where
  "tb_property_dir_length recurse (Dir u ps) =
    (let (len, data_len) = props_length recurse ps in ((if u \<noteq> None then 4 else 2) + len, data_len))"
| "props_length recurse [] = (0, 0)"
| "props_length recurse (Prop k n v # ps) =
    (let (len, data_len) =
           (case v of
              VDir d \<Rightarrow> (let (l, dl) = (if recurse then tb_property_dir_length recurse d else (0, 0)) in (4 + l, dl + 1))
            | VData _ \<Rightarrow> (4, n)
            | VText _ \<Rightarrow> (4, n)
            | _ \<Rightarrow> (4, 0));
         (len', data_len') = props_length recurse ps
     in (len + len', data_len + data_len'))"

text \<open>The stores into an entry: the key zero-padded to eight bytes, the type byte, the length and the
  value. The reserved byte is left as the caller's buffer has it.\<close>

definition format_key :: "u32 list \<Rightarrow> nat \<Rightarrow> u8 list \<Rightarrow> u32 list" where
  "format_key block eo key =
    (let ds = format_dwdata (take 8 (key @ replicate 8 0)) 2 in block[eo := ds ! 0, eo + 1 := ds ! 1])"

definition format_type :: "u32 list \<Rightarrow> nat \<Rightarrow> tb_property_type \<Rightarrow> u32 list" where
  "format_type block eo t =
    block[eo + 2 := (block ! (eo + 2) AND 0x00FFFFFF) OR push_bit 24 (ucast (type_code t))]"

definition format_length :: "u32 list \<Rightarrow> nat \<Rightarrow> nat \<Rightarrow> u32 list" where
  "format_length block eo len =
    block[eo + 2 := (block ! (eo + 2) AND 0xFFFF0000) OR ucast (word_of_nat len :: u16)]"

definition format_value :: "u32 list \<Rightarrow> nat \<Rightarrow> u32 \<Rightarrow> u32 list" where
  "format_value block eo v = block[eo + 3 := v]"

definition format_header :: "u32 list option \<Rightarrow> u32 list \<Rightarrow> nat \<Rightarrow> nat \<Rightarrow> u32 list option" where
  "format_header u block start dir_len =
    (case u of
       Some uuid \<Rightarrow> wr block start uuid
     | None \<Rightarrow> wr block start [TB_PROPERTY_ROOTDIR_MAGIC, word_of_nat (dir_len - 2)])"

definition format_data :: "u32 list \<Rightarrow> nat \<Rightarrow> u8 list \<Rightarrow> nat \<Rightarrow> u32 list option" where
  "format_data block data_offset bs n =
    (if length bs < 4 * n then None else wr block data_offset (format_dwdata bs n))"

text \<open>The result of a call is the new end offset or an error, with the block as written so far.\<close>

fun tb_property_format_dir_int ::
  "tb_property_dir \<Rightarrow> u32 list \<Rightarrow> nat \<Rightarrow> fault + (errno + nat) \<times> u32 list"
and format_props ::
  "tb_property list \<Rightarrow> u32 list \<Rightarrow> nat \<Rightarrow> nat \<Rightarrow> nat \<Rightarrow> fault + (errno + nat) \<times> u32 list" where
  "tb_property_format_dir_int (Dir u ps) block start_offset =
    (let (dir_len, data_len) = tb_property_dir_length False (Dir u ps);
         data_offset = start_offset + dir_len;
         dir_end = start_offset + data_len + dir_len
     in if data_offset > dir_end then Inr (Inl EINVAL, block)
        else if dir_end > length block then Inr (Inl EINVAL, block)
        else case format_header u block start_offset dir_len of
               None \<Rightarrow> Inl OutOfBounds
             | Some block \<Rightarrow>
                 format_props ps block (start_offset + (if u \<noteq> None then 4 else 2)) data_offset dir_end)"
| "format_props [] block eo data_offset dir_end = Inr (Inr dir_end, block)"
| "format_props (Prop k n v # ps) block eo data_offset dir_end =
    (if eo + 4 > length block then Inl OutOfBounds
     else
       let block = format_type (format_key block eo k) eo (ptype v)
       in case v of
            VDir child \<Rightarrow>
              (case tb_property_format_dir_int child block dir_end of
                 Inl f \<Rightarrow> Inl f
               | Inr (Inl e, block) \<Rightarrow> Inr (Inl e, block)
               | Inr (Inr ret, block) \<Rightarrow>
                   format_props ps
                     (format_value (format_length block eo (fst (tb_property_dir_length False child))) eo (word_of_nat dir_end))
                     (eo + 4) data_offset ret)
          | VData bs \<Rightarrow>
              (case format_data block data_offset bs n of
                 None \<Rightarrow> Inl OutOfBounds
               | Some block \<Rightarrow>
                   format_props ps (format_value (format_length block eo n) eo (word_of_nat data_offset))
                     (eo + 4) (data_offset + unat (word_of_nat n :: u16)) dir_end)
          | VText bs \<Rightarrow>
              (case format_data block data_offset bs n of
                 None \<Rightarrow> Inl OutOfBounds
               | Some block \<Rightarrow>
                   format_props ps (format_value (format_length block eo n) eo (word_of_nat data_offset))
                     (eo + 4) (data_offset + unat (word_of_nat n :: u16)) dir_end)
          | VImm x \<Rightarrow>
              format_props ps (format_value (format_length block eo n) eo x) (eo + 4) data_offset dir_end
          | VUnknown \<Rightarrow> format_props ps block (eo + 4) data_offset dir_end)"

text \<open>Without a block the size is returned, with one the block is filled and zero returned.\<close>

definition tb_property_format_dir ::
  "tb_property_dir \<Rightarrow> u32 list option \<Rightarrow> fault + (errno + nat) \<times> u32 list option" where
  "tb_property_format_dir dir block =
    (case block of
       None \<Rightarrow> (let (dir_len, data_len) = tb_property_dir_length True dir in Inr (Inr (dir_len + data_len), None))
     | Some b \<Rightarrow>
         (case tb_property_format_dir_int dir b 0 of
            Inl f \<Rightarrow> Inl f
          | Inr (Inl e, b) \<Rightarrow> Inr (Inl e, Some b)
          | Inr (Inr _, b) \<Rightarrow> Inr (Inr 0, Some b)))"

section \<open>Building directories\<close>

definition tb_property_create_dir :: "u32 list option \<Rightarrow> pmem \<Rightarrow> tb_property_dir option \<times> pmem" where
  "tb_property_create_dir uuid m =
    (let (ok, m) = kzalloc 1 m
     in if \<not> ok then (None, m)
        else case uuid of
               None \<Rightarrow> (Some (Dir None []), m)
             | Some u \<Rightarrow>
                 (let (ok, m) = kzalloc 1 m
                  in if \<not> ok then (None, kfree 1 m) else (Some (Dir (Some u) []), m)))"

definition dir_append :: "tb_property \<Rightarrow> tb_property_dir \<Rightarrow> tb_property_dir" where
  "dir_append p d = Dir (duuid d) (dprops d @ [p])"

definition tb_property_add_immediate ::
  "tb_property_dir \<Rightarrow> u8 list option \<Rightarrow> u32 \<Rightarrow> pmem \<Rightarrow> (errno + unit) \<times> tb_property_dir \<times> pmem" where
  "tb_property_add_immediate parent key value m =
    (if \<not> tb_property_key_valid key then (Inl EINVAL, parent, m)
     else
       let (ok, m) = tb_property_alloc m
       in if \<not> ok then (Inl ENOMEM, parent, m)
          else (Inr (), dir_append (Prop (the key) 1 (VImm value)) parent, m))"

definition round_up4 :: "nat \<Rightarrow> nat" where
  "round_up4 n = (n + 3) div 4 * 4"

definition add_leaf ::
  "tb_property_dir \<Rightarrow> u8 list option \<Rightarrow> (u8 list \<Rightarrow> tb_property_value) \<Rightarrow> nat \<Rightarrow> u8 list \<Rightarrow> pmem
   \<Rightarrow> (errno + unit) \<times> tb_property_dir \<times> pmem" where
  "add_leaf parent key con sz bs m =
    (if \<not> tb_property_key_valid key then (Inl EINVAL, parent, m)
     else
       let (ok, m) = tb_property_alloc m
       in if \<not> ok then (Inl ENOMEM, parent, m)
          else
            let (ok, m) = kzalloc sz m
            in if \<not> ok then (Inl ENOMEM, parent, kfree 1 m)
               else (Inr (), dir_append (Prop (the key) (sz div 4) (con (bs @ replicate (sz - length bs) 0))) parent, m))"

definition tb_property_add_data ::
  "tb_property_dir \<Rightarrow> u8 list option \<Rightarrow> u8 list \<Rightarrow> pmem \<Rightarrow> (errno + unit) \<times> tb_property_dir \<times> pmem" where
  "tb_property_add_data parent key buf m = add_leaf parent key VData (round_up4 (length buf)) buf m"

definition tb_property_add_text ::
  "tb_property_dir \<Rightarrow> u8 list option \<Rightarrow> u8 list \<Rightarrow> pmem \<Rightarrow> (errno + unit) \<times> tb_property_dir \<times> pmem" where
  "tb_property_add_text parent key text m =
    (let s = cstr text in add_leaf parent key VText (round_up4 (length s + 1)) s m)"

definition tb_property_add_dir ::
  "tb_property_dir \<Rightarrow> u8 list option \<Rightarrow> tb_property_dir \<Rightarrow> pmem \<Rightarrow> (errno + unit) \<times> tb_property_dir \<times> pmem" where
  "tb_property_add_dir parent key dir m =
    (if \<not> tb_property_key_valid key then (Inl EINVAL, parent, m)
     else
       let (ok, m) = tb_property_alloc m
       in if \<not> ok then (Inl ENOMEM, parent, m)
          else (Inr (), dir_append (Prop (the key) 0 (VDir dir)) parent, m))"

text \<open>Removal unlinks one property and frees it, not what its value points to.\<close>

definition tb_property_remove :: "nat \<Rightarrow> tb_property_dir \<Rightarrow> pmem \<Rightarrow> tb_property_dir \<times> pmem" where
  "tb_property_remove i d m = (Dir (duuid d) (take i (dprops d) @ drop (Suc i) (dprops d)), kfree 1 m)"

definition tb_property_find :: "tb_property_dir \<Rightarrow> u8 list \<Rightarrow> tb_property_type \<Rightarrow> tb_property option" where
  "tb_property_find dir key t = find (\<lambda>p. ptype (pvalue p) = t \<and> pkey p = key) (dprops dir)"

definition tb_property_get_next :: "tb_property_dir \<Rightarrow> nat option \<Rightarrow> nat option" where
  "tb_property_get_next dir prev =
    (case prev of
       Some i \<Rightarrow> if Suc i = length (dprops dir) then None else Some (Suc i)
     | None \<Rightarrow> if dprops dir = [] then None else Some 0)"

section \<open>Deep copy\<close>

text \<open>On a failure inside the loop the released variable is the outer one, which is still null; the
  property being copied is not released.\<close>

fun tb_property_copy_dir :: "tb_property_dir \<Rightarrow> pmem \<Rightarrow> tb_property_dir option pres"
and copy_props :: "tb_property list \<Rightarrow> tb_property_dir \<Rightarrow> pmem \<Rightarrow> tb_property_dir option pres" where
  "tb_property_copy_dir (Dir u ps) m =
    (case tb_property_create_dir u m of
       (None, m) \<Rightarrow> Inr (None, m)
     | (Some d, m) \<Rightarrow> copy_props ps d m)"
| "copy_props [] d m = Inr (Some d, m)"
| "copy_props (Prop k n v # ps) d m =
    (let (ok, m) = tb_property_alloc m
     in if \<not> ok then Inr (None, tb_property_free_dir d m)
        else case v of
           VDir c \<Rightarrow>
             (case tb_property_copy_dir c m of
                Inl f \<Rightarrow> Inl f
              | Inr (None, m) \<Rightarrow> Inr (None, tb_property_free_dir d m)
              | Inr (Some c', m) \<Rightarrow> copy_props ps (dir_append (Prop k n (VDir c')) d) m)
         | VData bs \<Rightarrow>
             (let (ok, m) = kzalloc n m
              in if \<not> ok then Inr (None, tb_property_free_dir d m)
                 else if length bs < n * 4 then Inl OutOfBounds
                 else copy_props ps (dir_append (Prop k n (VData (take (n * 4) bs))) d) m)
         | VText bs \<Rightarrow>
             (let (ok, m) = kzalloc n m
              in if \<not> ok then Inr (None, tb_property_free_dir d m)
                 else if length (cstr bs) + 1 > n * 4 then Inl OutOfBounds
                 else copy_props ps
                        (dir_append (Prop k n (VText (cstr bs @ replicate (n * 4 - length (cstr bs)) 0))) d) m)
         | VImm x \<Rightarrow> copy_props ps (dir_append (Prop k n (VImm x)) d) m
         | VUnknown \<Rightarrow> copy_props ps (dir_append (Prop k n VUnknown) d) m)"

section \<open>Well-formed directories and their size\<close>

definition uuid_ok :: "u32 list option \<Rightarrow> bool" where
  "uuid_ok u = (case u of None \<Rightarrow> True | Some ds \<Rightarrow> length ds = 4)"

text \<open>What can be formatted: keys without NUL that fit, lengths that fit 16 bits, buffers of the stated
  length, text terminated, nested directories with a UUID.\<close>

fun wf_dir :: "tb_property_dir \<Rightarrow> bool" and wf_props :: "tb_property list \<Rightarrow> bool" where
  "wf_dir (Dir u ps) = (uuid_ok u \<and> wf_props ps)"
| "wf_props [] = True"
| "wf_props (Prop k n v # ps) =
    (length k \<le> 8 \<and> 0 \<notin> set k
     \<and> (case v of
          VDir c \<Rightarrow> duuid c \<noteq> None \<and> 4 + 4 * length (dprops c) < 65536 \<and> wf_dir c
        | VData bs \<Rightarrow> n < 65536 \<and> length bs = 4 * n
        | VText bs \<Rightarrow> 0 < n \<and> n < 65536 \<and> length bs = 4 * n \<and> bs ! (n * 4 - 1) = 0
        | VImm _ \<Rightarrow> n = 1
        | VUnknown \<Rightarrow> False)
     \<and> wf_props ps)"

text \<open>The parser gives a nested directory its length in dwords.\<close>

fun sized_dir :: "tb_property_dir \<Rightarrow> tb_property_dir" and sized_props :: "tb_property list \<Rightarrow> tb_property list" where
  "sized_dir (Dir u ps) = Dir u (sized_props ps)"
| "sized_props [] = []"
| "sized_props (Prop k n v # ps) =
    (case v of VDir c \<Rightarrow> Prop k (4 + 4 * length (dprops c)) (VDir (sized_dir c)) | _ \<Rightarrow> Prop k n v) # sized_props ps"

fun height_dir :: "tb_property_dir \<Rightarrow> nat" and height_props :: "tb_property list \<Rightarrow> nat" where
  "height_dir (Dir u ps) = Suc (height_props ps)"
| "height_props [] = 0"
| "height_props (Prop k n v # ps) = max (case v of VDir c \<Rightarrow> height_dir c | _ \<Rightarrow> 0) (height_props ps)"

text \<open>Objects on the heap.\<close>

fun dir_objs :: "tb_property_dir \<Rightarrow> int" and props_objs :: "tb_property list \<Rightarrow> int" where
  "dir_objs (Dir u ps) = 1 + (if u = None then 0 else 1) + props_objs ps"
| "props_objs [] = 0"
| "props_objs (Prop k n v # ps) =
    1 + (case v of VDir c \<Rightarrow> dir_objs c | VData _ \<Rightarrow> (if n = 0 then 0 else 1) | VText _ \<Rightarrow> (if n = 0 then 0 else 1) | _ \<Rightarrow> 0)
    + props_objs ps"

text \<open>The dwords of the leaves of one directory, and of everything below it.\<close>

abbreviation leaf_len :: "tb_property list \<Rightarrow> nat" where
  "leaf_len ps \<equiv> snd (props_length False ps)"

abbreviation hdr_len :: "u32 list option \<Rightarrow> nat" where
  "hdr_len u \<equiv> (if u \<noteq> None then 4 else 2)"

fun total_dir :: "tb_property_dir \<Rightarrow> nat" and below :: "tb_property list \<Rightarrow> nat" where
  "total_dir (Dir u ps) = hdr_len u + 4 * length ps + leaf_len ps + below ps"
| "below [] = 0"
| "below (Prop k n v # ps) = (case v of VDir c \<Rightarrow> total_dir c | _ \<Rightarrow> 0) + below ps"

lemma props_length_fst: "fst (props_length False ps) = 4 * length ps"
proof (induction ps)
  case (Cons p ps)
  then show ?case by (cases p, cases "pvalue p") (auto split: prod.splits)
qed simp

lemma dir_length_False: "tb_property_dir_length False (Dir u ps) = (hdr_len u + 4 * length ps, leaf_len ps)"
  by (simp add: props_length_fst case_prod_beta)

lemma leaf_len_Cons:
  "leaf_len (Prop k n v # ps) = (case v of VDir _ \<Rightarrow> 1 | VData _ \<Rightarrow> n | VText _ \<Rightarrow> n | _ \<Rightarrow> 0) + leaf_len ps"
  by (cases v) (simp_all add: case_prod_beta Let_def)

text \<open>The recursive length is what the directory takes.\<close>

lemma props_length_True:
  "fst (props_length True (Prop k n v # ps)) + snd (props_length True (Prop k n v # ps)) =
    4 + (case v of VDir c \<Rightarrow> 1 + fst (tb_property_dir_length True c) + snd (tb_property_dir_length True c)
         | VData _ \<Rightarrow> n | VText _ \<Rightarrow> n | _ \<Rightarrow> 0) + (fst (props_length True ps) + snd (props_length True ps))"
  by (cases v) (simp_all add: Let_def case_prod_beta)

lemma dir_length_total:
  shows "fst (tb_property_dir_length True d) + snd (tb_property_dir_length True d) = total_dir d"
    and "fst (props_length True ps) + snd (props_length True ps) = 4 * length ps + leaf_len ps + below ps"
proof (induction d and ps rule: total_dir_below.induct)
  case (1 u ps)
  then show ?case by (simp add: case_prod_beta)
next
  case (3 k n v ps)
  then show ?case unfolding props_length_True leaf_len_Cons by (cases v) simp_all
qed simp

section \<open>Encodings\<close>

text \<open>A block holds given dwords at an offset, all of them in a set of positions.\<close>

definition seg :: "nat set \<Rightarrow> u32 list \<Rightarrow> nat \<Rightarrow> u32 list \<Rightarrow> bool" where
  "seg R b off ds = (off + length ds \<le> length b \<and> take (length ds) (drop off b) = ds \<and> {off..<off + length ds} \<subseteq> R)"

definition key_dws :: "u8 list \<Rightarrow> u32 list" where
  "key_dws k = format_dwdata (take 8 (k @ replicate 8 0)) 2"

fun enc_dir :: "nat set \<Rightarrow> u32 list \<Rightarrow> nat \<Rightarrow> tb_property_dir \<Rightarrow> bool"
and enc_props :: "nat set \<Rightarrow> u32 list \<Rightarrow> nat \<Rightarrow> tb_property list \<Rightarrow> bool" where
  "enc_dir R b off (Dir u ps) =
    (seg R b off (case u of Some ds \<Rightarrow> ds | None \<Rightarrow> [TB_PROPERTY_ROOTDIR_MAGIC, word_of_nat (4 * length ps)])
     \<and> enc_props R b (off + hdr_len u) ps)"
| "enc_props R b eo [] = True"
| "enc_props R b eo (Prop k n v # ps) =
    ((\<exists>d2 d3. seg R b eo (key_dws k @ [d2, d3]) \<and> ucast (drop_bit 24 d2) = type_code (ptype v)
       \<and> (case v of
            VDir c \<Rightarrow> unat (ucast d2 :: u16) = 4 + 4 * length (dprops c) \<and> enc_dir R b (unat d3) c
          | VData bs \<Rightarrow> unat (ucast d2 :: u16) = n \<and> seg R b (unat d3) (format_dwdata bs n)
          | VText bs \<Rightarrow> unat (ucast d2 :: u16) = n \<and> seg R b (unat d3) (format_dwdata bs n)
          | VImm x \<Rightarrow> unat (ucast d2 :: u16) = n \<and> d3 = x
          | VUnknown \<Rightarrow> True))
     \<and> enc_props R b (eo + 4) ps)"

lemma seg_nth: "seg R b off ds \<Longrightarrow> i < length ds \<Longrightarrow> off + i \<in> R \<and> b ! (off + i) = ds ! i"
  by (auto simp: seg_def) (metis add_leD1 nth_drop nth_take)

lemma segI: "off + length ds \<le> length b \<Longrightarrow> {off..<off + length ds} \<subseteq> R \<Longrightarrow> (\<And>i. i < length ds \<Longrightarrow> b ! (off + i) = ds ! i)
  \<Longrightarrow> seg R b off ds"
  by (auto simp: seg_def intro: nth_equalityI)

lemma seg_cong:
  assumes "seg R b off ds" "length b' = length b" "\<forall>i \<in> R. b' ! i = b ! i" "R \<subseteq> R'"
  shows "seg R' b' off ds"
proof (rule segI)
  show "off + length ds \<le> length b'" "{off..<off + length ds} \<subseteq> R'" using assms by (auto simp: seg_def)
  show "b' ! (off + i) = ds ! i" if "i < length ds" for i using seg_nth [OF assms(1) that] assms(3) by simp
qed

lemma enc_cong:
  assumes "length b' = length b" "\<forall>i \<in> R. b' ! i = b ! i" "R \<subseteq> R'"
  shows "enc_dir R b off d \<Longrightarrow> enc_dir R' b' off d"
    and "enc_props R b eo ps \<Longrightarrow> enc_props R' b' eo ps"
proof (induction d and ps arbitrary: off and eo rule: total_dir_below.induct)
  case (1 u ps)
  then show ?case using seg_cong [OF _ assms] by simp
next
  case (3 k n v ps)
  then show ?case using seg_cong [OF _ assms] by (cases v) (auto, blast+)
qed simp

section \<open>The parser reads what is encoded\<close>

lemma dw_bytes_format:
  "dw_bytes (push_bit 24 (ucast a) OR push_bit 16 (ucast b) OR push_bit 8 (ucast c) OR ucast d) = [a, b, c, d]"
proof -
  have "ucast (drop_bit 24 (push_bit 24 (ucast a) OR push_bit 16 (ucast b) OR push_bit 8 (ucast c) OR ucast d) :: u32) = (a :: u8)"
    "ucast (drop_bit 16 (push_bit 24 (ucast a) OR push_bit 16 (ucast b) OR push_bit 8 (ucast c) OR ucast d) :: u32) = (b :: u8)"
    "ucast (drop_bit 8 (push_bit 24 (ucast a) OR push_bit 16 (ucast b) OR push_bit 8 (ucast c) OR ucast d) :: u32) = (c :: u8)"
    "ucast (push_bit 24 (ucast a) OR push_bit 16 (ucast b) OR push_bit 8 (ucast c) OR ucast d :: u32) = (d :: u8)"
    by (rule bit_word_eqI; auto simp: bit_simps dest: bit_imp_le_length)+
  then show ?thesis by (simp add: dw_bytes_def)
qed

lemma parse_format_dwdata: "length bs = 4 * n \<Longrightarrow> parse_dwdata (format_dwdata bs n) = bs"
  by (induction bs n rule: format_dwdata.induct) (auto simp: parse_dwdata_def dw_bytes_format, presburger+)

lemma length_format_dwdata: "4 * n \<le> length bs \<Longrightarrow> length (format_dwdata bs n) = n"
  by (induction bs n rule: format_dwdata.induct) auto

lemma length_key_dws [simp]: "length (key_dws k) = 2"
  by (simp add: key_dws_def length_format_dwdata)

lemma cstr_key: "length k \<le> 8 \<Longrightarrow> 0 \<notin> set k \<Longrightarrow> cstr (parse_dwdata (key_dws k)) = k"
proof -
  assume a: "length k \<le> 8" "0 \<notin> set k"
  have "parse_dwdata (key_dws k) = k @ replicate (8 - length k) 0"
    using a by (simp add: key_dws_def parse_format_dwdata)
  moreover have "takeWhile (\<lambda>c. c \<noteq> 0) (k @ replicate n 0) = k" for n
    using a by (subst takeWhile_append2) (auto intro: takeWhile_eq_Nil_iff [THEN iffD2])
  ultimately show ?thesis by (simp add: cstr_def)
qed

lemma rd_seg: "seg R b off ds \<Longrightarrow> length ds = n \<Longrightarrow> rd b off n = Some ds"
  by (auto simp: rd_def seg_def)

lemma entry_key: "parse_dwdata [key_hi (entry_of (key_dws k @ [d2, d3])), key_lo (entry_of (key_dws k @ [d2, d3]))] = parse_dwdata (key_dws k)"
proof -
  obtain x y where "key_dws k = [x, y]"
    using length_key_dws [of k] by (cases "key_dws k"; cases "tl (key_dws k)") auto
  then show ?thesis by (simp add: entry_of_def)
qed

lemma entry_fields:
  "elength (entry_of (key_dws k @ [d2, d3])) = ucast d2" "etype (entry_of (key_dws k @ [d2, d3])) = ucast (drop_bit 24 d2)"
  "evalue (entry_of (key_dws k @ [d2, d3])) = d3"
  by (simp_all add: entry_of_def nth_append)

lemma type_of_type_code [simp]: "type_of_code (type_code t) = t"
  by (cases t) (simp_all add: type_of_code_def)

lemma kzalloc_ok: "outcomes m = [] \<Longrightarrow> kzalloc n m = (True, m\<lparr>live := live m + (if n = 0 then 0 else 1)\<rparr>)"
  by (simp add: kzalloc_def)

text \<open>A segment inside the block passes the validity check: its end does not wrap around.\<close>

lemma seg_valid:
  assumes "unat (d3 :: u32) + unat (l :: u16) \<le> length b" "length b < 2 ^ 32"
  shows "\<not> length b < unat l \<and> \<not> length b < unat (d3 + ucast l)"
proof -
  have "unat (ucast l :: u32) = unat l"
    by (simp add: unsigned_ucast_eq take_bit_nat_eq_self order_less_le_trans [OF unsigned_less])
  then have "unat (d3 + ucast l) = unat d3 + unat l" using assms by (simp add: unat_word_ariths)
  then show ?thesis using assms by simp
qed

abbreviation grow :: "int \<Rightarrow> pmem \<Rightarrow> pmem" where
  "grow k m \<equiv> m\<lparr>live := live m + k\<rparr>"

definition enc_value :: "nat set \<Rightarrow> u32 list \<Rightarrow> u32 \<Rightarrow> u32 \<Rightarrow> nat \<Rightarrow> tb_property_value \<Rightarrow> bool" where
  "enc_value R b d2 d3 n v =
    (case v of
       VDir c \<Rightarrow> unat (ucast d2 :: u16) = 4 + 4 * length (dprops c) \<and> enc_dir R b (unat d3) c
     | VData bs \<Rightarrow> unat (ucast d2 :: u16) = n \<and> seg R b (unat d3) (format_dwdata bs n)
     | VText bs \<Rightarrow> unat (ucast d2 :: u16) = n \<and> seg R b (unat d3) (format_dwdata bs n)
     | VImm x \<Rightarrow> unat (ucast d2 :: u16) = n \<and> d3 = x
     | VUnknown \<Rightarrow> True)"

lemma enc_props_Cons:
  "enc_props R b eo (Prop k n v # ps) =
    ((\<exists>d2 d3. seg R b eo (key_dws k @ [d2, d3]) \<and> ucast (drop_bit 24 d2) = type_code (ptype v) \<and> enc_value R b d2 d3 n v)
     \<and> enc_props R b (eo + 4) ps)"
  by (simp add: enc_value_def)

lemma unat_ucast16: "unat (ucast (x :: u16) :: u32) = unat x" "unat (ucast (x :: u16) :: u64) = unat x"
  by (simp_all add: unsigned_ucast_eq take_bit_nat_eq_self order_less_le_trans [OF unsigned_less])

lemma parse_value:
  assumes "ucast (drop_bit 24 d2) = type_code (ptype v)" "enc_value R b d2 d3 n v" "wf_props [Prop k n v]" "outcomes m = []"
    "length b < 2 ^ 32"
    and child: "\<And>c m'. v = VDir c \<Longrightarrow> outcomes m' = [] \<Longrightarrow>
      pd d3 (ucast (ucast d2 :: u16)) m' = Inr (Some (sized_dir c), grow (dir_objs c) m')
      \<and> unat d3 + (4 + 4 * length (dprops c)) \<le> length b"
  shows "tb_property_parse pd b (entry_of (key_dws k @ [d2, d3])) m =
    Inr (Some (hd (sized_props [Prop k n v])), grow (props_objs [Prop k n v]) m)"
proof -
  define e where "e = entry_of (key_dws k @ [d2, d3])"
  have t: "elength e = ucast d2" "evalue e = d3" "type_of_code (etype e) = ptype v" "cstr (parse_dwdata [key_hi e, key_lo e]) = k"
    using assms(1,3) cstr_key [of k] by (simp_all add: e_def entry_fields entry_key)
  have len: "unat (ucast d2 :: u16) = n \<Longrightarrow> length bs = 4 * n \<Longrightarrow> seg R b (unat d3) (format_dwdata bs n) \<Longrightarrow>
    \<not> length b < n \<and> \<not> length b < unat (d3 + ucast (ucast d2 :: u16)) \<and> rd b (unat d3) n = Some (format_dwdata bs n)" for bs
    using seg_valid [of d3 "ucast d2" b] assms(5) length_format_dwdata [of n bs] rd_seg [of R b "unat d3" "format_dwdata bs n" n]
    by (auto simp: seg_def)
  show ?thesis
  proof (cases v)
    case (VDir c)
    then have "unat (ucast d2 :: u16) = 4 + 4 * length (dprops c)" using assms(2) by (simp add: enc_value_def)
    then show ?thesis unfolding e_def [symmetric]
      using VDir assms(3,4) child [OF VDir, of "grow 1 m"] t seg_valid [of d3 "ucast d2" b] assms(5)
      by (simp add: tb_property_parse_def tb_property_entry_valid_def tb_property_alloc_def kzalloc_ok)
  next
    case (VData bs)
    then show ?thesis unfolding e_def [symmetric]
      using assms(2,3,4) t len [of bs] parse_format_dwdata [of bs n]
      by (simp add: tb_property_parse_def tb_property_entry_valid_def tb_property_alloc_def kzalloc_ok enc_value_def)
  next
    case (VText bs)
    then have "bs[n * 4 - 1 := 0] = bs" using assms(3) by (auto simp: list_update_same_conv)
    then show ?thesis unfolding e_def [symmetric]
      using VText assms(2,3,4) t len [of bs] parse_format_dwdata [of bs n]
      by (simp add: tb_property_parse_def tb_property_entry_valid_def tb_property_alloc_def kzalloc_ok enc_value_def)
  next
    case (VImm x)
    then have "(ucast d2 :: u16) = 1" using assms(2,3) by (simp add: enc_value_def word_unat_eq_iff)
    then show ?thesis unfolding e_def [symmetric]
      using VImm assms(2,3,4) t
      by (simp add: tb_property_parse_def tb_property_entry_valid_def tb_property_alloc_def kzalloc_ok enc_value_def)
  qed (use assms(3) in simp)
qed

lemma enc_props_fits: "enc_props R b eo ps \<Longrightarrow> eo \<le> length b \<Longrightarrow> eo + 4 * length ps \<le> length b"
proof (induction ps arbitrary: eo)
  case (Cons p ps)
  obtain k n v where p: "p = Prop k n v" by (cases p)
  have e: "enc_props R b (eo + 4) ps" and s: "eo + 4 \<le> length b"
    using Cons.prems(1) unfolding p enc_props_Cons by (auto simp: seg_def)
  show ?case using Cons.IH [OF e s] by simp
qed simp

lemma enc_dir_fits:
  assumes "enc_dir R b off (Dir u ps)" "uuid_ok u"
  shows "off + hdr_len u + 4 * length ps \<le> length b"
proof (rule enc_props_fits)
  show "enc_props R b (off + hdr_len u) ps" using assms(1) by simp
  show "off + hdr_len u \<le> length b" using assms by (cases u) (auto simp: seg_def uuid_ok_def)
qed

text \<open>The loop over encoded entries, given the parser of the nested directories.\<close>

lemma parse_entries_enc:
  assumes "enc_props R b eo ps" "wf_props ps" "outcomes m = []" "length b < 2 ^ 32"
    and child: "\<And>c off len m'. wf_dir c \<Longrightarrow> enc_dir R b (unat off) c \<Longrightarrow> height_dir c \<le> height_props ps \<Longrightarrow> duuid c \<noteq> None \<Longrightarrow>
      unat len = 4 + 4 * length (dprops c) \<Longrightarrow> outcomes m' = [] \<Longrightarrow>
      pd off len m' = Inr (Some (sized_dir c), grow (dir_objs c) m')"
  shows "parse_entries (tb_property_parse pd b) b eo (length ps) u acc m =
    Inr (Some (Dir u (acc @ sized_props ps)), grow (props_objs ps) m)"
  using assms
proof (induction ps arbitrary: eo acc m)
  case (Cons p ps)
  obtain k n v where p: "p = Prop k n v" by (cases p)
  obtain d2 d3 where s: "seg R b eo (key_dws k @ [d2, d3])" and v: "ucast (drop_bit 24 d2) = type_code (ptype v)" "enc_value R b d2 d3 n v"
    and r: "enc_props R b (eo + 4) ps" using Cons.prems(1) unfolding p enc_props_Cons by blast
  have w: "wf_props [Prop k n v]" "wf_props ps" using Cons.prems(2) by (simp_all add: p)
  have one: "tb_property_parse pd b (entry_of (key_dws k @ [d2, d3])) m =
    Inr (Some (hd (sized_props [Prop k n v])), grow (props_objs [Prop k n v]) m)"
  proof (rule parse_value [OF v w(1) Cons.prems(3,4)])
    fix c and m' :: pmem assume c: "v = VDir c" and m': "outcomes m' = []"
    have e: "unat (ucast d2 :: u16) = 4 + 4 * length (dprops c)" "enc_dir R b (unat d3) c" using v(2) c by (simp_all add: enc_value_def)
    have l: "unat (ucast (ucast d2 :: u16) :: u64) = 4 + 4 * length (dprops c)"
      using e(1) by (simp only: unat_ucast16)
    have wc: "wf_dir c" "duuid c \<noteq> None" using w(1) c by simp_all
    have "height_dir c \<le> height_props (p # ps)" by (simp add: p c)
    then show "pd d3 (ucast (ucast d2 :: u16)) m' = Inr (Some (sized_dir c), grow (dir_objs c) m')
      \<and> unat d3 + (4 + 4 * length (dprops c)) \<le> length b"
      using Cons.prems(5) [OF wc(1) e(2) _ wc(2) l m'] enc_dir_fits [of R b "unat d3" "duuid c" "dprops c"] e(2) wc
      by (cases c) auto
  qed
  have "rd b eo 4 = Some (key_dws k @ [d2, d3])" by (rule rd_seg [OF s]) simp
  moreover have "parse_entries (tb_property_parse pd b) b (eo + 4) (length ps) u (acc @ [hd (sized_props [Prop k n v])])
      (grow (props_objs [Prop k n v]) m) =
    Inr (Some (Dir u ((acc @ [hd (sized_props [Prop k n v])]) @ sized_props ps)), grow (props_objs ps) (grow (props_objs [Prop k n v]) m))"
  proof (rule Cons.IH [OF r w(2) _ Cons.prems(4)])
    fix c and off :: u32 and len :: u64 and m' :: pmem assume "wf_dir c" "enc_dir R b (unat off) c" "height_dir c \<le> height_props ps" "duuid c \<noteq> None"
      "unat len = 4 + 4 * length (dprops c)" "outcomes m' = []"
    then show "pd off len m' = Inr (Some (sized_dir c), grow (dir_objs c) m')"
      by (intro Cons.prems(5)) (simp_all add: p)
  qed (simp add: Cons.prems(3))
  ultimately show ?case using one by (subst parse_entries.simps) (simp add: p algebra_simps)
qed (simp add: parse_entries.simps)

lemma parse_dir_enc:
  assumes "wf_dir d" "enc_dir R b (unat off) d" "height_dir d \<le> depth" "outcomes m = []" "length b < 2 ^ 32"
    "unat len = (if duuid d = None then 4 * length (dprops d) else 4 + 4 * length (dprops d))"
  shows "parse_dir depth b off len (duuid d = None) m = Inr (Some (sized_dir d), grow (dir_objs d) m)"
  using assms
proof (induction depth arbitrary: d off len m)
  case (Suc depth)
  obtain u ps where d: "d = Dir u ps" by (cases d)
  let ?pd = "\<lambda>off len. parse_dir depth b off len False"
  have fit: "unat off + hdr_len u + 4 * length ps \<le> length b"
    using enc_dir_fits Suc.prems(1,2) by (simp add: d)
  have o: "unat (off + (if u \<noteq> None then 4 else 2)) = unat off + hdr_len u"
    using fit Suc.prems(5) by (auto simp: unat_word_ariths)
  have child: "?pd off len m' = Inr (Some (sized_dir c), grow (dir_objs c) m')"
    if "wf_dir c" "enc_dir R b (unat off) c" "height_dir c \<le> height_props ps" "duuid c \<noteq> None"
      "unat len = 4 + 4 * length (dprops c)" "outcomes m' = []" for c off len m'
    using Suc.IH [of c off m' len] that Suc.prems(3,5) by (simp add: d)
  have e: "enc_props R b (unat off + hdr_len u) ps" "wf_props ps" using Suc.prems(1,2) by (simp_all add: d)
  have n: "parse_entries (tb_property_parse ?pd b) b (unat off + hdr_len u) (length ps) u [] m' =
      Inr (Some (Dir u (sized_props ps)), grow (props_objs ps) m')" if "outcomes m' = []" for m'
    by (rule parse_entries_enc [OF e that Suc.prems(5), where acc = "[]", unfolded append_Nil]) (rule child)
  show ?case
  proof (cases u)
    case None
    then show ?thesis using n o Suc.prems by (simp add: d kzalloc_ok algebra_simps)
  next
    case (Some ds)
    have s: "rd b (unat off) 4 = Some ds" using Suc.prems(1,2) Some by (auto simp: d uuid_ok_def intro: rd_seg)
    have l: "unat (len - 4) = 4 * length ps" using Suc.prems(6) Some by (simp add: d unat_sub_if')
    then show ?thesis using n o s Suc.prems Some by (simp add: d kzalloc_ok algebra_simps)
  qed
qed (metis height_dir.elims le_zero_eq nat.distinct(1))

section \<open>The formatter writes an encoding\<close>

lemma entry_bits:
  fixes x :: u32 and c :: u8 and l :: u16
  defines "d \<equiv> ((((x AND 0x00FFFFFF) OR push_bit 24 (ucast c)) AND 0xFFFF0000) OR ucast l)"
  shows "ucast (drop_bit 24 d) = c" "ucast d = l"
proof -
  have m: "(0x00FFFFFF :: u32) = mask 24" "(0xFFFF0000 :: u32) = push_bit 16 (mask 16)"
    by (simp_all add: mask_eq_exp_minus_1)
  show "ucast (drop_bit 24 d) = c"
    unfolding d_def m by (rule bit_word_eqI) (auto simp: bit_simps dest: bit_imp_le_length)
  show "ucast d = l"
    unfolding d_def m by (rule bit_word_eqI) (auto simp: bit_simps dest: bit_imp_le_length)
qed

text \<open>The two halves of an entry write, with any stores elsewhere in between.\<close>

definition entry_begin :: "u32 list \<Rightarrow> nat \<Rightarrow> u8 list \<Rightarrow> tb_property_type \<Rightarrow> u32 list" where
  "entry_begin b eo k t = format_type (format_key b eo k) eo t"

definition entry_end :: "u32 list \<Rightarrow> nat \<Rightarrow> nat \<Rightarrow> u32 \<Rightarrow> u32 list" where
  "entry_end b eo len v = format_value (format_length b eo len) eo v"

lemmas entry_defs = entry_begin_def entry_end_def format_key_def format_type_def format_length_def format_value_def Let_def

lemma entry_length [simp]: "length (entry_begin b eo k t) = length b" "length (entry_end b eo len v) = length b"
  by (simp_all add: entry_defs)

lemma entry_other:
  "i \<notin> {eo..<eo + 4} \<Longrightarrow> entry_begin b eo k t ! i = b ! i" "i \<notin> {eo..<eo + 4} \<Longrightarrow> entry_end b eo len v ! i = b ! i"
  by (auto simp: entry_defs nth_list_update)

lemma entry_written:
  assumes "eo + 4 \<le> length b" "length b2 = length b" "\<forall>i \<in> {eo..<eo + 4}. b2 ! i = entry_begin b eo k t ! i"
  shows "\<exists>d2. seg {eo..<eo + 4} (entry_end b2 eo len v) eo (key_dws k @ [d2, v])
    \<and> ucast (drop_bit 24 d2) = type_code t \<and> ucast d2 = (word_of_nat len :: u16)"
proof -
  define d2 where "d2 = ((((b ! (eo + 2)) AND 0x00FFFFFF) OR push_bit 24 (ucast (type_code t))) AND 0xFFFF0000) OR ucast (word_of_nat len :: u16)"
  obtain x y where k: "key_dws k = [x, y]"
    using length_key_dws [of k] by (cases "key_dws k"; cases "tl (key_dws k)") auto
  have i: "b2 ! eo = entry_begin b eo k t ! eo" "b2 ! (eo + 1) = entry_begin b eo k t ! (eo + 1)" "b2 ! (eo + 2) = entry_begin b eo k t ! (eo + 2)"
    using assms(3) by simp_all
  have "seg {eo..<eo + 4} (entry_end b2 eo len v) eo [x, y, d2, v]"
  proof (rule segI)
    fix i assume "i < length [x, y, d2, v]"
    then have "i = 0 \<or> i = 1 \<or> i = 2 \<or> i = 3" by auto
    then show "entry_end b2 eo len v ! (eo + i) = [x, y, d2, v] ! i"
      using assms(1,2) i k by (elim disjE) (simp_all add: entry_defs key_dws_def d2_def)
  qed (use assms in auto)
  then show ?thesis using entry_bits [of "b ! (eo + 2)" "type_code t" "word_of_nat len"]
    by (intro exI [of _ d2]) (simp add: k d2_def)
qed

lemma wr_ok:
  assumes "off + length ds \<le> length b"
  obtains b' where "wr b off ds = Some b'" "length b' = length b" "seg {off..<off + length ds} b' off ds"
    "\<And>i. i \<notin> {off..<off + length ds} \<Longrightarrow> b' ! i = b ! i"
proof
  let ?b = "take off b @ ds @ drop (off + length ds) b"
  show "wr b off ds = Some ?b" using assms by (simp add: wr_def)
  show "length ?b = length b" using assms by simp
  show "seg {off..<off + length ds} ?b off ds" using assms by (simp add: seg_def)
  show "?b ! i = b ! i" if "i \<notin> {off..<off + length ds}" for i
    using assms that by (auto simp: nth_append)
qed

lemma unat_of_nat16: "n < 65536 \<Longrightarrow> unat (word_of_nat n :: u16) = n"
  by (simp add: unat_of_nat take_bit_nat_eq_self)

lemma unat_of_nat32: "n < 2 ^ 32 \<Longrightarrow> unat (word_of_nat n :: u32) = n"
  by (simp add: unat_of_nat take_bit_nat_eq_self)

declare props_length.simps(2) [simp del] leaf_len_Cons [simp]

definition kept :: "nat set \<Rightarrow> u32 list \<Rightarrow> u32 list \<Rightarrow> bool" where
  "kept R b b' = (length b' = length b \<and> (\<forall>i. i \<notin> R \<longrightarrow> b' ! i = b ! i))"

lemma kept_trans: "kept A b b1 \<Longrightarrow> kept B b1 b2 \<Longrightarrow> A \<subseteq> R \<Longrightarrow> B \<subseteq> R \<Longrightarrow> kept R b b2"
  unfolding kept_def by (metis in_mono)

lemma enc_value_cong:
  assumes "length b' = length b" "\<forall>i \<in> R. b' ! i = b ! i" "R \<subseteq> R'" "enc_value R b d2 d3 n v"
  shows "enc_value R' b' d2 d3 n v"
  using assms(4) seg_cong [OF _ assms(1-3)] enc_cong(1) [OF assms(1-3)]
  by (cases v) (auto simp: enc_value_def)

lemma entry_step:
  assumes "eo + 4 \<le> length b" "kept Q (entry_begin b eo k (ptype v)) b2" "kept R' (entry_end b2 eo len d3) b'"
    "Q \<inter> {eo..<eo + 4} = {}" "R' \<inter> {eo..<eo + 4} = {}" "R' \<inter> Q = {}" "{eo..<eo + 4} \<union> Q \<union> R' \<subseteq> R"
    "enc_props R' b' (eo + 4) ps" "\<And>d2. ucast d2 = (word_of_nat len :: u16) \<Longrightarrow> enc_value Q b2 d2 d3 n v"
  shows "kept R b b' \<and> enc_props R b' eo (Prop k n v # ps)"
proof -
  let ?E = "{eo..<eo + 4}"
  have len: "length b2 = length b" "length b' = length b" using assms(2,3) by (simp_all add: kept_def)
  have "\<forall>i \<in> ?E. b2 ! i = entry_begin b eo k (ptype v) ! i" using assms(2,4) by (auto simp: kept_def)
  then obtain d2 where d2: "seg ?E (entry_end b2 eo len d3) eo (key_dws k @ [d2, d3])"
    "ucast (drop_bit 24 d2) = type_code (ptype v)" "ucast d2 = (word_of_nat len :: u16)"
    using entry_written [OF assms(1) len(1)] by blast
  have E: "\<forall>i \<in> ?E. b' ! i = entry_end b2 eo len d3 ! i" using assms(3,5) by (auto simp: kept_def)
  have s: "seg R b' eo (key_dws k @ [d2, d3])" by (rule seg_cong [OF d2(1) _ E]) (use len assms(7) in auto)
  have Q: "\<forall>i \<in> Q. b' ! i = b2 ! i"
  proof
    fix i assume "i \<in> Q"
    then have "i \<notin> ?E" "i \<notin> R'" using assms(4,6) by blast+
    then show "b' ! i = b2 ! i" using assms(3) entry_other(2) [of i eo b2] by (simp add: kept_def)
  qed
  have v: "enc_value R b' d2 d3 n v"
    by (rule enc_value_cong [OF _ Q _ assms(9) [OF d2(3)]]) (use len assms(7) in auto)
  have ps: "enc_props R b' (eo + 4) ps" by (rule enc_cong(2) [OF _ _ _ assms(8)]) (use assms(7) in auto)
  have "b' ! i = b ! i" if "i \<notin> R" for i
  proof -
    have "i \<notin> ?E" "i \<notin> Q" "i \<notin> R'" using that assms(7) by blast+
    then show ?thesis using assms(2,3) entry_other [of i eo] by (simp add: kept_def)
  qed
  then show ?thesis unfolding enc_props_Cons kept_def using len s d2(2) v ps by blast
qed

definition region :: "nat \<Rightarrow> nat \<Rightarrow> nat \<Rightarrow> tb_property list \<Rightarrow> nat set" where
  "region eo doff de ps = {eo..<eo + 4 * length ps} \<union> {doff..<doff + leaf_len ps} \<union> {de..<de + below ps}"

text \<open>Leaf data of one property.\<close>

lemma format_data_ok:
  assumes "length bs = 4 * n" "doff + n \<le> length b"
  obtains b2 where "format_data b doff bs n = Some b2" "kept {doff..<doff + n} b b2"
    "seg {doff..<doff + n} b2 doff (format_dwdata bs n)"
proof -
  have l: "length (format_dwdata bs n) = n" using assms(1) by (simp add: length_format_dwdata)
  obtain b2 where "wr b doff (format_dwdata bs n) = Some b2" "length b2 = length b"
    "seg {doff..<doff + n} b2 doff (format_dwdata bs n)" "\<And>i. i \<notin> {doff..<doff + n} \<Longrightarrow> b2 ! i = b ! i"
    by (rule wr_ok [of doff "format_dwdata bs n" b, unfolded l]) (use assms in auto)
  then show thesis using that assms(1) by (simp add: format_data_def kept_def)
qed

text \<open>One step of the loop, by kind of value, in terms of the two halves of the entry write.\<close>

lemma format_props_leaf:
  assumes "v = VData bs \<or> v = VText bs" "eo + 4 \<le> length b" "length bs = 4 * n" "n < 65536"
    "format_data (entry_begin b eo k (ptype v)) doff bs n = Some b2"
  shows "format_props (Prop k n v # ps) b eo doff de =
    format_props ps (entry_end b2 eo n (word_of_nat doff)) (eo + 4) (doff + n) de"
  using assms by (elim disjE) (simp_all add: entry_begin_def entry_end_def unat_of_nat16)

lemma format_props_dir:
  assumes "eo + 4 \<le> length b" "tb_property_format_dir_int c (entry_begin b eo k TB_PROPERTY_TYPE_DIRECTORY) de = Inr (Inr ret, b2)"
    "duuid c \<noteq> None"
  shows "format_props (Prop k n (VDir c) # ps) b eo doff de =
    format_props ps (entry_end b2 eo (4 + 4 * length (dprops c)) (word_of_nat de)) (eo + 4) doff ret"
proof (cases c)
  case (Dir u qs)
  then show ?thesis using assms
    by (simp add: entry_begin_def entry_end_def dir_length_False del: tb_property_dir_length.simps tb_property_format_dir_int.simps)
qed

lemma format_props_imm:
  "eo + 4 \<le> length b \<Longrightarrow> format_props (Prop k n (VImm x) # ps) b eo doff de =
    format_props ps (entry_end (entry_begin b eo k TB_PROPERTY_TYPE_VALUE) eo n x) (eo + 4) doff de"
  by (simp add: entry_begin_def entry_end_def)

definition fmt_dir_ok :: "tb_property_dir \<Rightarrow> bool" where
  "fmt_dir_ok d = (\<forall>start b. wf_dir d \<and> start + total_dir d \<le> length b \<and> length b < 2 ^ 32 \<longrightarrow>
      (\<exists>b'. tb_property_format_dir_int d b start = Inr (Inr (start + total_dir d), b')
        \<and> kept {start..<start + total_dir d} b b' \<and> enc_dir {start..<start + total_dir d} b' start d))"

definition fmt_props_ok :: "tb_property list \<Rightarrow> bool" where
  "fmt_props_ok ps = (\<forall>eo doff de b.
      wf_props ps \<and> eo + 4 * length ps \<le> doff \<and> doff + leaf_len ps \<le> de \<and> de + below ps \<le> length b \<and> length b < 2 ^ 32 \<longrightarrow>
      (\<exists>b'. format_props ps b eo doff de = Inr (Inr (de + below ps), b')
        \<and> kept (region eo doff de ps) b b' \<and> enc_props (region eo doff de ps) b' eo ps))"

lemma fmt_propsD:
  assumes "fmt_props_ok ps" "wf_props ps" "eo + 4 * length ps \<le> doff" "doff + leaf_len ps \<le> de" "de + below ps \<le> length b" "length b < 2 ^ 32"
  obtains b' where "format_props ps b eo doff de = Inr (Inr (de + below ps), b')"
    "kept (region eo doff de ps) b b'" "enc_props (region eo doff de ps) b' eo ps"
  using assms unfolding fmt_props_ok_def by metis

lemma fmt_propsI:
  assumes "\<And>eo doff de b. wf_props ps \<Longrightarrow> eo + 4 * length ps \<le> doff \<Longrightarrow> doff + leaf_len ps \<le> de \<Longrightarrow> de + below ps \<le> length b \<Longrightarrow>
    length b < 2 ^ 32 \<Longrightarrow> \<exists>b'. format_props ps b eo doff de = Inr (Inr (de + below ps), b')
        \<and> (kept (region eo doff de ps) b b' \<and> enc_props (region eo doff de ps) b' eo ps)"
  shows "fmt_props_ok ps"
  using assms unfolding fmt_props_ok_def by blast

lemma fmt_dir_step:
  assumes "fmt_props_ok ps"
  shows "fmt_dir_ok (Dir u ps)"
  unfolding fmt_dir_ok_def
proof (intro allI impI, elim conjE)
  fix start and b :: "u32 list" assume wf: "wf_dir (Dir u ps)" and fit: "start + total_dir (Dir u ps) \<le> length b" and sm: "length b < 2 ^ 32"
  let ?d = "Dir u ps" and ?h = "case u of Some ds \<Rightarrow> ds | None \<Rightarrow> [TB_PROPERTY_ROOTDIR_MAGIC, word_of_nat (4 * length ps)]"
  let ?R = "{start..<start + total_dir ?d}" and ?eo = "start + hdr_len u" and ?doff = "start + (hdr_len u + 4 * length ps)"
  let ?de = "start + leaf_len ps + (hdr_len u + 4 * length ps)"
  let ?R' = "region ?eo ?doff ?de ps"
  have h: "length ?h = hdr_len u" using wf by (auto simp: uuid_ok_def split: option.splits)
  obtain b1 where b1: "wr b start ?h = Some b1" "length b1 = length b" "seg {start..<start + length ?h} b1 start ?h"
    "\<And>i. i \<notin> {start..<start + length ?h} \<Longrightarrow> b1 ! i = b ! i"
    by (rule wr_ok [of start ?h b]) (use fit h in auto)
  have hd: "format_header u b start (hdr_len u + 4 * length ps) = Some b1"
    using b1(1) by (cases u) (simp_all add: format_header_def)
  obtain b' where b': "format_props ps b1 ?eo ?doff ?de = Inr (Inr (?de + below ps), b')" "kept ?R' b1 b'" "enc_props ?R' b' ?eo ps"
    by (rule fmt_propsD [OF assms, of ?eo ?doff ?de b1]) (use wf fit sm b1(2) in \<open>simp_all add: algebra_simps\<close>)
  have sub: "?R' \<subseteq> ?R" "{start..<start + length ?h} \<subseteq> ?R" "?R' \<inter> {start..<start + length ?h} = {}" by (auto simp: region_def h)
  have "tb_property_format_dir_int ?d b start = Inr (Inr (start + total_dir ?d), b')"
    using b'(1) hd fit by (simp add: dir_length_False algebra_simps del: tb_property_dir_length.simps)
  moreover have "kept ?R b b'"
    by (rule kept_trans [OF _ b'(2) sub(2,1)]) (use b1(2,4) in \<open>simp add: kept_def\<close>)
  moreover have "seg ?R b' start ?h"
    by (rule seg_cong [OF b1(3)]) (use b'(2) b1(2) sub in \<open>auto simp: kept_def\<close>)
  moreover have "enc_props ?R b' ?eo ps" by (rule enc_cong(2) [OF _ _ sub(1) b'(3)]) auto
  ultimately show "\<exists>b'. tb_property_format_dir_int ?d b start = Inr (Inr (start + total_dir ?d), b') \<and> kept ?R b b' \<and> enc_dir ?R b' start ?d"
    by (intro exI [of _ b']) simp
qed

lemma fmt_child_step:
  assumes "fmt_dir_ok c" "fmt_props_ok ps"
  shows "fmt_props_ok (Prop k n (VDir c) # ps)"
proof (rule fmt_propsI)
  fix eo doff de and b :: "u32 list"
  let ?p = "Prop k n (VDir c)" and ?Q = "{de..<de + total_dir c}" and ?R' = "region (eo + 4) doff (de + total_dir c) ps"
  let ?R = "region eo doff de (?p # ps)" and ?b1 = "entry_begin b eo k TB_PROPERTY_TYPE_DIRECTORY"
  assume wf: "wf_props (?p # ps)" and o: "eo + 4 * length (?p # ps) \<le> doff" "doff + leaf_len (?p # ps) \<le> de"
    "de + below (?p # ps) \<le> length b" and sm: "length b < 2 ^ 32"
  have fit: "eo + 4 \<le> length b" using o by simp
  have c: "wf_dir c" "duuid c \<noteq> None" "4 + 4 * length (dprops c) < 65536" using wf by simp_all
  obtain b2 where b2: "tb_property_format_dir_int c ?b1 de = Inr (Inr (de + total_dir c), b2)" "kept ?Q ?b1 b2" "enc_dir ?Q b2 de c"
    using assms(1) [unfolded fmt_dir_ok_def, rule_format, of de ?b1] c(1) o(3) sm by auto
  let ?b3 = "entry_end b2 eo (4 + 4 * length (dprops c)) (word_of_nat de)"
  obtain b' where b': "format_props ps ?b3 (eo + 4) doff (de + total_dir c) = Inr (Inr (de + total_dir c + below ps), b')"
    "kept ?R' ?b3 b'" "enc_props ?R' b' (eo + 4) ps"
    by (rule fmt_propsD [OF assms(2), of "eo + 4" doff "de + total_dir c" ?b3])
      (use wf o sm b2(2) in \<open>simp_all add: kept_def leaf_len_Cons\<close>)
  have "kept ?R b b' \<and> enc_props ?R b' eo (?p # ps)"
  proof (rule entry_step [where Q = ?Q and R' = ?R', OF fit _ b'(2) _ _ _ _ b'(3)])
    have "unat (word_of_nat de :: u32) = de" by (rule unat_of_nat32) (use o sm in simp)
    then show "enc_value ?Q b2 d2 (word_of_nat de) n (VDir c)" if "ucast d2 = (word_of_nat (4 + 4 * length (dprops c)) :: u16)" for d2
      unfolding enc_value_def using b2(3) that unat_of_nat16 [OF c(3)] by simp
    show "kept ?Q (entry_begin b eo k (ptype (VDir c))) b2" using b2(2) by simp
  qed (use o in \<open>auto simp: region_def leaf_len_Cons\<close>)
  then show "\<exists>b'. format_props (?p # ps) b eo doff de = Inr (Inr (de + below (?p # ps)), b')
      \<and> (kept ?R b b' \<and> enc_props ?R b' eo (?p # ps))"
    unfolding format_props_dir [OF fit b2(1) c(2)] using b'(1) by (intro exI [of _ b'] conjI) (simp_all only: below.simps tb_property_value.case add.assoc)
qed

lemma fmt_leaf_step:
  assumes "fmt_props_ok ps" "v = VData bs \<or> v = VText bs"
  shows "fmt_props_ok (Prop k n v # ps)"
proof (rule fmt_propsI)
  fix eo doff de and b :: "u32 list"
  let ?p = "Prop k n v" and ?Q = "{doff..<doff + n}" and ?R' = "region (eo + 4) (doff + n) de ps"
  let ?R = "region eo doff de (?p # ps)" and ?b1 = "entry_begin b eo k (ptype v)"
  assume wf: "wf_props (?p # ps)" and o: "eo + 4 * length (?p # ps) \<le> doff" "doff + leaf_len (?p # ps) \<le> de"
    "de + below (?p # ps) \<le> length b" and sm: "length b < 2 ^ 32"
  have l: "leaf_len (?p # ps) = n + leaf_len ps" "below (?p # ps) = below ps" "length bs = 4 * n" "n < 65536"
    using assms(2) wf by (auto simp: leaf_len_Cons)
  have fit: "eo + 4 \<le> length b" "doff + n \<le> length ?b1" using o l by simp_all
  obtain b2 where b2: "format_data ?b1 doff bs n = Some b2" "kept ?Q ?b1 b2" "seg ?Q b2 doff (format_dwdata bs n)"
    by (rule format_data_ok [OF l(3) fit(2)])
  let ?b3 = "entry_end b2 eo n (word_of_nat doff)"
  obtain b' where b': "format_props ps ?b3 (eo + 4) (doff + n) de = Inr (Inr (de + below ps), b')"
    "kept ?R' ?b3 b'" "enc_props ?R' b' (eo + 4) ps"
    by (rule fmt_propsD [OF assms(1), of "eo + 4" "doff + n" de ?b3]) (use wf o sm b2(2) l in \<open>simp_all add: kept_def\<close>)
  have "kept ?R b b' \<and> enc_props ?R b' eo (?p # ps)"
  proof (rule entry_step [OF fit(1) b2(2) b'(2) _ _ _ _ b'(3)])
    have "unat (word_of_nat doff :: u32) = doff" by (rule unat_of_nat32) (use o l sm in simp)
    then show "enc_value ?Q b2 d2 (word_of_nat doff) n v" if "ucast d2 = (word_of_nat n :: u16)" for d2
      using b2(3) that assms(2) unat_of_nat16 [OF l(4)] by (auto simp: enc_value_def)
  qed (use o l in \<open>auto simp: region_def\<close>)
  then show "\<exists>b'. format_props (?p # ps) b eo doff de = Inr (Inr (de + below (?p # ps)), b')
      \<and> (kept ?R b b' \<and> enc_props ?R b' eo (?p # ps))"
    unfolding format_props_leaf [OF assms(2) fit(1) l(3,4) b2(1)] l(2) using b'(1) by blast
qed

lemma fmt_imm_step:
  assumes "fmt_props_ok ps"
  shows "fmt_props_ok (Prop k n (VImm x) # ps)"
proof (rule fmt_propsI)
  fix eo doff de and b :: "u32 list"
  let ?p = "Prop k n (VImm x)" and ?R' = "region (eo + 4) doff de ps" and ?b1 = "entry_begin b eo k (ptype (VImm x))"
  let ?R = "region eo doff de (?p # ps)"
  assume wf: "wf_props (?p # ps)" and o: "eo + 4 * length (?p # ps) \<le> doff" "doff + leaf_len (?p # ps) \<le> de"
    "de + below (?p # ps) \<le> length b" and sm: "length b < 2 ^ 32"
  have l: "leaf_len (?p # ps) = leaf_len ps" "below (?p # ps) = below ps" by (simp_all add: leaf_len_Cons)
  have fit: "eo + 4 \<le> length b" and k0: "kept {} ?b1 ?b1" using o by (simp_all add: kept_def)
  obtain b' where b': "format_props ps (entry_end ?b1 eo n x) (eo + 4) doff de = Inr (Inr (de + below ps), b')"
    "kept ?R' (entry_end ?b1 eo n x) b'" "enc_props ?R' b' (eo + 4) ps"
    by (rule fmt_propsD [OF assms, of "eo + 4" doff de "entry_end ?b1 eo n x"]) (use wf o sm l in simp_all)
  have "kept ?R b b' \<and> enc_props ?R b' eo (?p # ps)"
    by (rule entry_step [OF fit k0 b'(2) _ _ _ _ b'(3)]) (use wf o in \<open>auto simp: region_def leaf_len_Cons enc_value_def\<close>)
  then show "\<exists>b'. format_props (?p # ps) b eo doff de = Inr (Inr (de + below (?p # ps)), b')
      \<and> (kept ?R b b' \<and> enc_props ?R b' eo (?p # ps))"
    using format_props_imm [OF fit] b'(1) l(2) by auto
qed

lemma format_enc: "fmt_dir_ok d" "fmt_props_ok ps"
proof (induction d and ps rule: total_dir_below.induct)
  case (3 k n v ps)
  show ?case
  proof (cases v)
    case VUnknown
    then show ?thesis by (simp add: fmt_props_ok_def)
  qed (use 3 fmt_child_step fmt_leaf_step fmt_imm_step in blast)+
qed (auto simp: fmt_dir_step fmt_props_ok_def kept_def region_def)

section \<open>The size query\<close>

lemma format_query: "tb_property_format_dir d None = Inr (Inr (total_dir d), None)"
  by (simp add: tb_property_format_dir_def case_prod_beta dir_length_total)

text \<open>A block that is too small is refused, wherever in the tree it runs out.\<close>

definition short_dir :: "tb_property_dir \<Rightarrow> bool" where
  "short_dir d = (\<forall>start b. wf_dir d \<and> start \<le> length b \<and> length b < start + total_dir d \<and> length b < 2 ^ 32 \<longrightarrow>
      (\<exists>b'. tb_property_format_dir_int d b start = Inr (Inl EINVAL, b')))"

definition short_props :: "tb_property list \<Rightarrow> bool" where
  "short_props ps = (\<forall>eo doff de b.
      wf_props ps \<and> eo + 4 * length ps \<le> doff \<and> doff + leaf_len ps \<le> de \<and> de \<le> length b \<and> length b < de + below ps \<and> length b < 2 ^ 32 \<longrightarrow>
      (\<exists>b'. format_props ps b eo doff de = Inr (Inl EINVAL, b')))"

lemma short_dir_step: "short_props ps \<Longrightarrow> short_dir (Dir u ps)"
  unfolding short_dir_def
proof (intro allI impI, elim conjE)
  fix start and b :: "u32 list"
  assume ps: "short_props ps" and wf: "wf_dir (Dir u ps)" and s: "start \<le> length b" "length b < start + total_dir (Dir u ps)" "length b < 2 ^ 32"
  let ?de = "start + leaf_len ps + (hdr_len u + 4 * length ps)"
  show "\<exists>b'. tb_property_format_dir_int (Dir u ps) b start = Inr (Inl EINVAL, b')"
  proof (cases "?de \<le> length b")
    case True
    let ?h = "case u of Some ds \<Rightarrow> ds | None \<Rightarrow> [TB_PROPERTY_ROOTDIR_MAGIC, word_of_nat (4 * length ps)]"
    have h: "length ?h = hdr_len u" using wf by (auto simp: uuid_ok_def split: option.splits)
    obtain b1 where b1: "wr b start ?h = Some b1" "length b1 = length b"
      by (rule wr_ok [of start ?h b]) (use True h in auto)
    have "format_header u b start (hdr_len u + 4 * length ps) = Some b1"
      using b1(1) by (cases u) (simp_all add: format_header_def)
    moreover obtain b' where "format_props ps b1 (start + hdr_len u) (start + (hdr_len u + 4 * length ps)) ?de = Inr (Inl EINVAL, b')"
      using ps [unfolded short_props_def, rule_format, of "start + hdr_len u" "start + (hdr_len u + 4 * length ps)" ?de b1] True wf s b1(2) by auto
    ultimately show ?thesis using True by (simp add: dir_length_False algebra_simps del: tb_property_dir_length.simps)
  next
    case False
    then show ?thesis by (simp add: dir_length_False algebra_simps del: tb_property_dir_length.simps)
  qed
qed

lemma short_props_step:
  assumes "short_props ps" "\<And>c. v = VDir c \<Longrightarrow> short_dir c"
  shows "short_props (Prop k n v # ps)"
  unfolding short_props_def
proof (intro allI impI, elim conjE)
  fix eo doff de and b :: "u32 list"
  let ?p = "Prop k n v" and ?b1 = "entry_begin b eo k (ptype v)"
  assume wf: "wf_props (?p # ps)" and o: "eo + 4 * length (?p # ps) \<le> doff" "doff + leaf_len (?p # ps) \<le> de" "de \<le> length b"
    "length b < de + below (?p # ps)" and sm: "length b < 2 ^ 32"
  have fit: "eo + 4 \<le> length b" using o by simp
  note ps = assms(1) [unfolded short_props_def, rule_format]
  show "\<exists>b'. format_props (?p # ps) b eo doff de = Inr (Inl EINVAL, b')"
  proof (cases v)
    case (VDir c)
    have c: "wf_dir c" "duuid c \<noteq> None" using wf VDir by simp_all
    show ?thesis
    proof (cases "de + total_dir c \<le> length b")
      case True
      then obtain b2 where b2: "tb_property_format_dir_int c ?b1 de = Inr (Inr (de + total_dir c), b2)" "length b2 = length b"
        using format_enc(1) [of c, unfolded fmt_dir_ok_def, rule_format, of de ?b1] c(1) sm by (auto simp: kept_def)
      show ?thesis
        unfolding VDir format_props_dir [OF fit b2(1) [unfolded VDir ptype.simps] c(2)]
        by (rule ps) (use wf o sm True b2(2) VDir in simp)
    next
      case False
      then obtain b2 where "tb_property_format_dir_int c ?b1 de = Inr (Inl EINVAL, b2)"
        using assms(2) [OF VDir, unfolded short_dir_def, rule_format, of de ?b1] c(1) sm o(3) by auto
      then show ?thesis using fit by (simp add: VDir entry_begin_def)
    qed
  next
    case (VImm x)
    show ?thesis unfolding VImm format_props_imm [OF fit] by (rule ps) (use wf o sm VImm in simp)
  next
    case VUnknown
    then show ?thesis using wf by simp
  next
    case (VData bs)
    have l: "length bs = 4 * n" "n < 65536" "doff + n \<le> length ?b1" using wf o VData by simp_all
    obtain b2 where b2: "format_data ?b1 doff bs n = Some b2" "kept {doff..<doff + n} ?b1 b2" by (rule format_data_ok [OF l(1,3)])
    show ?thesis unfolding format_props_leaf [OF disjI1 [OF VData] fit l(1,2) b2(1)]
      by (rule ps) (use wf o sm VData b2(2) in \<open>simp add: kept_def\<close>)
  next
    case (VText bs)
    have l: "length bs = 4 * n" "n < 65536" "doff + n \<le> length ?b1" using wf o VText by simp_all
    obtain b2 where b2: "format_data ?b1 doff bs n = Some b2" "kept {doff..<doff + n} ?b1 b2" by (rule format_data_ok [OF l(1,3)])
    show ?thesis unfolding format_props_leaf [OF disjI2 [OF VText] fit l(1,2) b2(1)]
      by (rule ps) (use wf o sm VText b2(2) in \<open>simp add: kept_def\<close>)
  qed
qed

lemma format_short: "short_dir d" "short_props ps"
proof (induction d and ps rule: total_dir_below.induct)
  case (3 k n v ps)
  then show ?case by (intro short_props_step) auto
qed (simp add: short_dir_step, simp add: short_props_def)

text \<open>C18: The size query is exact. What formatting without a block returns is the number of dwords the
  directory takes: formatting into a block of at least that size succeeds without a store outside
  the block, and formatting into a smaller one is refused with EINVAL, also without a fault.\<close>

theorem format_size_exact:
  assumes "wf_dir d" "length b < 2 ^ 32" "tb_property_format_dir d None = Inr (Inr sz, None)"
  shows "\<exists>b'. tb_property_format_dir d (Some b) = Inr (if sz \<le> length b then Inr 0 else Inl EINVAL, Some b')"
proof -
  have sz: "sz = total_dir d" using assms(3) by (simp add: format_query)
  show ?thesis
  proof (cases "sz \<le> length b")
    case True
    then show ?thesis
      using format_enc(1) [of d, unfolded fmt_dir_ok_def, rule_format, of 0 b] assms(1,2) sz by (auto simp: tb_property_format_dir_def)
  next
    case False
    then show ?thesis
      using format_short(1) [of d, unfolded short_dir_def, rule_format, of 0 b] assms(1,2) sz by (auto simp: tb_property_format_dir_def)
  qed
qed

text \<open>C4: Formatting then parsing gives the directory back. Any root directory whose properties are
  well formed is formatted into any block of the queried size, and the parser, with a stack as deep
  as the nesting and memory to allocate, reads from that block the same directory, with the length
  of each nested directory filled in, holding exactly the objects it is made of.\<close>

theorem property_roundtrip:
  assumes "wf_dir d" "duuid d = None" "tb_property_format_dir d None = Inr (Inr sz, None)" "sz \<le> length b" "length b < 2 ^ 32"
    "height_dir d \<le> depth" "outcomes m = []"
  shows "\<exists>b'. tb_property_format_dir d (Some b) = Inr (Inr 0, Some b')
    \<and> tb_property_parse_dir depth b' m = Inr (Some (sized_dir d), m\<lparr>live := live m + dir_objs d\<rparr>)"
proof -
  have sz: "sz = total_dir d" using assms(3) by (simp add: format_query)
  obtain ps where d: "d = Dir None ps" using assms(2) by (cases d) simp
  obtain b' where b': "tb_property_format_dir_int d b 0 = Inr (Inr (total_dir d), b')" "kept {0..<total_dir d} b b'"
      "enc_dir {0..<total_dir d} b' 0 d"
    using format_enc(1) [of d, unfolded fmt_dir_ok_def, rule_format, of 0 b] assms(1,4,5) sz by auto
  have len: "length b' = length b" using b'(2) by (simp add: kept_def)
  have h: "rd b' 0 2 = Some [TB_PROPERTY_ROOTDIR_MAGIC, word_of_nat (4 * length ps)]"
    using b'(3) by (auto simp: d intro: rd_seg)
  have small: "4 * length ps \<le> length b" using assms(4) by (simp add: sz d)
  then have w: "unat (word_of_nat (4 * length ps) :: u32) = 4 * length ps" using assms(5) by (intro unat_of_nat32) simp
  have w64: "unat (ucast (word_of_nat (4 * length ps) :: u32) :: u64) = 4 * length ps"
    unfolding unsigned_ucast_eq w by (rule take_bit_nat_eq_self) (use small assms(5) in simp)
  have "parse_dir depth b' 0 (ucast (word_of_nat (4 * length ps) :: u32)) (duuid d = None) m = Inr (Some (sized_dir d), grow (dir_objs d) m)"
    by (rule parse_dir_enc [OF assms(1) _ assms(6,7)]) (use b'(3) len assms(5) w64 in \<open>simp_all add: d\<close>)
  then have "tb_property_parse_dir depth b' m = Inr (Some (sized_dir d), grow (dir_objs d) m)"
    using h w small len by (simp add: tb_property_parse_dir_def d)
  then show ?thesis using b'(1) by (simp add: tb_property_format_dir_def)
qed

definition dir_sample :: tb_property_dir where
  "dir_sample = Dir None
    [Prop [0x76, 0x65, 0x6e, 0x64, 0x6f, 0x72, 0x69, 0x64] 1 (VImm 0xa27),
     Prop [0x64] 3 (VText [0x41, 0x70, 0x70, 0x6c, 0x65, 0x20, 0x49, 0x6e, 0x63, 0x2e, 0, 0]),
     Prop [0x6e, 0x65, 0x74] 0 (VDir (Dir (Some [1, 2, 3, 4]) [Prop [0x78] 1 (VData [9, 8, 7, 6]), Prop [0x79] 1 (VImm 5)]))]"

theorem format_size_exact_witness:
  "\<exists>b'. tb_property_format_dir dir_sample (Some (replicate 30 0)) = Inr (Inl EINVAL, Some b')"
proof -
  have "tb_property_format_dir dir_sample None = Inr (Inr 31, None)" by (simp add: format_query dir_sample_def)
  then show ?thesis
    using format_size_exact [of dir_sample "replicate 30 0" 31] by (simp add: dir_sample_def uuid_ok_def)
qed

theorem property_roundtrip_witness:
  "\<exists>b'. tb_property_format_dir dir_sample (Some (replicate 31 0)) = Inr (Inr 0, Some b')
     \<and> tb_property_parse_dir 2 b' \<lparr>outcomes = [], live = 0\<rparr> = Inr (Some (sized_dir dir_sample), \<lparr>outcomes = [], live = 10\<rparr>)"
proof -
  have "tb_property_format_dir dir_sample None = Inr (Inr 31, None)" by (simp add: format_query dir_sample_def)
  then show ?thesis
    using property_roundtrip [of dir_sample 31 "replicate 31 0" 2 "\<lparr>outcomes = [], live = 0\<rparr>"]
    by (simp add: dir_sample_def uuid_ok_def)
qed

section \<open>Memory\<close>

lemma kfree_grow: "kfree n m = grow (if n = 0 then 0 else - 1) m"
  by (simp add: kfree_def)

lemma free_live: "tb_property_free_dir d m = grow (- dir_objs d) m" "free_props ps m = grow (- props_objs ps) m"
proof (induction d and ps arbitrary: m and m rule: total_dir_below.induct)
  case (3 k n v ps)
  then show ?case by (cases v) (simp_all add: kfree_grow)
qed (simp_all add: kfree_grow)

lemma kzalloc_live: "kzalloc n m = (ok, m') \<Longrightarrow> live m' = live m + (if ok \<and> n \<noteq> 0 then 1 else 0)"
  by (auto simp: kzalloc_def split: list.splits if_splits)

lemma parse_live:
  assumes "tb_property_parse pd b e m = Inr (r, m')"
    and pd: "\<And>off len m r m'. pd off len m = Inr (r, m') \<Longrightarrow> live m' = live m + (case r of None \<Rightarrow> 0 | Some d \<Rightarrow> dir_objs d)"
  shows "live m' = live m + (case r of None \<Rightarrow> 0 | Some p \<Rightarrow> props_objs [p])"
proof -
  obtain ok m1 where a: "tb_property_alloc m = (ok, m1)" by fastforce
  obtain ok2 m2 where k: "kzalloc (unat (elength e)) m1 = (ok2, m2)" by fastforce
  note l = kzalloc_live [OF a [unfolded tb_property_alloc_def]] kzalloc_live [OF k]
  show ?thesis
  proof (cases "tb_property_entry_valid e (length b) \<and> ok")
    case True
    then show ?thesis
      using assms(1) a k l pd [of "evalue e" "ucast (elength e)" m1]
      by (cases "type_of_code (etype e)") (auto simp: tb_property_parse_def kfree_grow Let_def split: option.splits sum.splits prod.splits if_splits)
  next
    case False
    then show ?thesis using assms(1) a l(1) by (auto simp: tb_property_parse_def split: if_splits)
  qed
qed

lemma props_objs_append [simp]: "props_objs (ps @ [p]) = props_objs ps + props_objs [p]"
proof (induction ps)
  case (Cons q ps)
  then show ?case by (cases q; cases p) simp
qed simp

lemma entries_live:
  assumes "parse_entries parse b off n u ps m = Inr (r, m')"
    and "\<And>e m r m'. parse e m = Inr (r, m') \<Longrightarrow> live m' = live m + (case r of None \<Rightarrow> 0 | Some p \<Rightarrow> props_objs [p])"
  shows "live m' = live m - dir_objs (Dir u ps) + (case r of None \<Rightarrow> 0 | Some d \<Rightarrow> dir_objs d)"
  using assms
proof (induction parse b off n u ps m rule: parse_entries.induct)
  case (1 parse b off n u ps m)
  show ?case
  proof (cases "n = 0")
    case True
    then show ?thesis using "1.prems"(1) by (auto simp: parse_entries.simps)
  next
    case False
    then obtain ds where d: "rd b off 4 = Some ds" using "1.prems"(1) by (subst (asm) parse_entries.simps) (auto split: option.splits)
    then obtain q m1 where q: "parse (entry_of ds) m = Inr (q, m1)"
      using "1.prems"(1) False by (subst (asm) parse_entries.simps) (auto split: sum.splits)
    note l = "1.prems"(2) [OF q]
    show ?thesis
    proof (cases q)
      case None
      then show ?thesis using "1.prems"(1) False d q l by (subst (asm) parse_entries.simps) (auto simp: free_live)
    next
      case (Some p)
      then have e: "parse_entries parse b (off + 4) (n - 1) u (ps @ [p]) m1 = Inr (r, m')"
        using "1.prems"(1) False d q by (subst (asm) parse_entries.simps) simp
      show ?thesis using "1.IH" [OF False d q refl Some e "1.prems"(2)] l Some by simp
    qed
  qed
qed

lemma parse_dir_live:
  "parse_dir depth b off len root m = Inr (r, m') \<Longrightarrow> live m' = live m + (case r of None \<Rightarrow> 0 | Some d \<Rightarrow> dir_objs d)"
proof (induction depth arbitrary: off len root m r m')
  case (Suc depth)
  let ?p = "tb_property_parse (\<lambda>off len. parse_dir depth b off len False) b"
  have p: "?p e m = Inr (r, m') \<Longrightarrow> live m' = live m + (case r of None \<Rightarrow> 0 | Some p \<Rightarrow> props_objs [p])" for e m r m'
    by (erule parse_live) (rule Suc.IH)
  obtain ok m1 where a: "kzalloc 1 m = (ok, m1)" by fastforce
  obtain ok2 m2 where a2: "kzalloc 1 m1 = (ok2, m2)" by fastforce
  note l = kzalloc_live [OF a] kzalloc_live [OF a2]
  show ?case
  proof (cases "ok \<and> root")
    case True
    then have "parse_entries ?p b (unat (off + 2)) (unat len div 4) None [] m1 = Inr (r, m')" using Suc.prems a by simp
    then show ?thesis using entries_live [OF _ p] l(1) True by fastforce
  next
    case False
    show ?thesis
    proof (cases "ok")
      case True
      then obtain u where "parse_entries ?p b (unat (off + 4)) (unat (len - 4) div 4) (Some u) [] m2 = Inr (r, m')" "ok2"
        using Suc.prems a a2 False by (auto split: if_splits option.splits)
      then show ?thesis using entries_live [OF _ p] l True by fastforce
    next
      case False
      then show ?thesis using Suc.prems a l(1) by auto
    qed
  qed
qed simp

text \<open>C11: The parser does not leak. Whatever the block holds and whichever allocations fail, when it
  returns no directory every object it allocated has been released, and when it returns one,
  releasing that directory brings the heap back to what it was.\<close>

theorem parse_no_leak:
  assumes "tb_property_parse_dir depth block m = Inr (r, m')"
  shows "case r of None \<Rightarrow> live m' = live m | Some d \<Rightarrow> live (tb_property_free_dir d m') = live m"
proof -
  have "live m' = live m + (case r of None \<Rightarrow> 0 | Some d \<Rightarrow> dir_objs d)"
    using assms parse_dir_live by (auto simp: tb_property_parse_dir_def split: option.splits if_splits)
  then show ?thesis by (auto simp: free_live split: option.splits)
qed

lemma parse_entries_done: "parse_entries parse block off 0 u ps m = Inr (Some (Dir u ps), m)"
  by (simp add: parse_entries.simps)

lemma parse_entries_next:
  "n \<noteq> 0 \<Longrightarrow> rd block off 4 = Some ds \<Longrightarrow> parse_entries parse block off n u ps m =
     (case parse (entry_of ds) m of
        Inl f \<Rightarrow> Inl f
      | Inr (None, m) \<Rightarrow> Inr (None, tb_property_free_dir (Dir u ps) m)
      | Inr (Some p, m) \<Rightarrow> parse_entries parse block (off + 4) (n - 1) u (ps @ [p]) m)"
  "n \<noteq> 0 \<Longrightarrow> rd block off 4 = None \<Longrightarrow> parse_entries parse block off n u ps m = Inl OutOfBounds"
  by (simp_all add: parse_entries.simps [of parse block off n])

theorem parse_no_leak_witness:
  "\<exists>m'. tb_property_parse_dir (Suc 0) [TB_PROPERTY_ROOTDIR_MAGIC, 8, 0, 0, 0x76000001, 7, 0, 0, 0x76000002, 7] \<lparr>outcomes = [True, True], live = 5\<rparr> = Inr (None, m')
     \<and> live m' = 5"
proof -
  let ?b = "[TB_PROPERTY_ROOTDIR_MAGIC, 8, 0, 0, 0x76000001, 7, 0, 0, 0x76000002, 7]" and ?m = "\<lparr>outcomes = [True, True], live = 5\<rparr>"
  obtain m' where "tb_property_parse_dir (Suc 0) ?b ?m = Inr (None, m')"
    by (simp add: tb_property_parse_dir_def rd_def kzalloc_def parse_entries_done parse_entries_next tb_property_parse_def entry_of_def
        tb_property_entry_valid_def type_of_code_def tb_property_alloc_def)
  then show ?thesis using parse_no_leak [of "Suc 0" ?b ?m None m'] by simp
qed

section \<open>Blocks from a hostile peer\<close>

lemmas parse_eval = tb_property_parse_dir_def rd_def kzalloc_ok parse_entries_done parse_entries_next tb_property_parse_def entry_of_def
  tb_property_entry_valid_def type_of_code_def tb_property_alloc_def Let_def

lemma self_reference:
  "outcomes m = [] \<Longrightarrow> parse_dir depth [TB_PROPERTY_ROOTDIR_MAGIC, 4, 0, 0, 0x44000008, 2, 0, 0, 0x44000008, 2] 2 8 False m = Inl StackOverflow"
  by (induction depth arbitrary: m) (simp_all add: parse_eval)

text \<open>C24: The validity checks do not protect the parser from a peer's block. With every allocation
  succeeding: the sum of offset and length wraps around, so a leaf at the end of the address range
  is read outside the block; the length of the root directory is checked without its header, so its
  last entry is read outside; a nested directory shorter than its UUID makes the number of entries
  wrap around; a text of no dwords is terminated one byte before its buffer; and a directory that
  contains itself recurses until the stack is used up, however deep it is. When the copy of a
  nested UUID cannot be allocated the release follows a null list head, and a deep copy that cannot
  allocate a leaf returns no directory and keeps one object.\<close>

theorem parse_faults:
  assumes "outcomes m = []"
  shows "tb_property_parse_dir (Suc depth) [TB_PROPERTY_ROOTDIR_MAGIC, 4, 0, 0, 0x64000001, 0xFFFFFFFF] m = Inl OutOfBounds
    \<and> tb_property_parse_dir (Suc depth) [TB_PROPERTY_ROOTDIR_MAGIC, 4, 0, 0] m = Inl OutOfBounds
    \<and> tb_property_parse_dir (Suc (Suc depth)) [TB_PROPERTY_ROOTDIR_MAGIC, 4, 0, 0, 0x44000000, 0] m = Inl OutOfBounds
    \<and> tb_property_parse_dir (Suc depth) [TB_PROPERTY_ROOTDIR_MAGIC, 4, 0, 0, 0x74000000, 0] m = Inl OutOfBounds
    \<and> tb_property_parse_dir depth [TB_PROPERTY_ROOTDIR_MAGIC, 4, 0, 0, 0x44000008, 2, 0, 0, 0x44000008, 2] m = Inl StackOverflow
    \<and> tb_property_parse_dir (Suc (Suc depth)) [TB_PROPERTY_ROOTDIR_MAGIC, 4, 0, 0, 0x44000004, 0] (m\<lparr>outcomes := [True, True, True, False]\<rparr>)
        = Inl NullDeref
    \<and> tb_property_copy_dir (Dir None [Prop k 1 (VData bs)]) (m\<lparr>outcomes := [True, True, False]\<rparr>) = Inr (None, m\<lparr>live := live m + 1\<rparr>)"
proof (intro conjI)
  show "tb_property_parse_dir (Suc depth) [TB_PROPERTY_ROOTDIR_MAGIC, 4, 0, 0, 0x64000001, 0xFFFFFFFF] m = Inl OutOfBounds"
    "tb_property_parse_dir (Suc depth) [TB_PROPERTY_ROOTDIR_MAGIC, 4, 0, 0] m = Inl OutOfBounds"
    "tb_property_parse_dir (Suc (Suc depth)) [TB_PROPERTY_ROOTDIR_MAGIC, 4, 0, 0, 0x44000000, 0] m = Inl OutOfBounds"
    "tb_property_parse_dir (Suc depth) [TB_PROPERTY_ROOTDIR_MAGIC, 4, 0, 0, 0x74000000, 0] m = Inl OutOfBounds"
    using assms by (simp_all add: parse_eval)
  show "tb_property_parse_dir depth [TB_PROPERTY_ROOTDIR_MAGIC, 4, 0, 0, 0x44000008, 2, 0, 0, 0x44000008, 2] m = Inl StackOverflow"
    using assms self_reference by (cases depth) (simp_all add: parse_eval)
  show "tb_property_parse_dir (Suc (Suc depth)) [TB_PROPERTY_ROOTDIR_MAGIC, 4, 0, 0, 0x44000004, 0] (m\<lparr>outcomes := [True, True, True, False]\<rparr>)
      = Inl NullDeref"
    by (simp add: parse_eval kzalloc_def)
  show "tb_property_copy_dir (Dir None [Prop k 1 (VData bs)]) (m\<lparr>outcomes := [True, True, False]\<rparr>) = Inr (None, m\<lparr>live := live m + 1\<rparr>)"
    using assms by (simp add: tb_property_create_dir_def tb_property_alloc_def kzalloc_def kfree_def Let_def)
qed

theorem parse_faults_witness:
  "tb_property_parse_dir 7 [TB_PROPERTY_ROOTDIR_MAGIC, 4, 0, 0, 0x44000008, 2, 0, 0, 0x44000008, 2] \<lparr>outcomes = [], live = 0\<rparr> = Inl StackOverflow"
  using parse_faults [of "\<lparr>outcomes = [], live = 0\<rparr>" 7] by simp

end
