(* ===== verification/Tbrxe_Credit.thy ===== *)
theory Tbrxe_Credit imports Tbframe_Link
begin

text \<open>The credit admission of the frame transport of the rxe engine (\<^verbatim>\<open>drivers/thunderbolt_frame/rxe/tbrxe_frame.c\<close>):
  every reliable packet in flight on a link is charged against the data window its peer advertised,
  with a reserve that only retransmissions may use, and a queue pair the window refuses is parked
  until the completer releases a record. The theory models the windows, the charge and release of
  records, sessions, and the devices that share a link record among their queue pairs, and proves the
  window bound for every interleaving, what a reconciliation releases, and when a parked queue pair is
  scheduled again.\<close>

section \<open>Packet sequence numbers\<close>

text \<open>A 24-bit circular order: the difference is moved to the top of a signed 32-bit number.\<close>

definition BTH_PSN_MASK :: u32 where "BTH_PSN_MASK = 0x00ffffff"

definition psn_compare :: "u32 \<Rightarrow> u32 \<Rightarrow> int" where
  "psn_compare psn_a psn_b = sint (push_bit 8 (psn_a - psn_b))"

section \<open>State\<close>

definition RXE_MAX_UNACKED_PSNS :: nat where "RXE_MAX_UNACKED_PSNS = 128"
definition TBRXE_REPLAY_RESERVE :: u32 where "TBRXE_REPLAY_RESERVE = ucast TBFRAME_CTRL_RESERVE div 2"
definition TBRXE_QP_CREDIT_CAP :: u16 where
  "TBRXE_QP_CREDIT_CAP = word_of_nat RXE_MAX_UNACKED_PSNS + ucast TBRXE_REPLAY_RESERVE"
definition TBRXE_CREDIT_REPLAY :: u32 where "TBRXE_CREDIT_REPLAY = 0x80000000"

datatype ib_qp_type = IB_QPT_RC | IB_QPT_UC | IB_QPT_UD | IB_QPT_GSI

datatype ib_qp_state = IB_QPS_RESET | IB_QPS_INIT | IB_QPS_RTR | IB_QPS_RTS | IB_QPS_SQD | IB_QPS_SQE | IB_QPS_ERR

text \<open>The part of a queue pair that admission uses. The array of records with its count is the list of
  the records in use; the two last fields say whether its send and receive tasks are scheduled.\<close>

record rxe_qp =
  qp_type :: ib_qp_type
  qvalid :: bool
  qp_state :: ib_qp_state
  req_psn :: u32
  comp_psn :: u32
  need_req_skb :: bool
  need_resp_skb :: bool
  tbl_credits :: "u32 list"
  tbl_credit_cap :: u16
  tbl_high_psn :: u32
  tbl_high_valid :: bool
  tbl_generation :: u64
  send_task :: bool
  recv_task :: bool

record tbrxe_link =
  rl_info :: tbframe_link_info
  session_up :: bool
  unacked :: u32
  fresh_unacked :: u32
  credit_generation :: u64
  admission_waiters :: bool

section \<open>Windows\<close>

definition tbrxe_link_engine_window :: "tbrxe_link \<Rightarrow> u32" where
  "tbrxe_link_engine_window l = (if li_data_window (rl_info l) \<noteq> 0 then ucast (li_data_window (rl_info l)) else 1)"

definition tbrxe_link_replay_reserve :: "tbrxe_link \<Rightarrow> u32" where
  "tbrxe_link_replay_reserve l =
    (let data = tbrxe_link_engine_window l in if data < 128 then 0 else min TBRXE_REPLAY_RESERVE (data div 8))"

definition tbrxe_link_fresh_window :: "tbrxe_link \<Rightarrow> u32" where
  "tbrxe_link_fresh_window l = tbrxe_link_engine_window l - tbrxe_link_replay_reserve l"

definition tbrxe_link_wire_window :: "tbrxe_link \<Rightarrow> u32" where
  "tbrxe_link_wire_window l = tbrxe_link_engine_window l"

section \<open>Operations\<close>

text \<open>Setting up and releasing the record array; an allocation may fail.\<close>

definition tbrxe_credit_init :: "bool \<Rightarrow> rxe_qp \<Rightarrow> (errno + unit) \<times> rxe_qp" where
  "tbrxe_credit_init mem_ok q =
    (if qp_type q \<noteq> IB_QPT_RC then (Inr (), q)
     else if \<not> mem_ok then (Inl ENOMEM, q)
     else (Inr (), q\<lparr>tbl_credit_cap := TBRXE_QP_CREDIT_CAP\<rparr>))"

definition tbrxe_credit_cleanup :: "rxe_qp \<Rightarrow> rxe_qp" where
  "tbrxe_credit_cleanup q = q\<lparr>tbl_credits := [], tbl_credit_cap := 0\<rparr>"

definition tbrxe_credit_generation_locked :: "rxe_qp \<Rightarrow> tbrxe_link \<Rightarrow> rxe_qp" where
  "tbrxe_credit_generation_locked q l =
    (if tbl_generation q = credit_generation l then q
     else q\<lparr>tbl_credits := [], tbl_generation := credit_generation l\<rparr>)"

text \<open>Admission of the packet at the requester's sequence number: whether it may be sent, and whether a
  record was charged for it.\<close>

definition tbrxe_admit :: "rxe_qp \<Rightarrow> tbrxe_link option \<Rightarrow> (bool \<times> bool) \<times> rxe_qp \<times> tbrxe_link option" where
  "tbrxe_admit q link =
    (case link of
       None \<Rightarrow> ((True, False), q, None)
     | Some l \<Rightarrow>
         let q = tbrxe_credit_generation_locked q l;
             replay = (tbl_high_valid q \<and> psn_compare (req_psn q) (tbl_high_psn q) < 0);
             duplicate = (replay \<and> (\<exists>c \<in> set (tbl_credits q). c AND BTH_PSN_MASK = req_psn q AND BTH_PSN_MASK))
         in if \<not> duplicate \<and>
               (unacked l \<ge> tbrxe_link_wire_window l
                \<or> (\<not> replay \<and> fresh_unacked l \<ge> tbrxe_link_fresh_window l)
                \<or> length (tbl_credits q) \<ge> unat (tbl_credit_cap q))
            then ((False, False), q\<lparr>need_req_skb := True\<rparr>, Some (l\<lparr>admission_waiters := True\<rparr>))
            else if \<not> duplicate
            then ((True, True),
                  q\<lparr>tbl_credits := tbl_credits q @ [req_psn q OR (if replay then TBRXE_CREDIT_REPLAY else 0)]\<rparr>,
                  Some (l\<lparr>unacked := unacked l + 1,
                          fresh_unacked := (if replay then fresh_unacked l else fresh_unacked l + 1)\<rparr>))
            else ((True, False), q, Some l))"

definition tbrxe_admitted_replay :: "rxe_qp \<Rightarrow> tbrxe_link option \<Rightarrow> u32 \<Rightarrow> bool \<times> rxe_qp" where
  "tbrxe_admitted_replay q link psn =
    (case link of
       None \<Rightarrow> (False, q)
     | Some l \<Rightarrow>
         if qp_type q \<noteq> IB_QPT_RC then (False, q)
         else
           let q = tbrxe_credit_generation_locked q l
           in (tbl_high_valid q \<and> psn_compare psn (tbl_high_psn q) < 0, q))"

definition is_replay :: "u32 \<Rightarrow> bool" where
  "is_replay c = (c AND TBRXE_CREDIT_REPLAY \<noteq> 0)"

definition release_one :: "u32 \<Rightarrow> tbrxe_link \<Rightarrow> tbrxe_link" where
  "release_one c l =
    (let l = (if \<not> is_replay c \<and> fresh_unacked l \<noteq> 0 then l\<lparr>fresh_unacked := fresh_unacked l - 1\<rparr> else l)
     in if unacked l \<noteq> 0 then l\<lparr>unacked := unacked l - 1\<rparr> else l)"

text \<open>Roll back the most recent charge when no frame reached the wire.\<close>

definition tbrxe_unadmit :: "rxe_qp \<Rightarrow> tbrxe_link option \<Rightarrow> rxe_qp \<times> tbrxe_link option" where
  "tbrxe_unadmit q link =
    (case link of
       None \<Rightarrow> (q, None)
     | Some l \<Rightarrow>
         if qp_type q \<noteq> IB_QPT_RC then (q, Some l)
         else
           let q = tbrxe_credit_generation_locked q l
           in if tbl_credits q = [] then (q, Some l)
              else (q\<lparr>tbl_credits := butlast (tbl_credits q)\<rparr>, Some (release_one (last (tbl_credits q)) l)))"

definition tbrxe_credit_commit :: "rxe_qp \<Rightarrow> tbrxe_link option \<Rightarrow> rxe_qp" where
  "tbrxe_credit_commit q link =
    (case link of
       None \<Rightarrow> q
     | Some l \<Rightarrow>
         if qp_type q \<noteq> IB_QPT_RC then q
         else
           let q = tbrxe_credit_generation_locked q l
           in if \<not> tbl_high_valid q \<or> psn_compare (req_psn q) (tbl_high_psn q) > 0
              then q\<lparr>tbl_high_psn := req_psn q, tbl_high_valid := True\<rparr>
              else q)"

text \<open>Reconcile with the completer's progress: release what it has passed, or everything when the queue
  pair is going away, and compact the rest.\<close>

definition credit_released :: "rxe_qp \<Rightarrow> u32 \<Rightarrow> bool" where
  "credit_released q c =
    (\<not> qvalid q \<or> qp_state q = IB_QPS_ERR \<or> qp_state q = IB_QPS_RESET \<or> psn_compare (c AND BTH_PSN_MASK) (comp_psn q) < 0)"

fun sync_loop :: "rxe_qp \<Rightarrow> u32 list \<Rightarrow> u32 list \<Rightarrow> bool \<Rightarrow> tbrxe_link \<Rightarrow> u32 list \<times> bool \<times> tbrxe_link" where
  "sync_loop q [] kept released l = (kept, released, l)"
| "sync_loop q (c # cs) kept released l =
    (if credit_released q c then sync_loop q cs kept True (release_one c l)
     else sync_loop q cs (kept @ [c]) released l)"

text \<open>The result says whether the parked queue pairs of the device are to be rescheduled.\<close>

definition tbrxe_unacked_sync :: "rxe_qp \<Rightarrow> tbrxe_link option \<Rightarrow> bool \<times> rxe_qp \<times> tbrxe_link option" where
  "tbrxe_unacked_sync q link =
    (if qp_type q \<noteq> IB_QPT_RC then (False, q, link)
     else case link of
            None \<Rightarrow> (False, q, None)
          | Some l \<Rightarrow>
              let q = tbrxe_credit_generation_locked q l;
                  (kept, released, l) = sync_loop q (tbl_credits q) [] False l;
                  q = q\<lparr>tbl_credits := kept\<rparr>;
                  q = (if \<not> qvalid q \<or> qp_state q = IB_QPS_RESET then q\<lparr>tbl_high_valid := False\<rparr> else q);
                  kick = (released \<and> admission_waiters l)
              in (kick, q, Some (if kick then l\<lparr>admission_waiters := False\<rparr> else l)))"

definition kick_qp :: "rxe_qp \<Rightarrow> rxe_qp" where
  "kick_qp q =
    (let q = (if need_req_skb q then q\<lparr>send_task := True\<rparr> else q)
     in if need_resp_skb q then q\<lparr>recv_task := True\<rparr> else q)"

section \<open>The device\<close>

text \<open>A device is a link record and its queue pairs. A session change starts a new generation of
  records.\<close>

record rxe_dev =
  tbl_link :: "tbrxe_link option"
  qps :: "rxe_qp list"

definition tbrxe_kick_parked_qps :: "rxe_dev \<Rightarrow> rxe_dev" where
  "tbrxe_kick_parked_qps d = d\<lparr>qps := map kick_qp (qps d)\<rparr>"

definition tbrxe_client_tx_released :: "rxe_dev \<Rightarrow> rxe_dev" where
  "tbrxe_client_tx_released d = tbrxe_kick_parked_qps d"

definition session_change :: "bool \<Rightarrow> tbframe_link_info \<Rightarrow> tbrxe_link \<Rightarrow> tbrxe_link" where
  "session_change up info l = l\<lparr>rl_info := info, session_up := up, unacked := 0, fresh_unacked := 0,
     credit_generation := credit_generation l + 1, admission_waiters := False\<rparr>"

definition relink_up :: "tbframe_link_info \<Rightarrow> rxe_dev \<Rightarrow> rxe_dev" where
  "relink_up info d = d\<lparr>tbl_link := map_option (session_change True info) (tbl_link d)\<rparr>"

definition relink_down :: "rxe_dev \<Rightarrow> rxe_dev" where
  "relink_down d = d\<lparr>tbl_link := map_option (\<lambda>l. session_change False (rl_info l) l) (tbl_link d)\<rparr>"

definition dev_admit :: "nat \<Rightarrow> rxe_dev \<Rightarrow> (bool \<times> bool) \<times> rxe_dev" where
  "dev_admit i d = (let (r, q, l) = tbrxe_admit (qps d ! i) (tbl_link d) in (r, d\<lparr>tbl_link := l, qps := (qps d)[i := q]\<rparr>))"

definition dev_unadmit :: "nat \<Rightarrow> rxe_dev \<Rightarrow> rxe_dev" where
  "dev_unadmit i d = (let (q, l) = tbrxe_unadmit (qps d ! i) (tbl_link d) in d\<lparr>tbl_link := l, qps := (qps d)[i := q]\<rparr>)"

definition dev_commit :: "nat \<Rightarrow> rxe_dev \<Rightarrow> rxe_dev" where
  "dev_commit i d = d\<lparr>qps := (qps d)[i := tbrxe_credit_commit (qps d ! i) (tbl_link d)]\<rparr>"

definition dev_sync :: "nat \<Rightarrow> rxe_dev \<Rightarrow> rxe_dev" where
  "dev_sync i d =
    (let (kick, q, l) = tbrxe_unacked_sync (qps d ! i) (tbl_link d);
         d = d\<lparr>tbl_link := l, qps := (qps d)[i := q]\<rparr>
     in if kick then tbrxe_kick_parked_qps d else d)"

section \<open>The accounting invariant\<close>

text \<open>The records of a queue pair that count in the link's present session.\<close>

definition live_credits :: "tbrxe_link \<Rightarrow> rxe_qp \<Rightarrow> u32 list" where
  "live_credits l q = (if tbl_generation q = credit_generation l then tbl_credits q else [])"

definition fresh_credits :: "tbrxe_link \<Rightarrow> rxe_qp \<Rightarrow> u32 list" where
  "fresh_credits l q = filter (\<lambda>c. \<not> is_replay c) (live_credits l q)"

definition windows_ok :: "tbrxe_link \<Rightarrow> bool" where
  "windows_ok l = (unacked l \<le> tbrxe_link_wire_window l \<and> fresh_unacked l \<le> tbrxe_link_fresh_window l)"

definition counts_ok :: "tbrxe_link \<Rightarrow> rxe_qp list \<Rightarrow> bool" where
  "counts_ok l qs =
    (unat (unacked l) = sum_list (map (\<lambda>q. length (live_credits l q)) qs)
     \<and> unat (fresh_unacked l) = sum_list (map (\<lambda>q. length (fresh_credits l q)) qs))"

definition qp_ok :: "tbrxe_link \<Rightarrow> rxe_qp \<Rightarrow> bool" where
  "qp_ok l q =
    (tbl_generation q \<le> credit_generation l \<and> length (tbl_credits q) \<le> unat (tbl_credit_cap q)
     \<and> req_psn q \<le> BTH_PSN_MASK \<and> (qp_type q \<noteq> IB_QPT_RC \<longrightarrow> tbl_credits q = []))"

definition credit_ok :: "rxe_dev \<Rightarrow> bool" where
  "credit_ok d = (case tbl_link d of None \<Rightarrow> True | Some l \<Rightarrow> windows_ok l \<and> counts_ok l (qps d) \<and> list_all (qp_ok l) (qps d))"

subsection \<open>One operation on one queue pair\<close>

text \<open>What an operation does to the counters is what it does to the records of its queue pair.\<close>

definition same_session :: "tbrxe_link \<Rightarrow> tbrxe_link \<Rightarrow> bool" where
  "same_session l l' = (credit_generation l' = credit_generation l \<and> rl_info l' = rl_info l)"

definition charged_as :: "tbrxe_link \<Rightarrow> rxe_qp \<Rightarrow> tbrxe_link \<Rightarrow> rxe_qp \<Rightarrow> bool" where
  "charged_as l q l' q' =
    (\<forall>U F. unat (unacked l) = U + length (live_credits l q) \<and> unat (fresh_unacked l) = F + length (fresh_credits l q) \<longrightarrow>
       unat (unacked l') = U + length (live_credits l' q') \<and> unat (fresh_unacked l') = F + length (fresh_credits l' q'))"

definition op_ok :: "tbrxe_link \<Rightarrow> rxe_qp \<Rightarrow> tbrxe_link \<Rightarrow> rxe_qp \<Rightarrow> bool" where
  "op_ok l q l' q' = (same_session l l' \<and> charged_as l q l' q' \<and> (windows_ok l \<longrightarrow> windows_ok l') \<and> (qp_ok l q \<longrightarrow> qp_ok l' q'))"

lemma op_ok_refl [simp]: "op_ok l q l q"
  by (simp add: op_ok_def same_session_def charged_as_def)

lemma op_ok_trans: "op_ok l q l1 q1 \<Longrightarrow> op_ok l1 q1 l2 q2 \<Longrightarrow> op_ok l q l2 q2"
  by (auto simp: op_ok_def same_session_def charged_as_def)

lemma windows_same_session:
  "same_session l l' \<Longrightarrow> tbrxe_link_wire_window l' = tbrxe_link_wire_window l \<and> tbrxe_link_fresh_window l' = tbrxe_link_fresh_window l"
  by (simp add: same_session_def tbrxe_link_wire_window_def tbrxe_link_fresh_window_def tbrxe_link_engine_window_def
      tbrxe_link_replay_reserve_def)

lemma generation_ok:
  "op_ok l q l (tbrxe_credit_generation_locked q l)" "tbl_generation (tbrxe_credit_generation_locked q l) = credit_generation l"
  "qp_type (tbrxe_credit_generation_locked q l) = qp_type q" "req_psn (tbrxe_credit_generation_locked q l) = req_psn q"
  by (auto simp: tbrxe_credit_generation_locked_def op_ok_def same_session_def charged_as_def live_credits_def fresh_credits_def qp_ok_def)

text \<open>Whatever leaves the records and the generation alone.\<close>

lemma op_ok_qp:
  assumes "tbl_credits q' = tbl_credits q" "tbl_generation q' = tbl_generation q" "qp_type q' = qp_type q"
    "tbl_credit_cap q' = tbl_credit_cap q" "req_psn q' \<le> BTH_PSN_MASK \<or> req_psn q' = req_psn q"
  shows "op_ok l q l q'"
  using assms by (auto simp: op_ok_def same_session_def charged_as_def live_credits_def fresh_credits_def qp_ok_def)

lemma op_ok_waiters: "op_ok l q (l\<lparr>admission_waiters := b\<rparr>) q"
  by (simp add: op_ok_def same_session_def charged_as_def live_credits_def fresh_credits_def qp_ok_def windows_ok_def
      tbrxe_link_wire_window_def tbrxe_link_fresh_window_def tbrxe_link_engine_window_def tbrxe_link_replay_reserve_def)

lemma unat_suc: "x < (y :: u32) \<Longrightarrow> unat (x + 1) = unat x + 1 \<and> x + 1 \<le> y"
proof -
  assume "x < y"
  then have "unat x + 1 \<le> unat y" by (simp add: word_less_nat_alt)
  moreover have "unat y < 2 ^ 32" using unsigned_less [of y, where ?'a = nat] by simp
  ultimately show ?thesis by (simp add: unat_word_ariths word_le_nat_alt)
qed

lemma psn_not_replay:
  assumes "p \<le> BTH_PSN_MASK"
  shows "\<not> is_replay p" "is_replay (p OR TBRXE_CREDIT_REPLAY)"
proof -
  have "unat p < 2 ^ 24" using assms by (simp add: BTH_PSN_MASK_def word_le_nat_alt)
  then have "take_bit 24 p = p" by (simp add: word_unat_eq_iff unsigned_take_bit_eq take_bit_nat_eq_self)
  then have "\<not> bit p 31" using bit_take_bit_iff [of 24 p 31] by simp
  moreover have r: "is_replay x = bit x 31" for x
    using and_exp_eq_0_iff_not_bit [of x 31] by (simp add: is_replay_def TBRXE_CREDIT_REPLAY_def)
  moreover have "bit TBRXE_CREDIT_REPLAY 31" by (simp add: TBRXE_CREDIT_REPLAY_def)
  ultimately show "\<not> is_replay p" "is_replay (p OR TBRXE_CREDIT_REPLAY)" by (simp_all add: bit_or_iff)
qed

text \<open>Releasing a record that is counted.\<close>

lemma release_one_counts:
  assumes "unat (unacked l) = Suc U" "unat (fresh_unacked l) = F + (if is_replay c then 0 else 1)"
  shows "unat (unacked (release_one c l)) = U \<and> unat (fresh_unacked (release_one c l)) = F \<and> same_session l (release_one c l)
    \<and> (windows_ok l \<longrightarrow> windows_ok (release_one c l)) \<and> admission_waiters (release_one c l) = admission_waiters l"
proof -
  have pred: "x \<noteq> 0 \<and> unat (x - 1) = n" if "unat x = Suc n" for x :: u32 and n
  proof -
    have "x \<noteq> 0" using that by auto
    then show ?thesis using that unat_sub1_word [of x] by simp
  qed
  have f: "\<not> is_replay c \<Longrightarrow> fresh_unacked l \<noteq> 0 \<and> unat (fresh_unacked l - 1) = F" using pred [of "fresh_unacked l" F] assms(2) by simp
  have r: "unat (unacked (release_one c l)) = U" "unat (fresh_unacked (release_one c l)) = F" "same_session l (release_one c l)"
    "admission_waiters (release_one c l) = admission_waiters l"
    using pred [OF assms(1)] f assms(2) by (cases "is_replay c"; simp add: release_one_def same_session_def)+
  moreover have "unat (unacked (release_one c l)) \<le> unat (unacked l)" "unat (fresh_unacked (release_one c l)) \<le> unat (fresh_unacked l)"
    using r assms by simp_all
  ultimately show ?thesis
    using windows_same_session [OF r(3)] by (auto simp: windows_ok_def word_le_nat_alt)
qed

lemma sync_loop_result:
  "sync_loop q cs ks rel l = (ks', rel', l') \<Longrightarrow>
    ks' = ks @ filter (\<lambda>c. \<not> credit_released q c) cs \<and> rel' = (rel \<or> list_ex (credit_released q) cs)"
  by (induction q cs ks rel l rule: sync_loop.induct) (auto split: if_splits)

lemma same_session_trans: "same_session a b \<Longrightarrow> same_session b c \<Longrightarrow> same_session a c"
  by (simp add: same_session_def)

abbreviation fresh_count :: "u32 list \<Rightarrow> nat" where
  "fresh_count cs \<equiv> length (filter (\<lambda>c. \<not> is_replay c) cs)"

lemma sync_loop_counts:
  assumes "sync_loop q cs ks rel l = (ks', rel', l')"
    "unat (unacked l) = U + length ks + length cs" "unat (fresh_unacked l) = F + fresh_count ks + fresh_count cs"
  shows "unat (unacked l') = U + length ks' \<and> unat (fresh_unacked l') = F + fresh_count ks' \<and> same_session l l'
    \<and> (windows_ok l \<longrightarrow> windows_ok l') \<and> admission_waiters l' = admission_waiters l"
  using assms
proof (induction q cs ks rel l rule: sync_loop.induct)
  case (1 q ks rel l)
  then show ?case by (auto simp: same_session_def)
next
  case (2 q c cs ks rel l)
  show ?case
  proof (cases "credit_released q c")
    case True
    have a: "unat (unacked l) = Suc (U + length ks + length cs)" using "2.prems"(2) by simp
    have b: "unat (fresh_unacked l) = F + fresh_count ks + fresh_count cs + (if is_replay c then 0 else 1)" using "2.prems"(3) by simp
    note r = release_one_counts [OF a b]
    have "sync_loop q cs ks True (release_one c l) = (ks', rel', l')" using "2.prems"(1) True by simp
    then show ?thesis using "2.IH"(1) [OF True] r same_session_trans [of l "release_one c l" l'] by auto
  next
    case False
    then show ?thesis using "2.IH"(2) [OF False] "2.prems" by auto
  qed
qed

lemma admit_ok:
  assumes "tbrxe_admit q (Some l) = (r, q', l')" "qp_ok l q" "qp_type q = IB_QPT_RC"
  shows "\<exists>k. l' = Some k \<and> op_ok l q k q'"
proof -
  let ?q = "tbrxe_credit_generation_locked q l"
  let ?replay = "tbl_high_valid ?q \<and> psn_compare (req_psn ?q) (tbl_high_psn ?q) < 0"
  let ?c = "req_psn ?q OR (if ?replay then TBRXE_CREDIT_REPLAY else 0)"
  let ?q1 = "?q\<lparr>tbl_credits := tbl_credits ?q @ [?c]\<rparr>"
  let ?l1 = "l\<lparr>unacked := unacked l + 1, fresh_unacked := (if ?replay then fresh_unacked l else fresh_unacked l + 1)\<rparr>"
  have g: "tbl_generation ?q = credit_generation l" "qp_ok l ?q" "qp_type ?q = IB_QPT_RC"
    using generation_ok [where l = l and q = q] assms(2,3) by (auto simp: op_ok_def)
  have c: "is_replay ?c = ?replay" using psn_not_replay [of "req_psn ?q"] g(2) by (auto simp: qp_ok_def)
  have ch: "op_ok l ?q ?l1 ?q1"
    if room: "unacked l < tbrxe_link_wire_window l" "?replay \<or> fresh_unacked l < tbrxe_link_fresh_window l" "length (tbl_credits ?q) < unat (tbl_credit_cap ?q)"
  proof -
    have s: "same_session l ?l1" by (simp add: same_session_def)
    have "charged_as l ?q ?l1 ?q1"
      using unat_suc [OF room(1)] unat_suc [of "fresh_unacked l" "tbrxe_link_fresh_window l"] room(2) c g(1)
      by (auto simp: charged_as_def live_credits_def fresh_credits_def)
    moreover have "windows_ok l \<longrightarrow> windows_ok ?l1"
      using unat_suc [OF room(1)] unat_suc [of "fresh_unacked l" "tbrxe_link_fresh_window l"] room(2) windows_same_session [OF s]
      by (auto simp: windows_ok_def)
    moreover have "qp_ok ?l1 ?q1" using g room(3) by (simp add: qp_ok_def)
    ultimately show ?thesis using s by (simp add: op_ok_def)
  qed
  have p: "op_ok l ?q (l\<lparr>admission_waiters := True\<rparr>) (?q\<lparr>need_req_skb := True\<rparr>)"
    by (rule op_ok_trans [OF op_ok_waiters op_ok_qp]) simp_all
  have "\<exists>k. l' = Some k \<and> op_ok l ?q k q'"
    using assms(1) ch p by (auto simp: tbrxe_admit_def Let_def not_le split: if_splits)
  then show ?thesis using op_ok_trans generation_ok(1) by blast
qed

lemma unadmit_ok:
  assumes "tbrxe_unadmit q (Some l) = (q', l')" "\<exists>U F. unat (unacked l) = U + length (live_credits l q) \<and> unat (fresh_unacked l) = F + length (fresh_credits l q)"
  shows "\<exists>k. l' = Some k \<and> op_ok l q k q'"
proof -
  let ?q = "tbrxe_credit_generation_locked q l"
  note g = generation_ok [where l = l and q = q]
  obtain U F where n: "unat (unacked l) = U + length (live_credits l ?q)" "unat (fresh_unacked l) = F + length (fresh_credits l ?q)"
    using assms(2) g(1) by (auto simp: op_ok_def charged_as_def)
  show ?thesis
  proof (cases "qp_type q \<noteq> IB_QPT_RC \<or> tbl_credits ?q = []")
    case True
    then have "(q' = q \<or> q' = ?q) \<and> l' = Some l" using assms(1) by (cases "qp_type q = IB_QPT_RC") (simp_all add: tbrxe_unadmit_def)
    then show ?thesis using g(1) by auto
  next
    case False
    let ?c = "last (tbl_credits ?q)" and ?b = "butlast (tbl_credits ?q)"
    have 3: "q' = ?q\<lparr>tbl_credits := ?b\<rparr>" "l' = Some (release_one ?c l)" using assms(1) False by (auto simp: tbrxe_unadmit_def Let_def)
    have live: "live_credits l ?q = ?b @ [?c]" using False g(2) by (simp add: live_credits_def)
    have a: "unat (unacked l) = Suc (U + length ?b)" using n(1) unfolding live by simp
    have b: "unat (fresh_unacked l) = F + fresh_count ?b + (if is_replay ?c then 0 else 1)"
      using n(2) unfolding fresh_credits_def live by simp
    note r = release_one_counts [OF a b]
    have s: "credit_generation (release_one ?c l) = credit_generation l" using r by (simp add: same_session_def)
    have "charged_as l ?q (release_one ?c l) q'"
      using r n 3(1) g(2) s by (simp add: charged_as_def live_credits_def fresh_credits_def)
    moreover have "qp_ok l ?q \<longrightarrow> qp_ok (release_one ?c l) q'" using 3(1) s by (auto simp: qp_ok_def)
    ultimately have "op_ok l ?q (release_one ?c l) q'" using r by (simp add: op_ok_def)
    then show ?thesis using op_ok_trans [OF g(1)] 3(2) by blast
  qed
qed

lemma commit_ok: "op_ok l q l (tbrxe_credit_commit q (Some l))"
proof -
  let ?q = "tbrxe_credit_generation_locked q l"
  have "op_ok l ?q l (?q\<lparr>tbl_high_psn := req_psn ?q, tbl_high_valid := True\<rparr>)" by (rule op_ok_qp) simp_all
  then show ?thesis using generation_ok(1) [where l = l and q = q] op_ok_trans by (auto simp: tbrxe_credit_commit_def Let_def)
qed

lemma sync_ok:
  assumes "tbrxe_unacked_sync q (Some l) = (kick, q', l')" "\<exists>U F. unat (unacked l) = U + length (live_credits l q) \<and> unat (fresh_unacked l) = F + length (fresh_credits l q)"
  shows "\<exists>k. l' = Some k \<and> op_ok l q k q'"
proof (cases "qp_type q = IB_QPT_RC")
  case False
  then show ?thesis using assms(1) by (auto simp: tbrxe_unacked_sync_def)
next
  case True
  let ?q = "tbrxe_credit_generation_locked q l"
  note g = generation_ok [where l = l and q = q]
  obtain U F where n: "unat (unacked l) = U + length (live_credits l ?q)" "unat (fresh_unacked l) = F + length (fresh_credits l ?q)"
    using assms(2) g(1) by (auto simp: op_ok_def charged_as_def)
  obtain ks rel l1 where s: "sync_loop ?q (tbl_credits ?q) [] False l = (ks, rel, l1)" by (metis prod_cases3)
  have c: "unat (unacked l1) = U + length ks \<and> unat (fresh_unacked l1) = F + fresh_count ks \<and> same_session l l1
    \<and> (windows_ok l \<longrightarrow> windows_ok l1) \<and> admission_waiters l1 = admission_waiters l"
    by (rule sync_loop_counts [OF s]) (use n g(2) in \<open>simp_all add: live_credits_def fresh_credits_def\<close>)
  let ?q1 = "?q\<lparr>tbl_credits := ks\<rparr>"
  have len: "length ks \<le> length (tbl_credits ?q)" "ks \<noteq> [] \<Longrightarrow> tbl_credits ?q \<noteq> []" using sync_loop_result [OF s] by auto
  have "op_ok l ?q l1 ?q1"
    unfolding op_ok_def
  proof (intro conjI impI)
    show "charged_as l ?q l1 ?q1" using c n g(2) by (simp add: charged_as_def live_credits_def fresh_credits_def same_session_def)
    show "qp_ok l1 ?q1" if "qp_ok l ?q" using that len c by (auto simp: qp_ok_def same_session_def)
  qed (use c in simp_all)
  moreover have "op_ok l1 ?q1 l1 (?q1\<lparr>tbl_high_valid := False\<rparr>)" by (rule op_ok_qp) simp_all
  ultimately have "op_ok l q (l1\<lparr>admission_waiters := w\<rparr>) ?q1" "op_ok l q (l1\<lparr>admission_waiters := w\<rparr>) (?q1\<lparr>tbl_high_valid := False\<rparr>)"
    "op_ok l q l1 ?q1" "op_ok l q l1 (?q1\<lparr>tbl_high_valid := False\<rparr>)" for w
    using op_ok_trans g(1) op_ok_waiters by blast+
  then show ?thesis using assms(1) True s by (auto simp: tbrxe_unacked_sync_def Let_def split: if_splits)
qed

section \<open>Runs of a device\<close>

text \<open>Everything that can happen to a device, in any order: an admission, a roll-back or a commit by some
  queue pair's requester, a reconciliation by its completer, other progress of a queue pair with its
  sequence number kept to 24 bits, creation, destruction, and the link's sessions ending and starting.
  The 64-bit generation is assumed not to wrap around.\<close>

definition qp_fresh :: "rxe_qp \<Rightarrow> bool" where
  "qp_fresh q = (tbl_credits q = [] \<and> tbl_generation q = 0 \<and> req_psn q \<le> BTH_PSN_MASK)"

definition dev_destroy :: "nat \<Rightarrow> rxe_dev \<Rightarrow> rxe_dev" where
  "dev_destroy i d =
    (let d = dev_sync i (d\<lparr>qps := (qps d)[i := (qps d ! i)\<lparr>qvalid := False\<rparr>]\<rparr>)
     in d\<lparr>qps := take i (qps d) @ drop (Suc i) (qps d)\<rparr>)"

inductive credit_step :: "rxe_dev \<Rightarrow> rxe_dev \<Rightarrow> bool" where
  admit: "i < length (qps d) \<Longrightarrow> qp_type (qps d ! i) = IB_QPT_RC \<Longrightarrow> credit_step d (snd (dev_admit i d))"
| unadmit: "i < length (qps d) \<Longrightarrow> credit_step d (dev_unadmit i d)"
| commit: "i < length (qps d) \<Longrightarrow> credit_step d (dev_commit i d)"
| sync: "i < length (qps d) \<Longrightarrow> credit_step d (dev_sync i d)"
| progress: "i < length (qps d) \<Longrightarrow> p \<le> BTH_PSN_MASK \<Longrightarrow>
    credit_step d (d\<lparr>qps := (qps d)[i := (qps d ! i)\<lparr>req_psn := p, comp_psn := c, qvalid := v, qp_state := s,
      need_req_skb := n, need_resp_skb := m, send_task := t, recv_task := u\<rparr>]\<rparr>)"
| create: "qp_fresh q \<Longrightarrow> credit_step d (d\<lparr>qps := qps d @ [q]\<rparr>)"
| destroy: "i < length (qps d) \<Longrightarrow> credit_step d (dev_destroy i d)"
| up: "tbl_link d = Some l \<Longrightarrow> credit_generation l \<noteq> - 1 \<Longrightarrow> credit_step d (relink_up info d)"
| down: "tbl_link d = Some l \<Longrightarrow> credit_generation l \<noteq> - 1 \<Longrightarrow> credit_step d (relink_down d)"

lemma sum_list_swap:
  "i < length xs \<Longrightarrow> sum_list (map f (xs[i := y])) + f (xs ! i) = sum_list (map f xs) + (f y :: nat)"
proof (induction xs arbitrary: i)
  case (Cons x xs)
  then show ?case by (cases i) auto
qed simp

lemma credits_same_session:
  "same_session l l' \<Longrightarrow> live_credits l' q = live_credits l q \<and> fresh_credits l' q = fresh_credits l q \<and> qp_ok l' q = qp_ok l q"
  by (simp add: same_session_def live_credits_def fresh_credits_def qp_ok_def)

text \<open>An operation on one queue pair keeps the invariant of the device.\<close>

lemma counts_split:
  assumes "counts_ok l qs" "i < length qs"
  shows "\<exists>U F. unat (unacked l) = U + length (live_credits l (qs ! i)) \<and> unat (fresh_unacked l) = F + length (fresh_credits l (qs ! i))"
proof -
  have "f (qs ! i) \<le> sum_list (map f qs)" for f :: "rxe_qp \<Rightarrow> nat"
    using assms(2) by (intro member_le_sum_list) (auto simp: image_iff)
  then have "length (live_credits l (qs ! i)) \<le> unat (unacked l)" "length (fresh_credits l (qs ! i)) \<le> unat (fresh_unacked l)"
    using assms(1) by (simp_all add: counts_ok_def)
  then show ?thesis by (metis add.commute le_Suc_ex)
qed

lemma op_ok_counts:
  assumes "op_ok l q l' q'" "counts_ok l qs" "i < length qs" "qs ! i = q"
  shows "counts_ok l' (qs[i := q'])"
proof -
  obtain U F where n: "unat (unacked l) = U + length (live_credits l q)" "unat (fresh_unacked l) = F + length (fresh_credits l q)"
    using counts_split [OF assms(2,3)] assms(4) by blast
  then have n': "unat (unacked l') = U + length (live_credits l' q')" "unat (fresh_unacked l') = F + length (fresh_credits l' q')"
    using assms(1) by (auto simp: op_ok_def charged_as_def)
  have c: "live_credits l' = live_credits l" "fresh_credits l' = fresh_credits l"
    using credits_same_session assms(1) by (auto simp: op_ok_def)
  show ?thesis
    using assms(2,4) n n' sum_list_swap [OF assms(3), of "\<lambda>q. length (live_credits l q)" q']
      sum_list_swap [OF assms(3), of "\<lambda>q. length (fresh_credits l q)" q']
    by (simp add: counts_ok_def c)
qed

lemma op_ok_dev:
  assumes "credit_ok d" "tbl_link d = Some l" "i < length (qps d)" "op_ok l (qps d ! i) l' q'"
  shows "credit_ok (d\<lparr>tbl_link := Some l', qps := (qps d)[i := q']\<rparr>)"
proof -
  have o: "windows_ok l" "counts_ok l (qps d)" "list_all (qp_ok l) (qps d)" using assms(1,2) by (simp_all add: credit_ok_def)
  have s: "same_session l l'" and w: "windows_ok l'" and q: "qp_ok l' q'"
    using assms(3,4) o by (auto simp: op_ok_def list_all_length)
  have "list_all (qp_ok l') ((qps d)[i := q'])"
    using o(3) q credits_same_session [OF s] assms(3) by (auto simp: list_all_length nth_list_update)
  then show ?thesis using w op_ok_counts [OF assms(4) o(2) assms(3) refl] by (simp add: credit_ok_def)
qed

lemma kick_ok: "credit_ok (tbrxe_kick_parked_qps d) = credit_ok d"
proof -
  have k: "live_credits l (kick_qp q) = live_credits l q" "fresh_credits l (kick_qp q) = fresh_credits l q" "qp_ok l (kick_qp q) = qp_ok l q" for l q
    by (simp_all add: kick_qp_def Let_def live_credits_def fresh_credits_def qp_ok_def)
  show ?thesis
    by (simp add: credit_ok_def tbrxe_kick_parked_qps_def counts_ok_def comp_def k list_all_iff split: option.split)
qed

lemma dev_sync_ok: "credit_ok d \<Longrightarrow> i < length (qps d) \<Longrightarrow> credit_ok (dev_sync i d)"
proof -
  assume a: "credit_ok d" "i < length (qps d)"
  obtain k q' l' where s: "tbrxe_unacked_sync (qps d ! i) (tbl_link d) = (k, q', l')" by (metis prod_cases3)
  have "credit_ok (d\<lparr>tbl_link := l', qps := (qps d)[i := q']\<rparr>)"
  proof (cases "tbl_link d")
    case None
    then have "l' = None" using s by (auto simp: tbrxe_unacked_sync_def split: if_splits)
    then show ?thesis by (simp add: credit_ok_def)
  next
    case (Some l)
    then have "counts_ok l (qps d)" using a by (simp add: credit_ok_def)
    then obtain k where "l' = Some k" "op_ok l (qps d ! i) k q'"
      using sync_ok [OF _ counts_split [OF _ a(2)]] s Some by metis
    then show ?thesis using op_ok_dev [OF a(1) Some a(2)] by simp
  qed
  then show ?thesis by (simp add: dev_sync_def s Let_def kick_ok)
qed

lemma dev_qp_ok:
  assumes "credit_ok d" "i < length (qps d)" "\<And>l. tbl_link d = Some l \<Longrightarrow> op_ok l (qps d ! i) l q'"
  shows "credit_ok (d\<lparr>qps := (qps d)[i := q']\<rparr>)"
proof (cases "tbl_link d")
  case (Some l)
  then have "credit_ok (d\<lparr>tbl_link := Some l, qps := (qps d)[i := q']\<rparr>)" using op_ok_dev [OF assms(1) Some assms(2)] assms(3) by blast
  then show ?thesis using Some by (simp add: credit_ok_def)
qed (simp add: credit_ok_def)

lemma sync_invalid:
  assumes "tbrxe_unacked_sync q (Some l) = (k, q', l')" "\<not> qvalid q" "qp_type q \<noteq> IB_QPT_RC \<longrightarrow> tbl_credits q = []"
  shows "tbl_credits q' = []"
proof (cases "qp_type q = IB_QPT_RC")
  case True
  let ?q = "tbrxe_credit_generation_locked q l"
  obtain ks rel l1 where s: "sync_loop ?q (tbl_credits ?q) [] False l = (ks, rel, l1)" by (metis prod_cases3)
  have "\<not> qvalid ?q" using assms(2) by (simp add: tbrxe_credit_generation_locked_def)
  then have "ks = []" using sync_loop_result [OF s] by (simp add: credit_released_def)
  then show ?thesis using assms(1) True s by (auto simp: tbrxe_unacked_sync_def Let_def split: if_splits)
qed (use assms in \<open>auto simp: tbrxe_unacked_sync_def\<close>)

lemma dev_sync_fields: "tbl_link d = None \<Longrightarrow> tbl_link (dev_sync i d) = None" "length (qps (dev_sync i d)) = length (qps d)"
  by (auto simp: dev_sync_def tbrxe_unacked_sync_def tbrxe_kick_parked_qps_def Let_def split: prod.splits)

lemma drop_qp_ok:
  assumes "credit_ok d" "i < length (qps d)" "tbl_link d \<noteq> None \<longrightarrow> tbl_credits (qps d ! i) = []"
  shows "credit_ok (d\<lparr>qps := take i (qps d) @ drop (Suc i) (qps d)\<rparr>)"
proof (cases "tbl_link d")
  case (Some l)
  have x: "qps d = take i (qps d) @ (qps d ! i) # drop (Suc i) (qps d)" using assms(2) by (rule id_take_nth_drop)
  have s: "sum_list (map f (qps d)) = sum_list (map f (take i (qps d) @ drop (Suc i) (qps d)))" if "f (qps d ! i) = 0" for f :: "rxe_qp \<Rightarrow> nat"
    by (subst x) (simp add: that)
  have z: "length (live_credits l (qps d ! i)) = 0" "length (fresh_credits l (qps d ! i)) = 0"
    using assms(3) Some by (simp_all add: live_credits_def fresh_credits_def)
  have "counts_ok l (take i (qps d) @ drop (Suc i) (qps d))"
    using assms(1) Some s [of "\<lambda>q. length (live_credits l q)"] s [of "\<lambda>q. length (fresh_credits l q)"] z by (simp add: credit_ok_def counts_ok_def)
  moreover have "list_all (qp_ok l) (take i (qps d) @ drop (Suc i) (qps d))"
    using assms(1) Some by (auto simp: credit_ok_def list_all_iff dest: in_set_takeD in_set_dropD)
  ultimately show ?thesis using assms(1) Some by (simp add: credit_ok_def)
qed (simp add: credit_ok_def)

lemma dev_destroy_ok:
  assumes "credit_ok d" "i < length (qps d)"
  shows "credit_ok (dev_destroy i d)"
proof -
  let ?d = "d\<lparr>qps := (qps d)[i := (qps d ! i)\<lparr>qvalid := False\<rparr>]\<rparr>"
  have 1: "credit_ok ?d" by (rule dev_qp_ok [OF assms]) (rule op_ok_qp, simp_all)
  have 2: "credit_ok (dev_sync i ?d)" using dev_sync_ok [OF 1] assms(2) by simp
  have "tbl_credits (qps (dev_sync i ?d) ! i) = []" if l: "tbl_link (dev_sync i ?d) \<noteq> None"
  proof -
    obtain l where l: "tbl_link d = Some l" using l dev_sync_fields(1) [of ?d i] by (cases "tbl_link d") simp_all
    obtain k q' l' where s: "tbrxe_unacked_sync ((qps d ! i)\<lparr>qvalid := False\<rparr>) (Some l) = (k, q', l')" by (metis prod_cases3)
    have "tbl_credits q' = []" using sync_invalid [OF s] assms l by (simp add: credit_ok_def list_all_length qp_ok_def)
    then show ?thesis using s l assms(2) by (simp add: dev_sync_def tbrxe_kick_parked_qps_def Let_def kick_qp_def)
  qed
  then show ?thesis using drop_qp_ok [OF 2, of i] assms(2) dev_sync_fields(2) [of i ?d] by (simp add: dev_destroy_def Let_def)
qed

lemma session_change_ok:
  assumes "credit_ok d" "tbl_link d = Some l" "credit_generation l \<noteq> - 1"
  shows "credit_ok (d\<lparr>tbl_link := Some (session_change up info l)\<rparr>)"
proof -
  let ?l = "session_change up info l"
  have g: "x \<le> credit_generation l \<Longrightarrow> x \<noteq> credit_generation ?l \<and> x \<le> credit_generation ?l" for x
  proof -
    assume "x \<le> credit_generation l"
    moreover have "1 + credit_generation l \<noteq> 0" using assms(3) by (metis add.commute eq_neg_iff_add_eq_0)
    then have "credit_generation l < credit_generation l + 1" using unatSuc [of "credit_generation l"] by (simp add: word_less_nat_alt add.commute)
    ultimately show ?thesis by (auto simp: session_change_def)
  qed
  have q: "list_all (qp_ok l) (qps d)" using assms(1,2) by (simp add: credit_ok_def)
  then have z: "live_credits ?l q = []" "fresh_credits ?l q = []" "qp_ok ?l q" if "q \<in> set (qps d)" for q
    using that g by (auto simp: list_all_iff live_credits_def fresh_credits_def qp_ok_def)
  have "counts_ok ?l (qps d)" using z by (simp add: counts_ok_def session_change_def sum_list_eq_0_iff)
  moreover have "windows_ok ?l" by (simp add: windows_ok_def session_change_def)
  ultimately show ?thesis using z by (simp add: credit_ok_def list_all_iff)
qed

lemma credit_step_ok: "credit_step d d' \<Longrightarrow> credit_ok d \<Longrightarrow> credit_ok d'"
proof (induction rule: credit_step.induct)
  case (admit i d)
  obtain r q' l' where s: "tbrxe_admit (qps d ! i) (tbl_link d) = (r, q', l')" by (metis prod_cases3)
  show ?case
  proof (cases "tbl_link d")
    case None
    then show ?thesis using s by (simp add: dev_admit_def tbrxe_admit_def credit_ok_def)
  next
    case (Some l)
    then have "qp_ok l (qps d ! i)" using admit by (simp add: credit_ok_def list_all_length)
    then obtain k where "l' = Some k" "op_ok l (qps d ! i) k q'" using admit_ok s Some admit(2) by metis
    then show ?thesis using op_ok_dev [OF admit(3) Some admit(1)] s by (simp add: dev_admit_def)
  qed
next
  case (unadmit i d)
  obtain q' l' where s: "tbrxe_unadmit (qps d ! i) (tbl_link d) = (q', l')" by fastforce
  show ?case
  proof (cases "tbl_link d")
    case None
    then show ?thesis using s by (simp add: dev_unadmit_def tbrxe_unadmit_def credit_ok_def)
  next
    case (Some l)
    then have "counts_ok l (qps d)" using unadmit by (simp add: credit_ok_def)
    then obtain k where "l' = Some k" "op_ok l (qps d ! i) k q'"
      using unadmit_ok [OF _ counts_split [OF _ unadmit(1)]] s Some by metis
    then show ?thesis using op_ok_dev [OF unadmit(2) Some unadmit(1)] s by (simp add: dev_unadmit_def)
  qed
next
  case (commit i d)
  then show ?case unfolding dev_commit_def by (intro dev_qp_ok) (simp_all add: commit_ok)
next
  case (progress i d p c v s n m t u)
  then show ?case by (intro dev_qp_ok) (auto intro: op_ok_qp)
next
  case (create q d)
  then show ?case
    by (auto simp: credit_ok_def counts_ok_def qp_fresh_def live_credits_def fresh_credits_def qp_ok_def split: option.splits)
next
  case (up d l info)
  then show ?case using session_change_ok [of d l True info] by (simp add: relink_up_def)
next
  case (down d l)
  then show ?case using session_change_ok [of d l False "rl_info l"] by (simp add: relink_down_def)
qed (simp_all add: dev_sync_ok dev_destroy_ok)

text \<open>C3: The engine keeps to the advertised window. Starting from a link with no queue pairs, however
  the requesters and completers of its queue pairs, their creation and destruction and the sessions
  of the link interleave, the number of records outstanding in the present session is at most the
  window the peer advertised, the fresh ones among them at most the window less the replay reserve,
  the counters of the link are exactly these numbers, and no queue pair's array overflows.\<close>

theorem mode_a_window:
  assumes "credit_step\<^sup>*\<^sup>* \<lparr>tbl_link = Some l0, qps = []\<rparr> d" "unacked l0 = 0" "fresh_unacked l0 = 0" "tbl_link d = Some l"
  shows "sum_list (map (\<lambda>q. length (live_credits l q)) (qps d)) \<le> unat (tbrxe_link_wire_window l)
    \<and> sum_list (map (\<lambda>q. length (fresh_credits l q)) (qps d)) \<le> unat (tbrxe_link_fresh_window l)
    \<and> unat (unacked l) = sum_list (map (\<lambda>q. length (live_credits l q)) (qps d))
    \<and> unat (fresh_unacked l) = sum_list (map (\<lambda>q. length (fresh_credits l q)) (qps d))
    \<and> list_all (\<lambda>q. length (tbl_credits q) \<le> unat (tbl_credit_cap q)) (qps d)"
proof -
  have "credit_ok d"
    using assms(1)
  proof (induction rule: rtranclp_induct)
    case base
    show ?case using assms(2,3) by (simp add: credit_ok_def windows_ok_def counts_ok_def)
  next
    case (step y z)
    then show ?case using credit_step_ok by blast
  qed
  then show ?thesis using assms(4) by (auto simp: credit_ok_def windows_ok_def counts_ok_def word_le_nat_alt qp_ok_def list_all_iff)
qed

definition info_sample :: tbframe_link_info where
  "info_sample = \<lparr>li_gid_eui64 = 1, li_local_gid_eui64 = 2, li_route = 3, li_rx_ring_entries = 3, li_data_window = 1, li_max_payload = 4096,
     li_e2e = False, li_width = 2, li_speed = 20, li_remote_uuid = [], li_remote_name = ''peer''\<rparr>"

definition rlink_sample :: tbrxe_link where
  "rlink_sample = \<lparr>rl_info = info_sample, session_up = True, unacked = 0, fresh_unacked = 0, credit_generation = 1, admission_waiters = False\<rparr>"

definition qp_sample :: rxe_qp where
  "qp_sample = \<lparr>qp_type = IB_QPT_RC, qvalid = True, qp_state = IB_QPS_RTS, req_psn = 5, comp_psn = 5, need_req_skb = False, need_resp_skb = False,
     tbl_credits = [], tbl_credit_cap = 160, tbl_high_psn = 0, tbl_high_valid = False, tbl_generation = 0, send_task = False, recv_task = False\<rparr>"

lemmas credit_samples = info_sample_def rlink_sample_def qp_sample_def

lemma admit_sample:
  "tbrxe_admit qp_sample (Some rlink_sample) = ((True, True), qp_sample\<lparr>tbl_credits := [5], tbl_generation := 1\<rparr>,
     Some (rlink_sample\<lparr>unacked := 1, fresh_unacked := 1\<rparr>))"
  by (simp add: tbrxe_admit_def tbrxe_credit_generation_locked_def credit_samples Let_def tbrxe_link_wire_window_def tbrxe_link_engine_window_def
      tbrxe_link_fresh_window_def tbrxe_link_replay_reserve_def)

theorem mode_a_window_witness:
  "\<exists>d l. credit_step\<^sup>*\<^sup>* \<lparr>tbl_link = Some rlink_sample, qps = []\<rparr> d \<and> tbl_link d = Some l \<and> unacked l = 1
     \<and> sum_list (map (\<lambda>q. length (live_credits l q)) (qps d)) = 1"
proof -
  let ?d0 = "\<lparr>tbl_link = Some rlink_sample, qps = []\<rparr>" and ?d1 = "\<lparr>tbl_link = Some rlink_sample, qps = [qp_sample]\<rparr>"
  let ?l = "rlink_sample\<lparr>unacked := 1, fresh_unacked := 1\<rparr>"
  let ?d2 = "\<lparr>tbl_link = Some ?l, qps = [qp_sample\<lparr>tbl_credits := [5], tbl_generation := 1\<rparr>]\<rparr>"
  have "credit_step ?d0 ?d1" using credit_step.create [of qp_sample ?d0] by (simp add: qp_fresh_def qp_sample_def BTH_PSN_MASK_def)
  moreover have "credit_step ?d1 ?d2" using credit_step.admit [of 0 ?d1] by (simp add: dev_admit_def admit_sample) (simp add: qp_sample_def)
  ultimately have r: "credit_step\<^sup>*\<^sup>* ?d0 ?d2" by auto
  have "unat (unacked ?l) = sum_list (map (\<lambda>q. length (live_credits ?l q)) (qps ?d2))"
    using mode_a_window [OF r, of ?l] by (simp add: rlink_sample_def)
  then show ?thesis using r by (intro exI [of _ ?d2] exI [of _ ?l]) simp
qed

section \<open>Release and retry\<close>

lemma sync_loop_keeps:
  "sync_loop q cs ks rel l = (ks', rel', l') \<Longrightarrow> credit_generation l' = credit_generation l \<and> admission_waiters l' = admission_waiters l"
  by (induction q cs ks rel l rule: sync_loop.induct) (auto simp: release_one_def Let_def split: if_splits)

lemma sync_cases:
  assumes "qp_type q = IB_QPT_RC" "tbrxe_unacked_sync q (Some l) = (kick, q', l')"
  defines "g \<equiv> tbrxe_credit_generation_locked q l"
  shows "\<exists>k. l' = Some k \<and> credit_generation k = credit_generation l \<and> admission_waiters k = (admission_waiters l \<and> \<not> kick)
    \<and> kick = (admission_waiters l \<and> list_ex (credit_released g) (tbl_credits g))
    \<and> (\<exists>b. q' = g\<lparr>tbl_credits := filter (\<lambda>c. \<not> credit_released g c) (tbl_credits g), tbl_high_valid := b\<rparr> \<and> (b \<longrightarrow> tbl_high_valid g))"
proof -
  obtain ks rel l1 where s: "sync_loop g (tbl_credits g) [] False l = (ks, rel, l1)" by (metis prod_cases3)
  note r = sync_loop_result [OF s] sync_loop_keeps [OF s]
  let ?q = "g\<lparr>tbl_credits := ks\<rparr>" and ?b = "tbl_high_valid g \<and> qvalid g \<and> qp_state g \<noteq> IB_QPS_RESET" and ?kick = "rel \<and> admission_waiters l1"
  have "q' = ?q\<lparr>tbl_high_valid := ?b\<rparr> \<and> kick = ?kick \<and> l' = Some (if ?kick then l1\<lparr>admission_waiters := False\<rparr> else l1)"
    using assms(1,2) s unfolding g_def by (auto simp: tbrxe_unacked_sync_def Let_def split: if_splits)
  then show ?thesis using r by auto
qed

text \<open>C17: Reconciling with the completer releases exactly what it has passed. Of a queue pair's records in
  the present session those stay whose sequence number is not before the completer's, in order, and
  none when the queue pair is going away; and a packet sent again under a sequence number that is
  still recorded is admitted without another charge, whatever the window.\<close>

theorem sync_releases_exactly:
  assumes "qp_type q = IB_QPT_RC" "tbl_generation q = credit_generation l" "tbrxe_unacked_sync q (Some l) = (kick, q', l')"
  shows "tbl_credits q' =
      (if qvalid q \<and> qp_state q \<noteq> IB_QPS_ERR \<and> qp_state q \<noteq> IB_QPS_RESET
       then filter (\<lambda>c. psn_compare (c AND BTH_PSN_MASK) (comp_psn q) \<ge> 0) (tbl_credits q) else [])
    \<and> (kick \<longleftrightarrow> admission_waiters l \<and> tbl_credits q' \<noteq> tbl_credits q)
    \<and> (\<forall>c \<in> set (tbl_credits q'). tbl_high_valid q' \<and> psn_compare (req_psn q') (tbl_high_psn q') < 0
         \<and> c AND BTH_PSN_MASK = req_psn q' AND BTH_PSN_MASK \<longrightarrow> tbrxe_admit q' l' = ((True, False), q', l'))"
proof -
  have g: "tbrxe_credit_generation_locked q l = q" using assms(2) by (simp add: tbrxe_credit_generation_locked_def)
  obtain k b where k: "l' = Some k" "credit_generation k = credit_generation l"
      "kick = (admission_waiters l \<and> list_ex (credit_released q) (tbl_credits q))"
      "q' = q\<lparr>tbl_credits := filter (\<lambda>c. \<not> credit_released q c) (tbl_credits q), tbl_high_valid := b\<rparr>"
    using sync_cases [OF assms(1,3)] unfolding g by blast
  let ?keep = "filter (\<lambda>c. psn_compare (c AND BTH_PSN_MASK) (comp_psn q) \<ge> 0) (tbl_credits q)"
  have f: "filter (\<lambda>c. \<not> credit_released q c) (tbl_credits q) =
      (if qvalid q \<and> qp_state q \<noteq> IB_QPS_ERR \<and> qp_state q \<noteq> IB_QPS_RESET then ?keep else [])"
    unfolding credit_released_def by (auto simp: not_less intro: filter_cong)
  have ne: "list_ex (credit_released q) (tbl_credits q) \<longleftrightarrow> tbl_credits q' \<noteq> tbl_credits q"
    unfolding k(4) by (simp add: list_ex_iff filter_id_conv)
  have q': "tbl_generation q' = credit_generation k" using k(2,4) assms(2) by simp
  show ?thesis
  proof (intro conjI ballI impI)
    fix c assume "c \<in> set (tbl_credits q')" "tbl_high_valid q' \<and> psn_compare (req_psn q') (tbl_high_psn q') < 0 \<and> c AND BTH_PSN_MASK = req_psn q' AND BTH_PSN_MASK"
    then show "tbrxe_admit q' l' = ((True, False), q', l')"
      unfolding k(1) using q' by (auto simp: tbrxe_admit_def tbrxe_credit_generation_locked_def Let_def)
  qed (use k f ne in simp_all)
qed

lemma psn_sample: "psn_compare 3 5 = - 512" "psn_compare 4 5 = - 256" "psn_compare 5 5 = 0" "psn_compare 6 5 = 256"
  by code_simp+

theorem sync_releases_exactly_witness:
  "\<exists>kick q' l'. tbrxe_unacked_sync (qp_sample\<lparr>tbl_credits := [3, 4, 5, 6], tbl_generation := 1\<rparr>) (Some (rlink_sample\<lparr>unacked := 4, fresh_unacked := 4\<rparr>))
     = (kick, q', l') \<and> tbl_credits q' = [5, 6]"
proof -
  let ?q = "qp_sample\<lparr>tbl_credits := [3, 4, 5, 6], tbl_generation := 1\<rparr>" and ?l = "rlink_sample\<lparr>unacked := 4, fresh_unacked := 4\<rparr>"
  obtain kick q' l' where s: "tbrxe_unacked_sync ?q (Some ?l) = (kick, q', l')" by (metis prod_cases3)
  have "tbl_credits q' = [5, 6]"
    using sync_releases_exactly [OF _ _ s] by (simp add: credit_samples psn_sample BTH_PSN_MASK_def)
  then show ?thesis using s by blast
qed

section \<open>Waking parked queue pairs\<close>

text \<open>What may happen while one queue pair is parked: anything but a change of session, or a step of its
  own requester.\<close>

inductive wait_step :: "nat \<Rightarrow> rxe_dev \<Rightarrow> rxe_dev \<Rightarrow> bool" for i where
  admit: "j < length (qps d) \<Longrightarrow> j \<noteq> i \<Longrightarrow> wait_step i d (snd (dev_admit j d))"
| unadmit: "j < length (qps d) \<Longrightarrow> wait_step i d (dev_unadmit j d)"
| commit: "j < length (qps d) \<Longrightarrow> wait_step i d (dev_commit j d)"
| sync: "j < length (qps d) \<Longrightarrow> wait_step i d (dev_sync j d)"
| progress: "j < length (qps d) \<Longrightarrow> j \<noteq> i \<Longrightarrow> wait_step i d (d\<lparr>qps := (qps d)[j := q]\<rparr>)"
| create: "wait_step i d (d\<lparr>qps := qps d @ [q]\<rparr>)"

definition noted :: "tbrxe_link option \<Rightarrow> bool" where
  "noted link = (case link of None \<Rightarrow> False | Some l \<Rightarrow> admission_waiters l)"

definition waiting :: "nat \<Rightarrow> rxe_dev \<Rightarrow> bool" where
  "waiting i d = (i < length (qps d) \<and> need_req_skb (qps d ! i) \<and> (send_task (qps d ! i) \<or> noted (tbl_link d)))"

text \<open>No operation on records touches the task flags of a queue pair.\<close>

definition same_task :: "rxe_qp \<Rightarrow> rxe_qp \<Rightarrow> bool" where
  "same_task q q' = (need_req_skb q' = need_req_skb q \<and> send_task q' = send_task q)"

lemma locked_task [simp]: "same_task q (tbrxe_credit_generation_locked q l)"
  by (simp add: same_task_def tbrxe_credit_generation_locked_def)

lemma release_one_waiters [simp]: "admission_waiters (release_one c l) = admission_waiters l"
  by (simp add: release_one_def Let_def)

lemma unadmit_task: "tbrxe_unadmit q link = (q', link') \<Longrightarrow> same_task q q' \<and> noted link' = noted link"
  using locked_task [of q]
  by (auto simp: tbrxe_unadmit_def same_task_def noted_def Let_def split: option.splits if_splits)

lemma commit_task: "same_task q (tbrxe_credit_commit q link)"
  using locked_task [of q] by (auto simp: tbrxe_credit_commit_def same_task_def Let_def split: option.splits)

lemma sync_task:
  "tbrxe_unacked_sync q link = (kick, q', link') \<Longrightarrow> same_task q q' \<and> (noted link' \<or> kick \<longleftrightarrow> noted link)"
proof (cases "qp_type q = IB_QPT_RC \<and> link \<noteq> None")
  case True
  assume s: "tbrxe_unacked_sync q link = (kick, q', link')"
  obtain l where l: "link = Some l" using True by auto
  show ?thesis using sync_cases [of q l kick q' link'] True s locked_task [of q l] by (auto simp: l noted_def same_task_def)
next
  case False
  then show "tbrxe_unacked_sync q link = (kick, q', link') \<Longrightarrow> ?thesis"
    by (auto simp: tbrxe_unacked_sync_def same_task_def noted_def split: if_splits)
qed

lemma admit_noted: "tbrxe_admit q link = (r, q', link') \<Longrightarrow> noted link \<Longrightarrow> noted link'"
  by (auto simp: tbrxe_admit_def noted_def Let_def split: option.splits if_splits)

lemma waiting_update:
  assumes "waiting i d" "j < length (qps d)" "j \<noteq> i \<or> same_task (qps d ! j) q" "noted (tbl_link d) \<Longrightarrow> noted link"
  shows "waiting i (d\<lparr>tbl_link := link, qps := (qps d)[j := q]\<rparr>)"
  using assms by (cases "j = i") (auto simp: waiting_def same_task_def)

lemma kick_wakes:
  assumes "i < length (qps d)" "need_req_skb (qps d ! i)"
  shows "waiting i (tbrxe_kick_parked_qps d) \<and> send_task (qps (tbrxe_kick_parked_qps d) ! i)"
  using assms by (auto simp: waiting_def tbrxe_kick_parked_qps_def kick_qp_def Let_def)

lemma sync_waiting:
  assumes "waiting i d" "j < length (qps d)"
  shows "waiting i (dev_sync j d)"
proof -
  obtain kick q l where s: "tbrxe_unacked_sync (qps d ! j) (tbl_link d) = (kick, q, l)" by (metis prod_cases3)
  note t = sync_task [OF s]
  let ?d = "d\<lparr>tbl_link := l, qps := (qps d)[j := q]\<rparr>"
  show ?thesis
  proof (cases kick)
    case True
    have "i < length (qps ?d) \<and> need_req_skb (qps ?d ! i)" using assms t by (cases "j = i") (auto simp: waiting_def same_task_def)
    then show ?thesis using s True kick_wakes [of i ?d] by (simp add: dev_sync_def)
  next
    case False
    then show ?thesis using waiting_update [OF assms, of q l] t s by (simp add: dev_sync_def)
  qed
qed

lemma wait_step_keeps:
  assumes "wait_step i d d'" "waiting i d"
  shows "waiting i d'"
  using assms
proof (induction rule: wait_step.induct)
  case (admit j d)
  obtain r q l where s: "tbrxe_admit (qps d ! j) (tbl_link d) = (r, q, l)" by (metis prod_cases3)
  show ?case using waiting_update [OF admit(3,1), of q l] admit(2) admit_noted [OF s] s by (simp add: dev_admit_def)
next
  case (unadmit j d)
  obtain q l where s: "tbrxe_unadmit (qps d ! j) (tbl_link d) = (q, l)" by fastforce
  show ?case using waiting_update [OF unadmit(2,1), of q l] unadmit_task [OF s] s by (simp add: dev_unadmit_def)
next
  case (commit j d)
  show ?case using waiting_update [OF commit(2,1), of _ "tbl_link d"] commit_task by (simp add: dev_commit_def)
next
  case (progress j d q)
  show ?case using waiting_update [OF progress(3,1), of q "tbl_link d"] progress(2) by simp
next
  case (create d q)
  then show ?case by (simp add: waiting_def nth_append)
qed (simp add: sync_waiting)

lemma refused_waiting:
  assumes "i < length (qps d)" "dev_admit i d = ((False, c), d')"
  shows "waiting i d'"
  using assms by (auto simp: dev_admit_def waiting_def noted_def tbrxe_admit_def Let_def split: option.splits if_splits)

lemma wait_run_keeps: "(wait_step i)\<^sup>*\<^sup>* d d' \<Longrightarrow> waiting i d \<Longrightarrow> waiting i d'"
  by (induction rule: rtranclp_induct) (auto intro: wait_step_keeps)

text \<open>C10: No wakeup is lost within a session. When the window refuses a queue pair, then however the
  operations of the other queue pairs and of its own completer interleave afterwards, the first
  reconciliation that releases a record leaves its requester scheduled.\<close>

theorem no_lost_wakeup:
  assumes "i < length (qps d)" "dev_admit i d = ((False, c), d1)" "(wait_step i)\<^sup>*\<^sup>* d1 d2"
    and "j < length (qps d2)" "tbl_link d2 = Some l" "qp_type (qps d2 ! j) = IB_QPT_RC"
    and "list_ex (credit_released (qps d2 ! j)) (live_credits l (qps d2 ! j))"
  shows "send_task (qps (dev_sync j d2) ! i)"
proof -
  have w: "waiting i d2" using wait_run_keeps [OF assms(3)] refused_waiting [OF assms(1,2)] by blast
  obtain kick q l' where s: "tbrxe_unacked_sync (qps d2 ! j) (tbl_link d2) = (kick, q, l')" by (metis prod_cases3)
  have g: "tbrxe_credit_generation_locked (qps d2 ! j) l = qps d2 ! j \<and> live_credits l (qps d2 ! j) = tbl_credits (qps d2 ! j)"
    using assms(7) by (auto simp: live_credits_def tbrxe_credit_generation_locked_def split: if_splits)
  have k: "kick = admission_waiters l" using sync_cases [OF assms(6), of l] s assms(5,7) g by force
  have t: "same_task (qps d2 ! j) q" using sync_task [OF s] by simp
  let ?d = "d2\<lparr>tbl_link := l', qps := (qps d2)[j := q]\<rparr>"
  have n: "i < length (qps ?d) \<and> need_req_skb (qps ?d ! i) \<and> send_task (qps ?d ! i) = send_task (qps d2 ! i)"
    using w t assms(4) by (cases "j = i") (auto simp: waiting_def same_task_def)
  show ?thesis
  proof (cases kick)
    case True
    then show ?thesis using s n kick_wakes [of i ?d] by (simp add: dev_sync_def)
  next
    case False
    then show ?thesis using s n w k assms(5) by (simp add: dev_sync_def waiting_def noted_def)
  qed
qed

definition holder_sample :: rxe_qp where
  "holder_sample = qp_sample\<lparr>tbl_credits := [4], tbl_generation := 1\<rparr>"

definition full_link :: tbrxe_link where
  "full_link = rlink_sample\<lparr>unacked := 1, fresh_unacked := 1\<rparr>"

lemma refused_sample:
  "tbrxe_admit qp_sample (Some full_link) = ((False, False), qp_sample\<lparr>tbl_generation := 1, need_req_skb := True\<rparr>,
     Some (full_link\<lparr>admission_waiters := True\<rparr>))"
  by (simp add: tbrxe_admit_def tbrxe_credit_generation_locked_def credit_samples full_link_def Let_def tbrxe_link_wire_window_def
      tbrxe_link_engine_window_def)

theorem no_lost_wakeup_witness:
  "send_task (qps (dev_sync 0 \<lparr>tbl_link = Some (full_link\<lparr>admission_waiters := True\<rparr>),
     qps = [holder_sample, qp_sample\<lparr>tbl_generation := 1, need_req_skb := True\<rparr>]\<rparr>) ! 1)"
  using no_lost_wakeup [of 1 "\<lparr>tbl_link = Some full_link, qps = [holder_sample, qp_sample]\<rparr>" False, OF _ _ rtranclp.rtrancl_refl, of _ 0]
  by (simp add: dev_admit_def refused_sample) (simp add: holder_sample_def credit_samples full_link_def credit_released_def live_credits_def psn_sample BTH_PSN_MASK_def)

text \<open>The steps of a session in which the window refuses nobody.\<close>

inductive quiet_step :: "nat \<Rightarrow> rxe_dev \<Rightarrow> rxe_dev \<Rightarrow> bool" for i where
  admit: "j < length (qps d) \<Longrightarrow> j \<noteq> i \<Longrightarrow> dev_admit j d = ((True, c), d') \<Longrightarrow> quiet_step i d d'"
| unadmit: "j < length (qps d) \<Longrightarrow> quiet_step i d (dev_unadmit j d)"
| commit: "j < length (qps d) \<Longrightarrow> quiet_step i d (dev_commit j d)"
| sync: "j < length (qps d) \<Longrightarrow> quiet_step i d (dev_sync j d)"
| progress: "j < length (qps d) \<Longrightarrow> j \<noteq> i \<Longrightarrow> quiet_step i d (d\<lparr>qps := (qps d)[j := q]\<rparr>)"
| create: "quiet_step i d (d\<lparr>qps := qps d @ [q]\<rparr>)"

definition asleep :: "nat \<Rightarrow> rxe_dev \<Rightarrow> bool" where
  "asleep i d = (i < length (qps d) \<and> need_req_skb (qps d ! i) \<and> \<not> send_task (qps d ! i) \<and> \<not> noted (tbl_link d))"

lemma asleep_update:
  assumes "asleep i d" "j < length (qps d)" "j \<noteq> i \<or> same_task (qps d ! j) q" "\<not> noted link"
  shows "asleep i (d\<lparr>tbl_link := link, qps := (qps d)[j := q]\<rparr>)"
  using assms by (cases "j = i") (auto simp: asleep_def same_task_def)

lemma admitted_noted: "tbrxe_admit q link = ((True, c), q', link') \<Longrightarrow> noted link' = noted link"
  by (auto simp: tbrxe_admit_def noted_def Let_def split: option.splits if_splits)

lemma quiet_step_keeps:
  assumes "quiet_step i d d'" "asleep i d"
  shows "asleep i d'"
  using assms
proof (induction rule: quiet_step.induct)
  case (admit j d c d')
  obtain r q l where s: "tbrxe_admit (qps d ! j) (tbl_link d) = (r, q, l)" by (metis prod_cases3)
  then have "r = (True, c)" "d' = d\<lparr>tbl_link := l, qps := (qps d)[j := q]\<rparr>" using admit(3) by (auto simp: dev_admit_def)
  then show ?case using asleep_update [OF admit(4,1), of q l] admit(2,4) admitted_noted [of "qps d ! j"] s by (auto simp: asleep_def)
next
  case (unadmit j d)
  obtain q l where s: "tbrxe_unadmit (qps d ! j) (tbl_link d) = (q, l)" by fastforce
  show ?case using asleep_update [OF unadmit(2,1), of q l] unadmit(2) unadmit_task [OF s] s by (simp add: dev_unadmit_def asleep_def)
next
  case (commit j d)
  show ?case using asleep_update [OF commit(2,1), of _ "tbl_link d"] commit(2) commit_task by (simp add: dev_commit_def asleep_def)
next
  case (sync j d)
  obtain kick q l where s: "tbrxe_unacked_sync (qps d ! j) (tbl_link d) = (kick, q, l)" by (metis prod_cases3)
  show ?case using asleep_update [OF sync(2,1), of q l] sync(2) sync_task [OF s] s by (simp add: dev_sync_def asleep_def)
next
  case (progress j d q)
  show ?case using asleep_update [OF progress(3,1), of q "tbl_link d"] progress(2,3) by (simp add: asleep_def)
next
  case (create d q)
  then show ?case by (simp add: asleep_def nth_append)
qed

lemma quiet_run_keeps: "(quiet_step i)\<^sup>*\<^sup>* d d' \<Longrightarrow> asleep i d \<Longrightarrow> asleep i d'"
  by (induction rule: rtranclp_induct) (auto intro: quiet_step_keeps)

lemma fresh_window_pos: "0 < tbrxe_link_fresh_window l" "0 < tbrxe_link_wire_window l"
proof -
  let ?w = "tbrxe_link_engine_window l"
  have w: "0 < unat ?w"
    by (cases "li_data_window (rl_info l) = 0") (simp_all add: tbrxe_link_engine_window_def unsigned_ucast_eq take_bit_nat_eq_self order_less_le_trans [OF unsigned_less] word_neq_0_conv word_less_nat_alt)
  have "unat (tbrxe_link_replay_reserve l) \<le> unat ?w div 8"
    by (simp add: tbrxe_link_replay_reserve_def Let_def min_def word_le_nat_alt unat_div)
  then have r: "unat (tbrxe_link_replay_reserve l) < unat ?w" using w by linarith
  then show "0 < tbrxe_link_fresh_window l"
    by (simp add: tbrxe_link_fresh_window_def word_less_nat_alt unat_sub_if')
  show "0 < tbrxe_link_wire_window l" using w by (simp add: tbrxe_link_wire_window_def word_less_nat_alt)
qed

text \<open>C25: A change of session forgets the queue pairs that wait for the window. When a session ends and
  the next one starts with a queue pair parked, the window is entirely open again and admission
  would accept it, but nothing on the credit path schedules it: as long as nobody else is refused,
  no sequence of admissions, rollbacks, commits and reconciliations on the device does.\<close>

theorem session_change_forgets_parked:
  assumes "i < length (qps d)" "tbl_link d = Some l" "need_req_skb (qps d ! i)" "\<not> send_task (qps d ! i)"
    and "tbl_generation (qps d ! i) = credit_generation l" "0 < tbl_credit_cap (qps d ! i)"
    and "d1 = relink_up info (relink_down d)" "(quiet_step i)\<^sup>*\<^sup>* d1 d2"
  shows "fst (fst (dev_admit i d1)) \<and> need_req_skb (qps d2 ! i) \<and> \<not> send_task (qps d2 ! i)"
proof -
  let ?l = "session_change True info (session_change False (rl_info l) l)"
  have d1: "tbl_link d1 = Some ?l" "qps d1 = qps d" using assms(2,7) by (simp_all add: relink_up_def relink_down_def)
  have "asleep i d1" using assms(1,3,4) by (simp add: asleep_def noted_def d1 session_change_def)
  then have "asleep i d2" by (rule quiet_run_keeps [OF assms(8)])
  moreover have "tbl_credits (tbrxe_credit_generation_locked (qps d ! i) ?l) = [] \<and>
      tbl_credit_cap (tbrxe_credit_generation_locked (qps d ! i) ?l) = tbl_credit_cap (qps d ! i)"
    using assms(5) by (simp add: tbrxe_credit_generation_locked_def session_change_def)
  moreover have "unacked ?l = 0" "fresh_unacked ?l = 0" by (simp_all add: session_change_def)
  ultimately show ?thesis using fresh_window_pos [of ?l] assms(6)
    by (simp add: dev_admit_def tbrxe_admit_def d1 asleep_def Let_def unat_gt_0 word_neq_0_conv not_le)
qed

theorem session_change_forgets_parked_witness:
  "\<not> send_task (qps (dev_sync 0 (relink_up info_sample (relink_down \<lparr>tbl_link = Some (full_link\<lparr>admission_waiters := True\<rparr>),
     qps = [holder_sample, qp_sample\<lparr>tbl_generation := 1, need_req_skb := True\<rparr>]\<rparr>))) ! 1)"
proof -
  let ?d = "\<lparr>tbl_link = Some (full_link\<lparr>admission_waiters := True\<rparr>), qps = [holder_sample, qp_sample\<lparr>tbl_generation := 1, need_req_skb := True\<rparr>]\<rparr>"
  let ?d1 = "relink_up info_sample (relink_down ?d)"
  have "(quiet_step 1)\<^sup>*\<^sup>* ?d1 (dev_sync 0 ?d1)"
    by (rule r_into_rtranclp, rule quiet_step.sync) (simp add: relink_up_def relink_down_def)
  then show ?thesis using session_change_forgets_parked [of 1 ?d _ ?d1 info_sample "dev_sync 0 ?d1"]
    by (simp add: full_link_def credit_samples)
qed

end
