(* ===== verification/Spec2Isabelle.thy ===== *)
theory Spec2Isabelle
  imports Tbframe_Module Tb_Property Tbrxe_Credit
begin

text \<open>
  Verification of the Thunderbolt frame service.
\<close>

end
